(* ===== verification/Prelude.thy ===== *)
theory Prelude
  imports Main "HOL-Library.Word"
begin

text \<open>
  Shared vocabulary of the SyncHarbor development: the result type that carries C++
  exceptions, string tests of the C++ library that the sources use, the C string view
  through which text reaches SQLite, and the fixed-width integer conversions between
  \<open>uint64_t\<close>, \<open>sqlite3_int64\<close> and \<open>int\<close>.
\<close>

named_theorems sh_simps \<open>unfolding rules for the small operations of the model\<close>
named_theorems frame \<open>what an operation leaves unchanged\<close>
named_theorems keeps \<open>an operation keeps an invariant\<close>

subsection \<open>Exceptions as values\<close>

text \<open>
  A C++ function that may throw returns a sum: the left summand is the exception. The last
  four are no exceptions: an access through a null pointer, a thread that waits for itself, a
  loop that has not ended within the turns given to it, and a format string whose conversions
  do not fit the arguments. The first and the last are undefined behaviour.
\<close>

datatype exn =
    RuntimeError string
  | FilesystemError string
  | JsonError string
  | OutOfRange
  | BadFunctionCall
  | InvalidArgument string
  | NullPointer
  | SelfDeadlock
  | Diverges
  | UndefinedFormat

type_synonym 'a res = "exn + 'a"

fun is_ok :: "'a res \<Rightarrow> bool" where
  "is_ok (Inl _) = False"
| "is_ok (Inr _) = True"

fun res_bind :: "'a res \<Rightarrow> ('a \<Rightarrow> 'b res) \<Rightarrow> 'b res" where
  "res_bind (Inl e) f = Inl e"
| "res_bind (Inr x) f = f x"

lemma is_ok_iff: "is_ok r \<longleftrightarrow> (\<exists>x. r = Inr x)"
  by (cases r) auto

lemma not_ok_iff: "\<not> is_ok r \<longleftrightarrow> (\<exists>e. r = Inl e)"
  by (cases r) auto

subsection \<open>Strings\<close>

definition starts_with :: "string \<Rightarrow> string \<Rightarrow> bool" where
  "starts_with p s \<longleftrightarrow> length p \<le> length s \<and> take (length p) s = p"

definition ends_with :: "string \<Rightarrow> string \<Rightarrow> bool" where
  "ends_with p s \<longleftrightarrow> length p \<le> length s \<and> drop (length s - length p) s = p"

lemma starts_with_append [simp]: "starts_with p (p @ s)"
  by (simp add: starts_with_def)

lemma ends_with_append [simp]: "ends_with p (s @ p)"
  by (simp add: ends_with_def)

lemma starts_with_iff: "starts_with p s \<longleftrightarrow> (\<exists>r. s = p @ r)"
  unfolding starts_with_def by (metis append_eq_conv_conj append_take_drop_id length_append le_add1)

text \<open>
  Text bound to a statement with length \<open>-1\<close> is read up to the first NUL, as
  \<open>std::string::c_str\<close> hands it over.
\<close>

definition c_str :: "string \<Rightarrow> string" where
  "c_str s = takeWhile (\<lambda>c. c \<noteq> CHR 0x00) s"

lemma c_str_id [simp]: "CHR 0x00 \<notin> set s \<Longrightarrow> c_str s = s"
  by (auto simp: c_str_def takeWhile_eq_all_conv)

lemma c_str_no_nul [simp]: "CHR 0x00 \<notin> set (c_str s)"
  by (auto simp: c_str_def dest: set_takeWhileD)

lemma c_str_idem [simp]: "c_str (c_str s) = c_str s"
  by (rule c_str_id) simp

lemma c_str_Nil [simp]: "c_str [] = []"
  by (simp add: c_str_def)

text \<open>\<open>std::to_string\<close> on integers.\<close>

fun nat_string :: "nat \<Rightarrow> string" where
  "nat_string n = (if n < 10 then [char_of (48 + n)] else nat_string (n div 10) @ [char_of (48 + n mod 10)])"

declare nat_string.simps [simp del]

definition int_string :: "int \<Rightarrow> string" where
  "int_string i = (if i < 0 then ''-'' @ nat_string (nat (- i)) else nat_string (nat i))"

subsection \<open>Machine integers\<close>

type_synonym u64 = "64 word"

text \<open>A \<open>uint64_t\<close> bound with \<open>sqlite3_bind_int64\<close> is stored as the signed value of its bits.\<close>

definition bind_u64 :: "u64 \<Rightarrow> int" where
  "bind_u64 w = sint w"

definition column_u64 :: "int \<Rightarrow> u64" where
  "column_u64 i = word_of_int i"

lemma column_bind_u64 [simp]: "column_u64 (bind_u64 w) = w"
  by (simp add: bind_u64_def column_u64_def)

lemma bind_u64_inj: "bind_u64 v = bind_u64 w \<longleftrightarrow> v = w"
  by (metis column_bind_u64)

text \<open>A row id read into an \<open>int\<close> keeps its low 32 bits, as a signed value.\<close>

definition narrow_int :: "int \<Rightarrow> int" where
  "narrow_int i = signed_take_bit 31 i"

lemma narrow_int_id: "- (2 ^ 31) \<le> i \<Longrightarrow> i < 2 ^ 31 \<Longrightarrow> narrow_int i = i"
  unfolding narrow_int_def by (rule signed_take_bit_int_eq_self) simp_all

lemma narrow_int_range: "- (2 ^ 31) \<le> narrow_int i \<and> narrow_int i < 2 ^ 31"
  unfolding narrow_int_def
  using signed_take_bit_int_less_exp [of 31 i] signed_take_bit_int_greater_eq_minus_exp [of 31 i]
  by simp

subsection \<open>Lists used as tables and queues\<close>

lemma find_None_filter: "find P xs = None \<longleftrightarrow> filter P xs = []"
  by (induction xs) auto

lemma find_Some_mem: "find P xs = Some x \<Longrightarrow> x \<in> set xs \<and> P x"
  by (induction xs) (auto split: if_splits)

lemma find_append:
  "find P (xs @ ys) = (case find P xs of None \<Rightarrow> find P ys | Some x \<Rightarrow> Some x)"
  by (induction xs) auto

lemma find_map_same:
  assumes "\<And>x. P (f x) = P x"
  shows "find P (map f xs) = map_option f (find P xs)"
  by (induction xs) (auto simp: assms)

lemma distinct_map_filter: "distinct (map f xs) \<Longrightarrow> distinct (map f (filter P xs))"
  by (induction xs) auto

lemma find_filter_not:
  "find P (filter Q xs) = None" if "\<And>x. P x \<Longrightarrow> \<not> Q x"
  using that by (induction xs) auto

text \<open>A row found by a key that identifies rows is the row that has this key.\<close>

lemma find_unique_key:
  assumes "distinct (map k xs)" and "x \<in> set xs"
  shows "find (\<lambda>y. k y = k x) xs = Some x"
  using assms by (induction xs) auto

end
