(* ===== verification/Paths.thy ===== *)
theory Paths
  imports Prelude
begin

text \<open>
  The part of \<open>std::filesystem::path\<close> (POSIX generic format) that SyncHarbor uses, and
  \<open>normalizePath\<close> of \<open>src/utils.cpp\<close>. A path is a root flag and its element list; an
  empty last element is a trailing separator. Redundant separators are not represented.
\<close>

record path =
  rooted :: bool
  segs :: "string list"

abbreviation empty_path :: path where
  "empty_path \<equiv> \<lparr>rooted = False, segs = []\<rparr>"

definition path_empty :: "path \<Rightarrow> bool" where
  "path_empty p \<longleftrightarrow> \<not> rooted p \<and> segs p = []"

lemma path_empty_iff [simp]: "path_empty p \<longleftrightarrow> p = empty_path"
  by (cases p) (simp add: path_empty_def)

subsection \<open>Text form\<close>

fun join_segs :: "string list \<Rightarrow> string" where
  "join_segs [] = []"
| "join_segs [s] = s"
| "join_segs (s # t # r) = s @ ''/'' @ join_segs (t # r)"

definition path_string :: "path \<Rightarrow> string" where
  "path_string p = (if rooted p then ''/'' else []) @ join_segs (segs p)"

text \<open>Elements of a text between separators, the empty ones included.\<close>

fun split_sep :: "string \<Rightarrow> string list" where
  "split_sep [] = [[]]"
| "split_sep (c # cs) =
     (if c = CHR ''/'' then [] # split_sep cs
      else (case split_sep cs of [] \<Rightarrow> [[c]] | s # r \<Rightarrow> (c # s) # r))"

fun drop_inner_empty :: "string list \<Rightarrow> string list" where
  "drop_inner_empty [] = []"
| "drop_inner_empty [s] = [s]"
| "drop_inner_empty (s # t # r) =
     (if s = [] then drop_inner_empty (t # r) else s # drop_inner_empty (t # r))"

definition path_of_string :: "string \<Rightarrow> path" where
  "path_of_string s =
     (let es = drop_inner_empty (split_sep s); root = starts_with ''/'' s
      in \<lparr>rooted = root, segs = (if es = [[]] then [] else es)\<rparr>)"

text \<open>The element lists that stand for a path: only the last may be empty, no separator inside.\<close>

definition seg_ok :: "string \<Rightarrow> bool" where
  "seg_ok s \<longleftrightarrow> s \<noteq> [] \<and> CHR ''/'' \<notin> set s"

definition plain_path :: "path \<Rightarrow> bool" where
  "plain_path p \<longleftrightarrow> list_all seg_ok (segs p)"

lemma split_sep_nonempty [simp]: "split_sep s \<noteq> []"
  by (induction s) (auto split: list.splits)

lemma split_sep_seg [simp]: "CHR ''/'' \<notin> set s \<Longrightarrow> split_sep s = [s]"
  by (induction s) auto

lemma split_sep_append:
  "CHR ''/'' \<notin> set s \<Longrightarrow> split_sep (s @ CHR ''/'' # t) = s # split_sep t"
  by (induction s) auto

lemma split_sep_join:
  "ss \<noteq> [] \<Longrightarrow> list_all seg_ok ss \<Longrightarrow> split_sep (join_segs ss) = ss"
  by (induction ss rule: join_segs.induct) (auto simp: seg_ok_def split_sep_append)

lemma drop_inner_empty_id: "list_all seg_ok ss \<Longrightarrow> drop_inner_empty ss = ss"
  by (induction ss rule: drop_inner_empty.induct) (auto simp: seg_ok_def)

lemma join_segs_Nil_iff: "list_all seg_ok ss \<Longrightarrow> join_segs ss = [] \<longleftrightarrow> ss = []"
  by (cases ss rule: join_segs.cases) (auto simp: seg_ok_def)

lemma join_segs_no_root: "list_all seg_ok ss \<Longrightarrow> \<not> starts_with ''/'' (join_segs ss)"
  by (cases ss rule: join_segs.cases) (auto simp: seg_ok_def starts_with_iff neq_Nil_conv)

lemma path_string_roundtrip: "plain_path p \<Longrightarrow> path_of_string (path_string p) = p"
proof (cases "segs p = []")
  case True
  then show "plain_path p \<Longrightarrow> ?thesis"
    by (cases p) (auto simp: path_string_def path_of_string_def starts_with_def)
next
  case False
  assume pp: "plain_path p"
  then have ok: "list_all seg_ok (segs p)" by (simp add: plain_path_def)
  have j: "split_sep (join_segs (segs p)) = segs p" using False ok by (rule split_sep_join)
  have ne: "segs p \<noteq> [[]]" using ok by (cases "segs p") (auto simp: seg_ok_def)
  show ?thesis
  proof (cases "rooted p")
    case True
    have "drop_inner_empty ([] # segs p) = segs p"
      using False ok by (cases "segs p") (simp_all add: drop_inner_empty_id)
    then show ?thesis using True j ne
      by (cases p) (simp add: path_string_def path_of_string_def starts_with_def)
  next
    case F: False
    then show ?thesis using j ne ok join_segs_no_root [OF ok]
      by (cases p) (simp add: path_string_def path_of_string_def drop_inner_empty_id)
  qed
qed

lemma path_string_inj:
  "plain_path p \<Longrightarrow> plain_path q \<Longrightarrow> path_string p = path_string q \<longleftrightarrow> p = q"
  by (metis path_string_roundtrip)

subsection \<open>Path operations\<close>

text \<open>\<open>operator/\<close>: an absolute right operand replaces; an empty one adds a separator.\<close>

definition path_div :: "path \<Rightarrow> path \<Rightarrow> path" where
  "path_div p q =
     (if rooted q then q
      else
        (let base = (if segs p \<noteq> [] \<and> last (segs p) = [] then butlast (segs p) else segs p)
         in p\<lparr>segs := (if segs q = [] then (if base = [] then segs p else base @ [[]])
                       else base @ segs q)\<rparr>))"

abbreviation path_div_seg :: "path \<Rightarrow> string \<Rightarrow> path" where
  "path_div_seg p s \<equiv> path_div p (path_of_string s)"

definition parent_path :: "path \<Rightarrow> path" where
  "parent_path p = p\<lparr>segs := butlast (segs p)\<rparr>"

definition filename :: "path \<Rightarrow> string" where
  "filename p = (if segs p = [] then [] else last (segs p))"

text \<open>The suffix from the last dot on; a leading dot, \<open>.\<close> and \<open>..\<close> have no extension.\<close>

fun from_last_dot :: "string \<Rightarrow> string option" where
  "from_last_dot [] = None"
| "from_last_dot (c # cs) =
     (case from_last_dot cs of
        Some e \<Rightarrow> Some e
      | None \<Rightarrow> (if c = CHR ''.'' then Some (c # cs) else None))"

definition extension :: "path \<Rightarrow> string" where
  "extension p =
     (let fn = filename p
      in if fn = ''.'' \<or> fn = ''..'' then []
         else (case fn of [] \<Rightarrow> [] | c # cs \<Rightarrow> (case from_last_dot cs of Some e \<Rightarrow> e | None \<Rightarrow> [])))"

fun strip_common :: "string list \<Rightarrow> string list \<Rightarrow> string list \<times> string list" where
  "strip_common (a # as) (b # bs) = (if a = b then strip_common as bs else (a # as, b # bs))"
| "strip_common as bs = (as, bs)"

definition up_count :: "string list \<Rightarrow> int" where
  "up_count bs =
     int (length (filter (\<lambda>s. s \<noteq> [] \<and> s \<noteq> ''.'' \<and> s \<noteq> ''..'') bs))
     - int (length (filter (\<lambda>s. s = ''..'') bs))"

definition lexically_relative :: "path \<Rightarrow> path \<Rightarrow> path" where
  "lexically_relative p base =
     (if rooted p \<noteq> rooted base then empty_path
      else
        (let (a, b) = strip_common (segs p) (segs base)
         in if a = [] \<and> b = [] then \<lparr>rooted = False, segs = [''.'']\<rparr>
            else (let n = up_count b
                  in if n < 0 then empty_path
                     else if n = 0 \<and> (a = [] \<or> hd a = []) then \<lparr>rooted = False, segs = [''.'']\<rparr>
                     else \<lparr>rooted = False, segs = replicate (nat n) ''..'' @ a\<rparr>)))"

definition is_dot :: "path \<Rightarrow> bool" where
  "is_dot p \<longleftrightarrow> p = \<lparr>rooted = False, segs = [''.'']\<rparr>"

text \<open>\<open>normalizePath\<close>: drop one leading separator.\<close>

definition normalizePath :: "path \<Rightarrow> path" where
  "normalizePath p =
     (let s = path_string p
      in if s = ''/'' then empty_path
         else path_of_string (if s \<noteq> [] \<and> hd s = CHR ''/'' then tl s else s))"

lemma normalizePath_plain:
  assumes "plain_path p"
  shows "normalizePath p = p\<lparr>rooted := False\<rparr>"
proof -
  let ?q = "p\<lparr>rooted := False\<rparr>"
  have ok: "list_all seg_ok (segs p)" using assms by (simp add: plain_path_def)
  have q: "path_of_string (join_segs (segs p)) = ?q"
    using path_string_roundtrip [of ?q] assms by (simp add: plain_path_def path_string_def)
  show ?thesis
  proof (cases "rooted p")
    case True
    then have s: "path_string p = CHR ''/'' # join_segs (segs p)"
      by (simp add: path_string_def)
    show ?thesis
    proof (cases "segs p = []")
      case True
      then show ?thesis using s by (cases p) (simp add: normalizePath_def)
    next
      case False
      then have "join_segs (segs p) \<noteq> []" using join_segs_Nil_iff [OF ok] by simp
      then show ?thesis using s q by (simp add: normalizePath_def)
    qed
  next
    case False
    have "\<not> (join_segs (segs p) \<noteq> [] \<and> hd (join_segs (segs p)) = CHR ''/'')"
      using join_segs_no_root [OF ok] by (cases "join_segs (segs p)") (auto simp: starts_with_def)
    moreover have "join_segs (segs p) \<noteq> ''/''"
      using join_segs_no_root [OF ok] by (auto simp: starts_with_def)
    ultimately show ?thesis using False q
      by (auto simp: normalizePath_def path_string_def Let_def)
  qed
qed

lemma normalizePath_unrooted: "plain_path p \<Longrightarrow> \<not> rooted (normalizePath p)"
  by (simp add: normalizePath_plain)

lemma normalizePath_idem:
  "plain_path p \<Longrightarrow> normalizePath (normalizePath p) = normalizePath p"
proof -
  assume a: "plain_path p"
  then have "plain_path (p\<lparr>rooted := False\<rparr>)" by (simp add: plain_path_def)
  then show ?thesis by (simp add: normalizePath_plain a)
qed

subsection \<open>A base directory and the relative part below it\<close>

lemma strip_common_append [simp]: "strip_common (xs @ ys) xs = (ys, [])"
  by (induction xs) (cases ys; simp)+

lemma seg_ok_last_nonempty: "list_all seg_ok ss \<Longrightarrow> ss \<noteq> [] \<Longrightarrow> last ss \<noteq> []"
  by (induction ss rule: rev_induct) (auto simp: seg_ok_def)

lemma path_div_plain:
  assumes "plain_path p" and "plain_path q" and "\<not> rooted q" and "segs q \<noteq> []"
  shows "path_div p q = p\<lparr>segs := segs p @ segs q\<rparr>"
  using assms seg_ok_last_nonempty [of "segs p"]
  by (auto simp: path_div_def plain_path_def)

text \<open>Making a path below a directory relative to it undoes \<open>operator/\<close>.\<close>

lemma lexically_relative_div:
  assumes "plain_path p" and "plain_path q" and "\<not> rooted q" and "segs q \<noteq> []"
  shows "lexically_relative (path_div p q) p = q"
proof -
  have "hd (segs q) \<noteq> []"
    using assms(2,4) by (cases "segs q") (auto simp: plain_path_def seg_ok_def)
  then show ?thesis using assms(3,4)
    by (simp add: path_div_plain [OF assms] lexically_relative_def up_count_def)
qed

lemma parent_div_filename:
  assumes "plain_path p" and "segs p \<noteq> []"
  shows "path_div (parent_path p) \<lparr>rooted = False, segs = [filename p]\<rparr> = p"
proof -
  have *: "list_all seg_ok (butlast (segs p))" "seg_ok (last (segs p))"
    using assms by (auto simp: plain_path_def list_all_iff dest: in_set_butlastD)
  then have "path_div (parent_path p) \<lparr>rooted = False, segs = [filename p]\<rparr>
      = (parent_path p)\<lparr>segs := butlast (segs p) @ [last (segs p)]\<rparr>"
    using assms(2)
    by (subst path_div_plain) (simp_all add: plain_path_def parent_path_def filename_def)
  then show ?thesis using assms(2) by (simp add: parent_path_def)
qed

end
