(* ===== verification/DTOs.thy ===== *)
theory DTOs
  imports Paths
begin

text \<open>
  The data of \<open>include/utils.h\<close> and the conversions of \<open>src/utils.cpp\<close>: provider, entry
  and change types with their text forms, the four transfer objects with their
  constructors, and file events. Sizes, hashes and file ids are 64-bit words;
  \<open>std::time_t\<close> and \<open>int\<close> values are integers.
\<close>

subsection \<open>Enumerations and their text forms\<close>

datatype cloud_provider_type =
  LocalStorageT | GoogleDriveT | DropboxT | OneDriveT | YandexT | MailRuT | FakeTestT

fun provider_cstr :: "cloud_provider_type \<Rightarrow> string" where
  "provider_cstr LocalStorageT = ''LocalStorage''"
| "provider_cstr GoogleDriveT = ''GoogleDrive''"
| "provider_cstr DropboxT = ''Dropbox''"
| "provider_cstr OneDriveT = ''OneDrive''"
| "provider_cstr YandexT = ''Yandex''"
| "provider_cstr MailRuT = ''MailRu''"
| "provider_cstr FakeTestT = ''FakeTest''"

text \<open>The table look-up with \<open>at\<close>: an unknown name throws.\<close>

definition provider_table :: "(string \<times> cloud_provider_type) list" where
  "provider_table =
     [(''LocalStorage'', LocalStorageT), (''GoogleDrive'', GoogleDriveT), (''Dropbox'', DropboxT),
      (''OneDrive'', OneDriveT), (''Yandex'', YandexT), (''MailRu'', MailRuT),
      (''FakeTest'', FakeTestT)]"

definition cloud_type_from_string :: "string \<Rightarrow> cloud_provider_type res" where
  "cloud_type_from_string s =
     (case map_of provider_table s of None \<Rightarrow> Inl OutOfRange | Some t \<Rightarrow> Inr t)"

lemma provider_roundtrip: "cloud_type_from_string (provider_cstr t) = Inr t"
  by (cases t) (simp_all add: cloud_type_from_string_def provider_table_def)

lemma provider_string_exact:
  "cloud_type_from_string s = Inr t \<Longrightarrow> s = provider_cstr t"
  by (auto simp: cloud_type_from_string_def provider_table_def split: if_splits)

datatype entry_type = File | Directory | Document | NullEntry

fun entry_cstr :: "entry_type \<Rightarrow> string" where
  "entry_cstr File = ''File''"
| "entry_cstr Directory = ''Directory''"
| "entry_cstr Document = ''Document''"
| "entry_cstr NullEntry = ''Null''"

definition entry_table :: "(string \<times> entry_type) list" where
  "entry_table =
     [(''File'', File), (''Directory'', Directory), (''Document'', Document), (''Null'', NullEntry)]"

definition entry_type_from_string :: "string \<Rightarrow> entry_type" where
  "entry_type_from_string s =
     (case map_of entry_table s of Some t \<Rightarrow> t | None \<Rightarrow> NullEntry)"

lemma entry_roundtrip [simp]: "entry_type_from_string (entry_cstr t) = t"
  by (cases t) (simp_all add: entry_type_from_string_def entry_table_def)

lemma entry_cstr_no_nul [simp]: "c_str (entry_cstr t) = entry_cstr t"
  by (cases t) (simp_all add: c_str_def)

lemma entry_unknown:
  assumes "s \<notin> range entry_cstr"
  shows "entry_type_from_string s = NullEntry"
proof -
  have "s \<noteq> entry_cstr t" for t using assms by blast
  from this [of File] this [of Directory] this [of Document] this [of NullEntry]
  show ?thesis by (simp add: entry_type_from_string_def entry_table_def)
qed

datatype change_type = NullChange | New | Update | Move | Rename | Delete

fun change_string :: "change_type \<Rightarrow> string" where
  "change_string New = ''New''"
| "change_string Rename = ''Rename''"
| "change_string Update = ''Update''"
| "change_string Move = ''Move''"
| "change_string Delete = ''Delete''"
| "change_string NullChange = ''Null''"

text \<open>The bit values of the enumerators.\<close>

fun change_code :: "change_type \<Rightarrow> 8 word" where
  "change_code NullChange = 0"
| "change_code New = 1"
| "change_code Update = 2"
| "change_code Move = 4"
| "change_code Rename = 8"
| "change_code Delete = 16"

lemma change_string_inj: "change_string a = change_string b \<longleftrightarrow> a = b"
  by (cases a; cases b) simp_all

lemma change_code_inj: "change_code a = change_code b \<longleftrightarrow> a = b"
  by (cases a; cases b) simp_all

subsection \<open>Transfer objects\<close>

text \<open>\<open>std::variant<std::string, uint64_t>\<close>: the check sum of a cloud or of the local file.\<close>

datatype check_sum = HashStr string | HashNum u64

text \<open>\<open>std::get\<close> on the variant throws when the other alternative is held.\<close>

fun get_hash_str :: "check_sum \<Rightarrow> string res" where
  "get_hash_str (HashStr s) = Inr s"
| "get_hash_str (HashNum _) = Inl (RuntimeError ''bad_variant_access'')"

fun get_hash_num :: "check_sum \<Rightarrow> u64 res" where
  "get_hash_num (HashNum w) = Inr w"
| "get_hash_num (HashStr _) = Inl (RuntimeError ''bad_variant_access'')"

record file_record_dto =
  fr_rel_path :: path
  fr_cloud_parent_id :: string
  fr_cloud_file_id :: string
  fr_hash :: check_sum
  fr_size :: u64
  fr_file_id :: u64
  fr_mtime :: int
  fr_global_id :: int
  fr_cloud_id :: int
  fr_type :: entry_type

record file_updated_dto =
  fu_rel_path :: path
  fu_cloud_file_id :: string
  fu_hash :: check_sum
  fu_cloud_parent_id :: string
  fu_size :: u64
  fu_mtime :: int
  fu_file_id :: u64
  fu_global_id :: int
  fu_cloud_id :: int
  fu_type :: entry_type

record file_moved_dto =
  fm_old_rel_path :: path
  fm_new_rel_path :: path
  fm_cloud_file_id :: string
  fm_old_cloud_parent_id :: string
  fm_new_cloud_parent_id :: string
  fm_mtime :: int
  fm_global_id :: int
  fm_cloud_id :: int
  fm_type :: entry_type

record file_deleted_dto =
  fd_rel_path :: path
  fd_cloud_file_id :: string
  fd_when :: int
  fd_global_id :: int
  fd_cloud_id :: int

subsubsection \<open>Constructors of \<open>FileRecordDTO\<close>\<close>

definition record_local_new :: "entry_type \<Rightarrow> path \<Rightarrow> u64 \<Rightarrow> int \<Rightarrow> u64 \<Rightarrow> u64 \<Rightarrow> file_record_dto" where
  "record_local_new t rp s cfmt hash fid =
     \<lparr>fr_rel_path = rp, fr_cloud_parent_id = [], fr_cloud_file_id = [], fr_hash = HashNum hash,
      fr_size = s, fr_file_id = fid, fr_mtime = cfmt, fr_global_id = 0, fr_cloud_id = 0,
      fr_type = t\<rparr>"

text \<open>
  The constructor for link rows initialises neither \<open>rel_path\<close> (a default path) nor
  \<open>type\<close>, which is an indeterminate value.
\<close>

definition record_link_info ::
  "int \<Rightarrow> int \<Rightarrow> string \<Rightarrow> string \<Rightarrow> u64 \<Rightarrow> string \<Rightarrow> int \<Rightarrow> file_record_dto" where
  "record_link_info g_id c_id parent cf_id s hash cfmt =
     \<lparr>fr_rel_path = empty_path, fr_cloud_parent_id = parent, fr_cloud_file_id = cf_id,
      fr_hash = HashStr hash, fr_size = s, fr_file_id = 0, fr_mtime = cfmt,
      fr_global_id = g_id, fr_cloud_id = c_id, fr_type = undefined\<rparr>"

definition record_local_info ::
  "int \<Rightarrow> entry_type \<Rightarrow> path \<Rightarrow> u64 \<Rightarrow> u64 \<Rightarrow> int \<Rightarrow> u64 \<Rightarrow> file_record_dto" where
  "record_local_info g_id t rp s hash cfmt fid =
     \<lparr>fr_rel_path = rp, fr_cloud_parent_id = [], fr_cloud_file_id = [], fr_hash = HashNum hash,
      fr_size = s, fr_file_id = fid, fr_mtime = cfmt, fr_global_id = g_id, fr_cloud_id = 0,
      fr_type = t\<rparr>"

definition record_cloud_new ::
  "entry_type \<Rightarrow> path \<Rightarrow> string \<Rightarrow> u64 \<Rightarrow> int \<Rightarrow> string \<Rightarrow> int \<Rightarrow> file_record_dto" where
  "record_cloud_new t rp cf_id s cfmt hash cid =
     \<lparr>fr_rel_path = rp, fr_cloud_parent_id = [], fr_cloud_file_id = cf_id, fr_hash = HashStr hash,
      fr_size = s, fr_file_id = 0, fr_mtime = cfmt, fr_global_id = 0, fr_cloud_id = cid,
      fr_type = t\<rparr>"

definition record_google_new ::
  "entry_type \<Rightarrow> string \<Rightarrow> path \<Rightarrow> string \<Rightarrow> u64 \<Rightarrow> int \<Rightarrow> string \<Rightarrow> int \<Rightarrow> file_record_dto" where
  "record_google_new t parent rp cf_id s cfmt hash cid =
     \<lparr>fr_rel_path = rp, fr_cloud_parent_id = parent, fr_cloud_file_id = cf_id,
      fr_hash = HashStr hash, fr_size = s, fr_file_id = 0, fr_mtime = cfmt, fr_global_id = 0,
      fr_cloud_id = cid, fr_type = t\<rparr>"

subsubsection \<open>Constructors of the update, move and delete objects\<close>

definition updated_local ::
  "entry_type \<Rightarrow> int \<Rightarrow> u64 \<Rightarrow> int \<Rightarrow> path \<Rightarrow> u64 \<Rightarrow> u64 \<Rightarrow> file_updated_dto" where
  "updated_local t gid chcs cfmt rp s fid =
     \<lparr>fu_rel_path = rp, fu_cloud_file_id = [], fu_hash = HashNum chcs, fu_cloud_parent_id = [],
      fu_size = s, fu_mtime = cfmt, fu_file_id = fid, fu_global_id = gid, fu_cloud_id = 0,
      fu_type = t\<rparr>"

definition updated_cloud ::
  "entry_type \<Rightarrow> int \<Rightarrow> int \<Rightarrow> string \<Rightarrow> string \<Rightarrow> int \<Rightarrow> path \<Rightarrow> string \<Rightarrow> u64 \<Rightarrow> file_updated_dto" where
  "updated_cloud t gid cid cfid chcs cfmt rp cpid s =
     \<lparr>fu_rel_path = rp, fu_cloud_file_id = cfid, fu_hash = HashStr chcs, fu_cloud_parent_id = cpid,
      fu_size = s, fu_mtime = cfmt, fu_file_id = 0, fu_global_id = gid, fu_cloud_id = cid,
      fu_type = t\<rparr>"

definition moved_local :: "entry_type \<Rightarrow> int \<Rightarrow> int \<Rightarrow> path \<Rightarrow> path \<Rightarrow> file_moved_dto" where
  "moved_local t gid cfmt orp nrp =
     \<lparr>fm_old_rel_path = orp, fm_new_rel_path = nrp, fm_cloud_file_id = [],
      fm_old_cloud_parent_id = [], fm_new_cloud_parent_id = [], fm_mtime = cfmt,
      fm_global_id = gid, fm_cloud_id = 0, fm_type = t\<rparr>"

definition moved_cloud ::
  "entry_type \<Rightarrow> int \<Rightarrow> int \<Rightarrow> string \<Rightarrow> int \<Rightarrow> path \<Rightarrow> path \<Rightarrow> string \<Rightarrow> string \<Rightarrow> file_moved_dto" where
  "moved_cloud t gid cid cfid cfmt orp nrp old_cpid new_cpid =
     \<lparr>fm_old_rel_path = orp, fm_new_rel_path = nrp, fm_cloud_file_id = cfid,
      fm_old_cloud_parent_id = old_cpid, fm_new_cloud_parent_id = new_cpid, fm_mtime = cfmt,
      fm_global_id = gid, fm_cloud_id = cid, fm_type = t\<rparr>"

definition deleted_local :: "path \<Rightarrow> int \<Rightarrow> int \<Rightarrow> file_deleted_dto" where
  "deleted_local rp gid t =
     \<lparr>fd_rel_path = rp, fd_cloud_file_id = [], fd_when = t, fd_global_id = gid, fd_cloud_id = 0\<rparr>"

definition deleted_cloud :: "path \<Rightarrow> int \<Rightarrow> int \<Rightarrow> string \<Rightarrow> int \<Rightarrow> file_deleted_dto" where
  "deleted_cloud rp gid cid cfid t =
     \<lparr>fd_rel_path = rp, fd_cloud_file_id = cfid, fd_when = t, fd_global_id = gid,
      fd_cloud_id = cid\<rparr>"

lemmas dto_constructors [sh_simps] =
  record_local_new_def record_link_info_def record_local_info_def record_cloud_new_def
  record_google_new_def updated_local_def updated_cloud_def moved_local_def moved_cloud_def
  deleted_local_def deleted_cloud_def

subsection \<open>File events\<close>

text \<open>
  An event; a rename carries the event of the new name, which has no associated event itself.
\<close>

record event_core =
  ev_path :: path
  ev_file_id :: u64
  ev_when :: int
  ev_type :: change_type

record file_event = event_core +
  ev_associated :: "event_core option"

definition core_event :: "path \<Rightarrow> int \<Rightarrow> change_type \<Rightarrow> event_core" where
  "core_event p tm tp = \<lparr>ev_path = p, ev_file_id = 0, ev_when = tm, ev_type = tp\<rparr>"

definition file_event_assoc :: "path \<Rightarrow> int \<Rightarrow> change_type \<Rightarrow> event_core option \<Rightarrow> file_event" where
  "file_event_assoc p tm tp ass =
     \<lparr>ev_path = p, ev_file_id = 0, ev_when = tm, ev_type = tp, ev_associated = ass\<rparr>"

definition file_event_plain :: "path \<Rightarrow> int \<Rightarrow> change_type \<Rightarrow> file_event" where
  "file_event_plain p tm tp =
     \<lparr>ev_path = p, ev_file_id = 0, ev_when = tm, ev_type = tp, ev_associated = None\<rparr>"

text \<open>The object behind \<open>associated\<close>, used as an event of its own.\<close>

definition of_core :: "event_core \<Rightarrow> file_event" where
  "of_core c = event_core.extend c \<lparr>ev_associated = None\<rparr>"

lemma of_core_fields [simp]:
  "ev_path (of_core c) = ev_path c" "ev_when (of_core c) = ev_when c"
  "ev_file_id (of_core c) = ev_file_id c" "ev_type (of_core c) = ev_type c"
  "ev_associated (of_core c) = None"
  by (simp_all add: of_core_def event_core.defs)

end
