(* ===== verification/FileSystem.thy ===== *)
theory FileSystem
  imports DTOs
begin

text \<open>
  The part of \<open>std::filesystem\<close> and \<open>stat\<close> that SyncHarbor calls, on a tree of directories
  and regular files without symbolic links: a list of absolute element lists with their
  nodes. The list order is the order in which a directory iterator meets the entries. A
  relative path is resolved against the working directory. Then \<open>convertSystemTime\<close> of
  \<open>src/utils.cpp\<close> and \<open>getFileId\<close>, \<open>computeFileHash\<close>, \<open>isDoc\<close>, \<open>ignoreTmp\<close>,
  \<open>thatFileTmpExists\<close>, \<open>fromWatcherTime\<close> of \<open>src/LocalStorage.cpp\<close>. The hash function
  XXH64 is a parameter.
\<close>

unbundle bit_operations_syntax

subsection \<open>The tree\<close>

record node =
  n_dir :: bool
  n_data :: string
  n_mtime :: int
  n_ino :: u64

record fs =
  fs_nodes :: "(string list \<times> node) list"
  fs_cwd :: "string list"
  fs_dev :: u64
  fs_next_ino :: u64
  fs_clock :: int

definition fs_key :: "fs \<Rightarrow> path \<Rightarrow> string list" where
  "fs_key f p =
     (let ss = filter (\<lambda>s. s \<noteq> [] \<and> s \<noteq> ''.'') (segs p)
      in if rooted p then ss else fs_cwd f @ ss)"

definition fs_node :: "fs \<Rightarrow> path \<Rightarrow> node option" where
  "fs_node f p = map_of (fs_nodes f) (fs_key f p)"

definition fs_exists :: "fs \<Rightarrow> path \<Rightarrow> bool" where
  "fs_exists f p \<longleftrightarrow> fs_node f p \<noteq> None"

definition fs_is_directory :: "fs \<Rightarrow> path \<Rightarrow> bool" where
  "fs_is_directory f p = (case fs_node f p of Some n \<Rightarrow> n_dir n | None \<Rightarrow> False)"

definition fs_is_regular_file :: "fs \<Rightarrow> path \<Rightarrow> bool" where
  "fs_is_regular_file f p = (case fs_node f p of Some n \<Rightarrow> \<not> n_dir n | None \<Rightarrow> False)"

text \<open>\<open>file_size\<close> throws for a missing path and for a directory.\<close>

definition fs_file_size :: "fs \<Rightarrow> path \<Rightarrow> u64 res" where
  "fs_file_size f p =
     (case fs_node f p of
        Some n \<Rightarrow> (if n_dir n then Inl (FilesystemError ''cannot get file size'')
                   else Inr (of_nat (length (n_data n))))
      | None \<Rightarrow> Inl (FilesystemError ''cannot get file size''))"

definition below :: "string list \<Rightarrow> string list \<Rightarrow> bool" where
  "below d k \<longleftrightarrow> length d < length k \<and> take (length d) k = d"

definition fs_is_empty_dir :: "fs \<Rightarrow> string list \<Rightarrow> bool" where
  "fs_is_empty_dir f k \<longleftrightarrow> filter (\<lambda>e. below k (fst e)) (fs_nodes f) = []"

text \<open>\<open>remove\<close>: false for a missing path, an error for a directory that is not empty.\<close>

definition fs_remove :: "path \<Rightarrow> fs \<Rightarrow> bool res \<times> fs" where
  "fs_remove p f =
     (let k = fs_key f p
      in case map_of (fs_nodes f) k of
           None \<Rightarrow> (Inr False, f)
         | Some n \<Rightarrow>
             (if n_dir n \<and> \<not> fs_is_empty_dir f k then (Inl (FilesystemError ''cannot remove''), f)
              else (Inr True, f\<lparr>fs_nodes := filter (\<lambda>e. fst e \<noteq> k) (fs_nodes f)\<rparr>)))"

text \<open>A directory is made below an existing directory; false when it is there already.\<close>

definition fs_create_directory :: "path \<Rightarrow> fs \<Rightarrow> bool res \<times> fs" where
  "fs_create_directory p f =
     (let k = fs_key f p
      in case map_of (fs_nodes f) k of
           Some n \<Rightarrow> ((if n_dir n then Inr False else Inl (FilesystemError ''cannot create directory'')), f)
         | None \<Rightarrow>
             (case map_of (fs_nodes f) (butlast k) of
                Some d \<Rightarrow>
                  (if n_dir d
                   then (Inr True, f\<lparr>fs_nodes := fs_nodes f @
                           [(k, \<lparr>n_dir = True, n_data = [], n_mtime = fs_clock f, n_ino = fs_next_ino f\<rparr>)],
                          fs_next_ino := fs_next_ino f + 1\<rparr>)
                   else (Inl (FilesystemError ''cannot create directory''), f))
              | None \<Rightarrow> (Inl (FilesystemError ''cannot create directory''), f)))"

definition rekey :: "string list \<Rightarrow> string list \<Rightarrow> string list \<Rightarrow> string list" where
  "rekey a b k = (if k = a \<or> below a k then b @ drop (length a) k else k)"

text \<open>
  \<open>rename\<close> moves a file over a file or a missing path, a directory with all below it over
  an empty directory or a missing path.
\<close>

definition fs_rename :: "path \<Rightarrow> path \<Rightarrow> fs \<Rightarrow> unit res \<times> fs" where
  "fs_rename p q f =
     (let a = fs_key f p; b = fs_key f q; err = (Inl (FilesystemError ''cannot rename''), f)
      in case map_of (fs_nodes f) a of
           None \<Rightarrow> err
         | Some n \<Rightarrow>
             (if a = b then (Inr (), f)
              else if below a b then err
              else (case map_of (fs_nodes f) (butlast b) of
                      None \<Rightarrow> err
                    | Some d \<Rightarrow>
                        (if \<not> n_dir d then err
                         else (case map_of (fs_nodes f) b of
                                 Some t \<Rightarrow>
                                   (if n_dir t = n_dir n \<and> (n_dir t \<longrightarrow> fs_is_empty_dir f b)
                                    then (Inr (), f\<lparr>fs_nodes := map (\<lambda>e. (rekey a b (fst e), snd e))
                                            (filter (\<lambda>e. fst e \<noteq> b) (fs_nodes f))\<rparr>)
                                    else err)
                               | None \<Rightarrow> (Inr (), f\<lparr>fs_nodes := map (\<lambda>e. (rekey a b (fst e), snd e))
                                            (fs_nodes f)\<rparr>))))))"

text \<open>\<open>recursive_directory_iterator\<close>: the absolute paths of all entries below.\<close>

definition fs_recursive :: "fs \<Rightarrow> path \<Rightarrow> path list res" where
  "fs_recursive f p =
     (if fs_is_directory f p
      then Inr (map (\<lambda>e. \<lparr>rooted = True, segs = fst e\<rparr>)
                  (filter (\<lambda>e. below (fs_key f p) (fst e)) (fs_nodes f)))
      else Inl (FilesystemError ''recursive directory iterator cannot open directory''))"

text \<open>The bytes a file stream opened for reading delivers; \<open>None\<close> when it does not open.\<close>

definition fs_read :: "fs \<Rightarrow> path \<Rightarrow> string option" where
  "fs_read f p = map_option (\<lambda>n. if n_dir n then [] else n_data n) (fs_node f p)"

text \<open>
  A file stream opened for writing: an existing file is truncated, a missing one is made in an
  existing directory; \<open>None\<close> when it does not open.
\<close>

definition fs_open_out :: "path \<Rightarrow> fs \<Rightarrow> string option \<times> fs" where
  "fs_open_out p f =
     (let k = fs_key f p
      in case map_of (fs_nodes f) k of
           Some n \<Rightarrow>
             (if n_dir n then (None, f)
              else (Some (n_data n), f\<lparr>fs_nodes := map (\<lambda>e. if fst e = k
                       then (k, (snd e)\<lparr>n_data := [], n_mtime := fs_clock f\<rparr>) else e) (fs_nodes f)\<rparr>))
         | None \<Rightarrow>
             (case map_of (fs_nodes f) (butlast k) of
                None \<Rightarrow> (None, f)
              | Some d \<Rightarrow>
                  (if \<not> n_dir d then (None, f)
                   else (Some [], f\<lparr>fs_nodes := fs_nodes f @
                           [(k, \<lparr>n_dir = False, n_data = [], n_mtime = fs_clock f, n_ino = fs_next_ino f\<rparr>)],
                          fs_next_ino := fs_next_ino f + 1\<rparr>))))"

text \<open>
  \<open>weakly_canonical\<close> and \<open>relative\<close> in a tree without symbolic links: a relative path is made
  absolute when its first element exists, then the path is normalised lexically.
\<close>

fun cancel_dots :: "bool \<Rightarrow> string list \<Rightarrow> string list \<Rightarrow> string list" where
  "cancel_dots root acc [] = rev acc"
| "cancel_dots root acc (s # r) =
     (if s = [] \<or> s = ''.'' then cancel_dots root acc r
      else if s = ''..'' then
        (case acc of
           [] \<Rightarrow> cancel_dots root (if root then [] else [s]) r
         | a # acc1 \<Rightarrow> (if a = ''..'' then cancel_dots root (s # acc) r else cancel_dots root acc1 r))
      else cancel_dots root (s # acc) r)"

definition lexically_normal :: "path \<Rightarrow> path" where
  "lexically_normal p =
     (let ss = cancel_dots (rooted p) [] (segs p)
      in if path_empty p then p
         else if \<not> rooted p \<and> ss = [] then p\<lparr>segs := [''.'']\<rparr>
         else if ss \<noteq> [] \<and> last (segs p) \<in> {[], ''.'', ''..''} \<and> last ss \<noteq> ''..'' then p\<lparr>segs := ss @ [[]]\<rparr>
         else p\<lparr>segs := ss\<rparr>)"

definition weakly_canonical :: "fs \<Rightarrow> path \<Rightarrow> path" where
  "weakly_canonical f p =
     lexically_normal
       (if rooted p \<or> segs p = [] \<or> \<not> fs_exists f \<lparr>rooted = False, segs = [hd (segs p)]\<rparr> then p
        else \<lparr>rooted = True, segs = fs_cwd f @ segs p\<rparr>)"

definition fs_relative :: "fs \<Rightarrow> path \<Rightarrow> path \<Rightarrow> path" where
  "fs_relative f p base = lexically_relative (weakly_canonical f p) (weakly_canonical f base)"

subsection \<open>Times, ids and hashes\<close>

text \<open>\<open>to_time_t\<close> drops the fraction of a second, towards zero.\<close>

definition seconds_of_ns :: "int \<Rightarrow> int" where
  "seconds_of_ns t = (if t < 0 then - ((- t) div 1000000000) else t div 1000000000)"

definition fromWatcherTime :: "int \<Rightarrow> int" where
  "fromWatcherTime effect_ns = seconds_of_ns effect_ns"

definition convertSystemTime :: "fs \<Rightarrow> path \<Rightarrow> int res" where
  "convertSystemTime f p =
     (case fs_node f p of
        None \<Rightarrow> Inl (FilesystemError ''cannot get file time'')
      | Some n \<Rightarrow> Inr (seconds_of_ns (n_mtime n)))"

definition getFileId :: "fs \<Rightarrow> path \<Rightarrow> u64" where
  "getFileId f p =
     (case fs_node f p of
        None \<Rightarrow> 0
      | Some n \<Rightarrow> (push_bit 32 (fs_dev f)) OR n_ino n)"

definition computeFileHash :: "(string \<Rightarrow> u64) \<Rightarrow> fs \<Rightarrow> path \<Rightarrow> u64" where
  "computeFileHash xxh64 f p = (case fs_read f p of None \<Rightarrow> 0 | Some s \<Rightarrow> xxh64 s)"

subsection \<open>Names\<close>

definition doc_exts :: "string list" where
  "doc_exts =
     [''.doc'', ''.docx'', ''.odt'', ''.rtf'', ''.xls'', ''.xlsx'', ''.ods'', ''.csv'', ''.tsv'',
      ''.ppt'', ''.pptx'', ''.odp'', ''.gdoc'', ''.gsheet'', ''.gslide'', ''.gdraw'', ''.gform'',
      ''.gsite'', ''.jam'', ''.paper'', ''.url'']"

definition isDoc :: "path \<Rightarrow> bool" where
  "isDoc p \<longleftrightarrow> extension p \<in> set doc_exts"

definition tmp_prefix :: string where
  "tmp_prefix = ''.-tmp-SyncHarbor-''"

definition tmp_prefixes :: "string list" where
  "tmp_prefixes = [tmp_prefix, ''.goutputstream-'', ''.kate-swp'', ''.#'', ''.~lock.'']"

definition tmp_suffixes :: "string list" where
  "tmp_suffixes = [''.swp'', ''.swo'', ''.swx'', ''.tmp'', ''.temp'', ''.bak'', ''.orig'', ''~'']"

definition ignoreTmp :: "path \<Rightarrow> bool" where
  "ignoreTmp p \<longleftrightarrow>
     list_ex (\<lambda>pre. starts_with pre (filename p)) tmp_prefixes \<or>
     list_ex (\<lambda>suf. ends_with suf (filename p)) tmp_suffixes"

text \<open>The array of prefixes has six places for five prefixes: the sixth is the empty text.\<close>

definition thatFileTmpExists :: "fs \<Rightarrow> path \<Rightarrow> bool" where
  "thatFileTmpExists f p \<longleftrightarrow>
     list_ex (\<lambda>pre. fs_exists f (path_div_seg (parent_path p) (pre @ filename p))) (tmp_prefixes @ [[]]) \<or>
     list_ex (\<lambda>suf. fs_exists f (path_div_seg (parent_path p) (filename p @ suf))) tmp_suffixes"

text \<open>The name under which a download is stored until it is complete.\<close>

definition tmp_name :: "path \<Rightarrow> path" where
  "tmp_name p = path_div_seg (parent_path p) (tmp_prefix @ filename p)"

lemma tmp_name_ignored:
  assumes "plain_path p" and "CHR ''/'' \<notin> set (filename p)"
  shows "ignoreTmp (tmp_name p)"
proof -
  let ?n = "tmp_prefix @ filename p"
  have n: "seg_ok ?n" using assms(2) by (auto simp: seg_ok_def tmp_prefix_def)
  then have s: "path_of_string ?n = \<lparr>rooted = False, segs = [?n]\<rparr>"
    using path_string_roundtrip [of "\<lparr>rooted = False, segs = [?n]\<rparr>"]
    by (simp add: plain_path_def path_string_def)
  have "plain_path (parent_path p)"
    using assms(1) by (auto simp: plain_path_def parent_path_def list_all_iff dest: in_set_butlastD)
  then have "tmp_name p = (parent_path p)\<lparr>segs := segs (parent_path p) @ [?n]\<rparr>"
    using n by (simp add: tmp_name_def s path_div_plain plain_path_def)
  then have "filename (tmp_name p) = ?n" by (simp add: filename_def)
  then show ?thesis by (simp add: ignoreTmp_def tmp_prefixes_def)
qed

subsection \<open>Facts on the tree\<close>

lemma below_irrefl [simp]: "\<not> below k k"
  by (simp add: below_def)

lemma map_of_filter_key: "map_of (filter (\<lambda>e. fst e \<noteq> k) xs) j = (if j = k then None else map_of xs j)"
  by (induction xs) auto

lemma fs_node_alt: "fs_node f p = map_of (fs_nodes f) (fs_key f p)"
  by (simp add: fs_node_def)

lemma fs_key_update [simp]: "fs_key (f\<lparr>fs_nodes := ns\<rparr>) p = fs_key f p"
  by (simp add: fs_key_def Let_def)

lemma fs_remove_file:
  assumes "fs_is_regular_file f p"
  shows "fs_remove p f = (Inr True, f\<lparr>fs_nodes := filter (\<lambda>e. fst e \<noteq> fs_key f p) (fs_nodes f)\<rparr>)"
  using assms
  by (auto simp: fs_remove_def fs_is_regular_file_def fs_node_def Let_def split: option.splits)

lemma fs_removed_gone: "\<not> fs_exists (f\<lparr>fs_nodes := filter (\<lambda>e. fst e \<noteq> fs_key f p) (fs_nodes f)\<rparr>) p"
  by (simp add: fs_exists_def fs_node_def map_of_filter_key)

end
