(* ===== verification/Sqlite.thy ===== *)
theory Sqlite
  imports DTOs
begin

text \<open>
  The store below \<open>src/database.cpp\<close>: the tables of \<open>create_tables\<close>, the SQL statements of
  the source as functions on them, and a connection with its transaction and its prepared
  statements. Whether a call into SQLite succeeds is not known to the program: the return
  codes are an argument (\<open>sqlite_rc\<close>) of every operation, so that each error branch of the
  source is a branch of the model. Rows are kept in row-id order, which is the order in
  which SQLite visits rows with equal index keys.
\<close>

subsection \<open>Tables\<close>

record file_row =
  f_global_id :: int
  f_type :: string
  f_path :: string
  f_size :: int
  f_local_hash :: int
  f_mtime :: int
  f_file_id :: int

record link_row =
  l_global_id :: int
  l_cloud_id :: int
  l_cloud_file_id :: string
  l_parent_id :: string
  l_mtime :: int
  l_hash :: string
  l_size :: int

record cloud_row =
  c_config_id :: int
  c_name :: string
  c_type :: string
  c_data :: string

text \<open>\<open>t_seq_files\<close> and \<open>t_seq_clouds\<close> are the AUTOINCREMENT counters.\<close>

record tables =
  t_metadata :: "(string \<times> string) list"
  t_clouds :: "cloud_row list"
  t_files :: "file_row list"
  t_links :: "link_row list"
  t_seq_files :: int
  t_seq_clouds :: int

definition create_tables :: tables where
  "create_tables =
     \<lparr>t_metadata = [], t_clouds = [], t_files = [], t_links = [], t_seq_files = 0,
      t_seq_clouds = 0\<rparr>"

text \<open>The constraints the schema declares: keys, uniqueness, references, over the key columns.\<close>

definition meta_keys :: "tables \<Rightarrow> string list" where
  "meta_keys t = map fst (t_metadata t)"

definition cloud_ids :: "tables \<Rightarrow> int list" where
  "cloud_ids t = map c_config_id (t_clouds t)"

definition cloud_names :: "tables \<Rightarrow> string list" where
  "cloud_names t = map c_name (t_clouds t)"

definition file_ids :: "tables \<Rightarrow> int list" where
  "file_ids t = map f_global_id (t_files t)"

definition link_key :: "link_row \<Rightarrow> int \<times> int" where
  "link_key l = (l_global_id l, l_cloud_id l)"

definition link_keys :: "tables \<Rightarrow> (int \<times> int) list" where
  "link_keys t = map link_key (t_links t)"

lemmas key_defs = meta_keys_def cloud_ids_def cloud_names_def file_ids_def link_keys_def

definition tables_ok :: "tables \<Rightarrow> bool" where
  "tables_ok t \<longleftrightarrow>
     distinct (meta_keys t) \<and> distinct (cloud_ids t) \<and> distinct (cloud_names t) \<and>
     distinct (file_ids t) \<and> distinct (link_keys t) \<and>
     (\<forall>i \<in> set (file_ids t). 0 < i \<and> i \<le> t_seq_files t) \<and>
     (\<forall>i \<in> set (cloud_ids t). 0 < i \<and> i \<le> t_seq_clouds t) \<and>
     (\<forall>k \<in> set (link_keys t). fst k \<in> set (file_ids t) \<and> snd k \<in> set (cloud_ids t)) \<and>
     0 \<le> t_seq_files t \<and> 0 \<le> t_seq_clouds t"

subsection \<open>Statements\<close>

definition meta_replace :: "string \<Rightarrow> string \<Rightarrow> tables \<Rightarrow> tables" where
  "meta_replace k v t =
     t\<lparr>t_metadata := filter (\<lambda>r. fst r \<noteq> k) (t_metadata t) @ [(k, v)]\<rparr>"

definition insert_cloud :: "string \<Rightarrow> string \<Rightarrow> string \<Rightarrow> tables \<Rightarrow> (tables \<times> int) option" where
  "insert_cloud name ty data t =
     (if name \<in> set (cloud_names t) then None
      else (let i = t_seq_clouds t + 1
            in Some (t\<lparr>t_clouds := t_clouds t @ [\<lparr>c_config_id = i, c_name = name, c_type = ty,
                                                    c_data = data\<rparr>],
                       t_seq_clouds := i\<rparr>, i)))"

definition set_cloud_data :: "int \<Rightarrow> string \<Rightarrow> tables \<Rightarrow> tables" where
  "set_cloud_data i data t =
     t\<lparr>t_clouds := map (\<lambda>c. if c_config_id c = i then c\<lparr>c_data := data\<rparr> else c) (t_clouds t)\<rparr>"

text \<open>No column of \<open>files\<close> but the row id is unique, so \<open>INSERT OR IGNORE\<close> always inserts.\<close>

definition insert_file ::
  "string \<Rightarrow> string \<Rightarrow> int \<Rightarrow> int \<Rightarrow> int \<Rightarrow> int \<Rightarrow> tables \<Rightarrow> tables \<times> int" where
  "insert_file ty p sz h mt fid t =
     (let i = t_seq_files t + 1
      in (t\<lparr>t_files := t_files t @ [\<lparr>f_global_id = i, f_type = ty, f_path = p, f_size = sz,
                                      f_local_hash = h, f_mtime = mt, f_file_id = fid\<rparr>],
            t_seq_files := i\<rparr>, i))"

definition update_files :: "int \<Rightarrow> (file_row \<Rightarrow> file_row) \<Rightarrow> tables \<Rightarrow> tables" where
  "update_files gid g t =
     t\<lparr>t_files := map (\<lambda>f. if f_global_id f = gid then g f else f) (t_files t)\<rparr>"

text \<open>
  \<open>INSERT OR IGNORE\<close> into \<open>file_links\<close>: a second row for the same key is skipped, a missing
  parent row is an error (\<open>OR IGNORE\<close> does not cover foreign keys).
\<close>

definition insert_link :: "link_row \<Rightarrow> tables \<Rightarrow> tables option" where
  "insert_link l t =
     (if link_key l \<in> set (link_keys t) then Some t
      else if l_global_id l \<in> set (file_ids t) \<and> l_cloud_id l \<in> set (cloud_ids t)
      then Some (t\<lparr>t_links := t_links t @ [l]\<rparr>)
      else None)"

definition update_links :: "int \<Rightarrow> int \<Rightarrow> (link_row \<Rightarrow> link_row) \<Rightarrow> tables \<Rightarrow> tables" where
  "update_links cid gid g t =
     t\<lparr>t_links := map (\<lambda>l. if l_cloud_id l = cid \<and> l_global_id l = gid then g l else l) (t_links t)\<rparr>"

text \<open>\<open>DELETE FROM files\<close> with \<open>ON DELETE CASCADE\<close>.\<close>

definition delete_file :: "int \<Rightarrow> tables \<Rightarrow> tables" where
  "delete_file gid t =
     t\<lparr>t_files := filter (\<lambda>f. f_global_id f \<noteq> gid) (t_files t),
       t_links := filter (\<lambda>l. l_global_id l \<noteq> gid) (t_links t)\<rparr>"

subsection \<open>Statements and keys\<close>

text \<open>An update that keeps the key column keeps the list of keys.\<close>

lemma map_key_unchanged:
  "(\<And>x. k (g x) = k x) \<Longrightarrow> map k (map (\<lambda>x. if P x then g x else x) xs) = map k xs"
  by (induction xs) simp_all

lemma create_tables_ok: "tables_ok create_tables"
  by (simp add: tables_ok_def create_tables_def key_defs)

lemma meta_replace_ok [keeps]: "tables_ok t \<Longrightarrow> tables_ok (meta_replace k v t)"
  by (auto simp: tables_ok_def meta_replace_def key_defs distinct_map_filter)

lemma insert_cloud_ok [keeps]:
  assumes "tables_ok t" and "insert_cloud n ty da t = Some (t', i)"
  shows "tables_ok t'"
proof -
  have k: "cloud_ids t' = cloud_ids t @ [t_seq_clouds t + 1]" "cloud_names t' = cloud_names t @ [n]"
    "meta_keys t' = meta_keys t" "file_ids t' = file_ids t" "link_keys t' = link_keys t"
    "t_seq_files t' = t_seq_files t" "t_seq_clouds t' = t_seq_clouds t + 1" "n \<notin> set (cloud_names t)"
    using assms(2) by (auto simp: insert_cloud_def key_defs Let_def split: if_splits)
  have "t_seq_clouds t + 1 \<notin> set (cloud_ids t)" using assms(1) by (force simp: tables_ok_def)
  then show ?thesis using assms(1) by (force simp: tables_ok_def k)
qed

lemma set_cloud_data_keys [simp]:
  "cloud_ids (set_cloud_data i da t) = cloud_ids t" "cloud_names (set_cloud_data i da t) = cloud_names t"
  "meta_keys (set_cloud_data i da t) = meta_keys t" "file_ids (set_cloud_data i da t) = file_ids t"
  "link_keys (set_cloud_data i da t) = link_keys t"
  by (simp_all add: key_defs set_cloud_data_def map_key_unchanged del: map_map)

lemma set_cloud_data_ok [keeps]: "tables_ok t \<Longrightarrow> tables_ok (set_cloud_data i da t)"
  by (simp add: tables_ok_def) (simp add: set_cloud_data_def)

lemma insert_file_ok [keeps]:
  assumes "tables_ok t"
  shows "tables_ok (fst (insert_file ty p sz h mt fid t))"
proof -
  let ?t = "fst (insert_file ty p sz h mt fid t)"
  have k: "file_ids ?t = file_ids t @ [t_seq_files t + 1]" "cloud_ids ?t = cloud_ids t"
    "cloud_names ?t = cloud_names t" "meta_keys ?t = meta_keys t" "link_keys ?t = link_keys t"
    "t_seq_files ?t = t_seq_files t + 1" "t_seq_clouds ?t = t_seq_clouds t"
    by (simp_all add: insert_file_def key_defs Let_def)
  have "t_seq_files t + 1 \<notin> set (file_ids t)" using assms by (force simp: tables_ok_def)
  then show ?thesis using assms by (force simp: tables_ok_def k)
qed

lemma update_files_keys:
  assumes "\<And>f. f_global_id (g f) = f_global_id f"
  shows "file_ids (update_files i g t) = file_ids t"
  by (simp add: key_defs update_files_def map_key_unchanged assms del: map_map)

lemma update_files_ok [keeps]:
  assumes "\<And>f. f_global_id (g f) = f_global_id f" and "tables_ok t"
  shows "tables_ok (update_files i g t)"
  using assms(2)
  by (simp add: tables_ok_def update_files_keys assms(1))
     (simp add: update_files_def key_defs)

lemma insert_link_ok [keeps]: "tables_ok t \<Longrightarrow> insert_link l t = Some t' \<Longrightarrow> tables_ok t'"
  by (auto simp: tables_ok_def insert_link_def key_defs link_key_def split: if_splits)

lemma update_links_ok [keeps]:
  assumes "\<And>l. link_key (g l) = link_key l" and "tables_ok t"
  shows "tables_ok (update_links c i g t)"
proof -
  have "link_keys (update_links c i g t) = link_keys t"
    by (simp add: key_defs update_links_def map_key_unchanged assms(1) del: map_map)
  then show ?thesis using assms(2)
    by (simp add: tables_ok_def) (simp add: update_links_def key_defs)
qed

lemma delete_file_ok [keeps]:
  assumes "tables_ok t"
  shows "tables_ok (delete_file i t)"
proof -
  have k: "file_ids (delete_file i t) = filter (\<lambda>j. j \<noteq> i) (file_ids t)"
    "link_keys (delete_file i t) = filter (\<lambda>k. fst k \<noteq> i) (link_keys t)"
    "cloud_ids (delete_file i t) = cloud_ids t" "cloud_names (delete_file i t) = cloud_names t"
    "meta_keys (delete_file i t) = meta_keys t" "t_seq_files (delete_file i t) = t_seq_files t"
    "t_seq_clouds (delete_file i t) = t_seq_clouds t"
    by (simp_all add: key_defs delete_file_def filter_map o_def link_key_def)
  show ?thesis using assms by (auto simp: tables_ok_def k)
qed

subsection \<open>A connection\<close>

text \<open>\<open>db_snapshot\<close> is what ROLLBACK returns to; \<open>db_stmts\<close> counts statements not yet finalised.\<close>

record conn =
  db_tables :: tables
  db_snapshot :: "tables option"
  db_stmts :: nat

text \<open>
  Outcome of the calls of one operation. \<open>rc_rows\<close> is how many rows a scan yields before a
  failing step.
\<close>

record sqlite_rc =
  rc_begin :: bool
  rc_prepare :: bool
  rc_step :: bool
  rc_commit :: bool
  rc_rows :: nat

definition rc_ok :: sqlite_rc where
  "rc_ok = \<lparr>rc_begin = True, rc_prepare = True, rc_step = True, rc_commit = True, rc_rows = 0\<rparr>"

lemma rc_ok_fields [simp]:
  "rc_begin rc_ok" "rc_prepare rc_ok" "rc_step rc_ok" "rc_commit rc_ok" "rc_rows rc_ok = 0"
  by (simp_all add: rc_ok_def)

definition conn_open :: "tables \<Rightarrow> conn" where
  "conn_open t = \<lparr>db_tables = t, db_snapshot = None, db_stmts = 0\<rparr>"

definition sql_begin :: "bool \<Rightarrow> conn \<Rightarrow> bool \<times> conn" where
  "sql_begin ok d =
     (if ok \<and> db_snapshot d = None then (True, d\<lparr>db_snapshot := Some (db_tables d)\<rparr>)
      else (False, d))"

definition sql_rollback :: "conn \<Rightarrow> conn" where
  "sql_rollback d =
     (case db_snapshot d of None \<Rightarrow> d | Some t \<Rightarrow> d\<lparr>db_tables := t, db_snapshot := None\<rparr>)"

definition sql_commit :: "bool \<Rightarrow> conn \<Rightarrow> bool \<times> conn" where
  "sql_commit ok d =
     (if ok \<and> db_snapshot d \<noteq> None then (True, d\<lparr>db_snapshot := None\<rparr>) else (False, d))"

definition sql_prepare :: "bool \<Rightarrow> conn \<Rightarrow> bool \<times> conn" where
  "sql_prepare ok d = (if ok then (True, d\<lparr>db_stmts := Suc (db_stmts d)\<rparr>) else (False, d))"

text \<open>Finalising the null pointer of a failed prepare does nothing.\<close>

definition sql_finalize :: "bool \<Rightarrow> conn \<Rightarrow> conn" where
  "sql_finalize prepared d = (if prepared then d\<lparr>db_stmts := db_stmts d - 1\<rparr> else d)"

lemmas sql_defs = sql_begin_def sql_rollback_def sql_commit_def sql_prepare_def sql_finalize_def

text \<open>
  The shape of every writing operation of \<open>database.cpp\<close>: BEGIN, prepare, step, finalise,
  COMMIT, with the error text of each stage and ROLLBACK after the transaction started.
\<close>

definition run_write ::
  "sqlite_rc \<Rightarrow> string \<Rightarrow> string \<Rightarrow> string \<Rightarrow> string \<Rightarrow> (tables \<Rightarrow> (tables \<times> 'a) option) \<Rightarrow>
   conn \<Rightarrow> 'a res \<times> conn" where
  "run_write rc e_begin e_prepare e_step e_commit stmt d =
     (let (b, d1) = sql_begin (rc_begin rc) d
      in if \<not> b then (Inl (RuntimeError e_begin), d1)
         else let (p, d2) = sql_prepare (rc_prepare rc) d1
         in if \<not> p then (Inl (RuntimeError e_prepare), sql_rollback (sql_finalize p d2))
         else (case (if rc_step rc then stmt (db_tables d2) else None) of
             None \<Rightarrow> (Inl (RuntimeError e_step), sql_rollback (sql_finalize p d2))
           | Some (t, a) \<Rightarrow>
               (let d3 = sql_finalize p (d2\<lparr>db_tables := t\<rparr>);
                    (c, d4) = sql_commit (rc_commit rc) d3
                in if c then (Inr a, d4)
                   else (Inl (RuntimeError e_commit), sql_rollback d4))))"

text \<open>A query for one row: \<open>None\<close> when the statement cannot be prepared, else the row if any.\<close>

definition run_query :: "sqlite_rc \<Rightarrow> (tables \<Rightarrow> 'a option) \<Rightarrow> conn \<Rightarrow> 'a option option \<times> conn" where
  "run_query rc q d =
     (let (p, d1) = sql_prepare (rc_prepare rc) d
      in if \<not> p then (None, sql_finalize p d1)
         else (Some (if rc_step rc then q (db_tables d1) else None), sql_finalize p d1))"

lemma run_query_frame [simp, frame]: "snd (run_query rc q d) = d"
  by (simp add: run_query_def sql_defs)

lemma run_query_result:
  "fst (run_query rc q d) =
     (if rc_prepare rc then Some (if rc_step rc then q (db_tables d) else None) else None)"
  by (simp add: run_query_def sql_defs)

subsection \<open>The contract of a transaction\<close>

text \<open>
  What the callers rely on: outside a transaction, a writing operation either performs its
  effect on the tables and nothing else, or throws and leaves the connection as it was; it
  succeeds when SQLite does and the statement meets the constraints.
\<close>

locale transactional =
  fixes op :: "sqlite_rc \<Rightarrow> conn \<Rightarrow> 'a res \<times> conn"
    and eff :: "tables \<Rightarrow> (tables \<times> 'a) option"
  assumes all_or_nothing: "db_snapshot d = None \<Longrightarrow>
      (\<exists>t a. eff (db_tables d) = Some (t, a) \<and> op rc d = (Inr a, d\<lparr>db_tables := t\<rparr>)) \<or>
      (\<exists>e. op rc d = (Inl e, d))"
    and succeeds: "db_snapshot d = None \<Longrightarrow> eff (db_tables d) = Some (t, a) \<Longrightarrow>
      op rc_ok d = (Inr a, d\<lparr>db_tables := t\<rparr>)"
begin

lemma error_no_effect: "db_snapshot d = None \<Longrightarrow> fst (op rc d) = Inl e \<Longrightarrow> snd (op rc d) = d"
  using all_or_nothing [of d rc] by auto

lemma success_effect:
  "db_snapshot d = None \<Longrightarrow> fst (op rc d) = Inr a \<Longrightarrow>
     \<exists>t. eff (db_tables d) = Some (t, a) \<and> snd (op rc d) = d\<lparr>db_tables := t\<rparr>"
  using all_or_nothing [of d rc] by auto

lemma closes: "db_snapshot d = None \<Longrightarrow>
    db_snapshot (snd (op rc d)) = None \<and> db_stmts (snd (op rc d)) = db_stmts d"
  using all_or_nothing [of d rc] by auto

lemma preserves:
  assumes "\<And>t t' a. P t \<Longrightarrow> eff t = Some (t', a) \<Longrightarrow> P t'"
    and "db_snapshot d = None" and "P (db_tables d)"
  shows "P (db_tables (snd (op rc d)))"
  using all_or_nothing [of d rc] assms by auto

end

text \<open>What a writing operation amounts to outside a transaction.\<close>

lemma run_write_eq:
  "db_snapshot d = None \<Longrightarrow>
   run_write rc e_begin e_prepare e_step e_commit stmt d =
     (if \<not> rc_begin rc then (Inl (RuntimeError e_begin), d)
      else if \<not> rc_prepare rc then (Inl (RuntimeError e_prepare), d)
      else (case (if rc_step rc then stmt (db_tables d) else None) of
          None \<Rightarrow> (Inl (RuntimeError e_step), d)
        | Some (t, a) \<Rightarrow>
            (if rc_commit rc then (Inr a, d\<lparr>db_tables := t\<rparr>)
             else (Inl (RuntimeError e_commit), d))))"
  by (cases d) (simp add: run_write_def sql_defs Let_def split: option.split prod.split)

lemma run_write_transactional:
  "transactional (\<lambda>rc. run_write rc e1 e2 e3 e4 stmt) stmt"
proof
  fix d :: conn and rc
  assume "db_snapshot d = None"
  then show "(\<exists>t a. stmt (db_tables d) = Some (t, a) \<and>
        run_write rc e1 e2 e3 e4 stmt d = (Inr a, d\<lparr>db_tables := t\<rparr>)) \<or>
      (\<exists>e. run_write rc e1 e2 e3 e4 stmt d = (Inl e, d))"
    by (cases "stmt (db_tables d)"; cases "rc_commit rc") (auto simp: run_write_eq)
next
  fix d :: conn and t a
  assume "db_snapshot d = None" and "stmt (db_tables d) = Some (t, a)"
  then show "run_write rc_ok e1 e2 e3 e4 stmt d = (Inr a, d\<lparr>db_tables := t\<rparr>)"
    by (simp add: run_write_eq rc_ok_def)
qed

end
