(* ===== verification/Database.thy ===== *)
theory Database
  imports Sqlite
begin

text \<open>
  \<open>src/database.cpp\<close>, operation by operation, over the connection of \<open>Sqlite\<close>. Every
  operation takes the return codes of its SQLite calls and returns its result or exception
  with the new connection. A null \<open>unique_ptr\<close> is \<open>None\<close>. The JSON library is a parameter:
  \<open>dump\<close> and \<open>parse\<close> of the configuration data. Error texts are the source's, without
  the text of \<open>sqlite3_errmsg\<close>. Each writing operation is split into the statement with its
  bound values (\<open>stmt_\<dots>\<close>) and the transaction around it.
\<close>

subsection \<open>Cloud configurations\<close>

definition add_cloud ::
  "('j \<Rightarrow> string) \<Rightarrow> sqlite_rc \<Rightarrow> string \<Rightarrow> cloud_provider_type \<Rightarrow> 'j \<Rightarrow> conn \<Rightarrow> int res \<times> conn" where
  "add_cloud dump rc name ty config d =
     (let (p, d1) = sql_prepare (rc_prepare rc) d
      in if \<not> p then (Inl (RuntimeError ''Failed to prepare cloud_configs: ''), sql_finalize p d1)
         else (case (if rc_step rc
                     then insert_cloud (c_str name) (provider_cstr ty) (c_str (dump config)) (db_tables d1)
                     else None) of
             None \<Rightarrow> (Inl (RuntimeError (''Failed to insert new cloud: '' @ name @ '', error msg:'')), sql_finalize p d1)
           | Some (t, i) \<Rightarrow> (Inr (narrow_int i), sql_finalize p (d1\<lparr>db_tables := t\<rparr>))))"

definition get_cloud_config ::
  "(string \<Rightarrow> 'j res) \<Rightarrow> sqlite_rc \<Rightarrow> int \<Rightarrow> conn \<Rightarrow> 'j res \<times> conn" where
  "get_cloud_config parse rc cloud_id d =
     (case run_query rc (\<lambda>t. find (\<lambda>c. c_config_id c = cloud_id) (t_clouds t)) d of
        (None, d1) \<Rightarrow> (Inl (RuntimeError ''Failed to prepare SQL statement get_cloud_config''), d1)
      | (Some None, d1) \<Rightarrow> (Inl (RuntimeError ''Cloud not found''), d1)
      | (Some (Some c), d1) \<Rightarrow> (parse (c_data c), d1))"

text \<open>
  The loop of \<open>get_clouds\<close>: a row whose data does not parse throws out of the loop, past
  the \<open>sqlite3_finalize\<close>.
\<close>

fun read_clouds :: "(string \<Rightarrow> 'j res) \<Rightarrow> cloud_row list \<Rightarrow> (int \<times> string \<times> 'j) list res" where
  "read_clouds parse [] = Inr []"
| "read_clouds parse (c # cs) =
     (case parse (c_data c) of
        Inl e \<Rightarrow> Inl e
      | Inr j \<Rightarrow>
          (case read_clouds parse cs of
             Inl e \<Rightarrow> Inl e
           | Inr js \<Rightarrow> Inr ((narrow_int (c_config_id c), c_type c, j) # js)))"

definition get_clouds ::
  "(string \<Rightarrow> 'j res) \<Rightarrow> sqlite_rc \<Rightarrow> conn \<Rightarrow> (int \<times> string \<times> 'j) list res \<times> conn" where
  "get_clouds parse rc d =
     (let (p, d1) = sql_prepare (rc_prepare rc) d
      in if \<not> p then (Inl (RuntimeError ''Failed to prepare SQL statement get_clouds''), sql_finalize p d1)
         else (let rows = (if rc_step rc then t_clouds (db_tables d1)
                           else take (rc_rows rc) (t_clouds (db_tables d1)))
               in case read_clouds parse rows of
                    Inl e \<Rightarrow> (Inl e, d1)
                  | Inr js \<Rightarrow> (Inr js, sql_finalize p d1)))"

definition stmt_update_cloud_data :: "('j \<Rightarrow> string) \<Rightarrow> int \<Rightarrow> 'j \<Rightarrow> tables \<Rightarrow> (tables \<times> unit) option" where
  "stmt_update_cloud_data dump cloud_id data t =
     Some (set_cloud_data cloud_id (c_str (dump data)) t, ())"

definition update_cloud_data ::
  "('j \<Rightarrow> string) \<Rightarrow> sqlite_rc \<Rightarrow> int \<Rightarrow> 'j \<Rightarrow> conn \<Rightarrow> unit res \<times> conn" where
  "update_cloud_data dump rc cloud_id data =
     run_write rc ''Failed to begin transaction update_cloud_data''
       ''Failed to prepare SQL statement update_cloud_data''
       ''Error changing update_cloud_data'' ''Error commiting change update_cloud_data''
       (stmt_update_cloud_data dump cloud_id data)"

subsection \<open>Looking files up\<close>

definition getGlobalIdByFileId :: "sqlite_rc \<Rightarrow> u64 \<Rightarrow> conn \<Rightarrow> int res \<times> conn" where
  "getGlobalIdByFileId rc file_id d =
     (case run_query rc (\<lambda>t. find (\<lambda>f. f_file_id f = bind_u64 file_id) (t_files t)) d of
        (None, d1) \<Rightarrow> (Inl (RuntimeError ''Failed to prepare statement get_cloud_file_info)''), d1)
      | (Some None, d1) \<Rightarrow>
          (Inl (RuntimeError (''No file found for given file_id: '' @ nat_string (unat file_id))), d1)
      | (Some (Some f), d1) \<Rightarrow> (Inr (narrow_int (f_global_id f)), d1))"

definition getGlobalIdByPath :: "sqlite_rc \<Rightarrow> path \<Rightarrow> conn \<Rightarrow> int res \<times> conn" where
  "getGlobalIdByPath rc p d =
     (case run_query rc (\<lambda>t. find (\<lambda>f. f_path f = c_str (path_string p)) (t_files t)) d of
        (None, d1) \<Rightarrow> (Inl (RuntimeError ''Failed to prepare statement getGlobalIdByPath)''), d1)
      | (Some None, d1) \<Rightarrow>
          (Inl (RuntimeError (''No file found for given path: '' @ path_string p)), d1)
      | (Some (Some f), d1) \<Rightarrow> (Inr (narrow_int (f_global_id f)), d1))"

definition getFileByFileId :: "sqlite_rc \<Rightarrow> u64 \<Rightarrow> conn \<Rightarrow> file_record_dto option res \<times> conn" where
  "getFileByFileId rc file_id d =
     (case run_query rc (\<lambda>t. find (\<lambda>f. f_file_id f = bind_u64 file_id) (t_files t)) d of
        (None, d1) \<Rightarrow> (Inl (RuntimeError ''Failed to prepare statement get_cloud_file_info)''), d1)
      | (Some None, d1) \<Rightarrow> (Inr None, d1)
      | (Some (Some f), d1) \<Rightarrow>
          (Inr (Some (record_local_info (narrow_int (f_global_id f)) (entry_type_from_string (f_type f))
             (path_of_string (f_path f)) (column_u64 (f_size f)) (column_u64 (f_local_hash f))
             (f_mtime f) file_id)), d1))"

definition getFileByPath :: "sqlite_rc \<Rightarrow> path \<Rightarrow> conn \<Rightarrow> file_record_dto option res \<times> conn" where
  "getFileByPath rc p d =
     (case run_query rc (\<lambda>t. find (\<lambda>f. f_path f = c_str (path_string p)) (t_files t)) d of
        (None, d1) \<Rightarrow> (Inl (RuntimeError ''Failed to prepare statement getFileByPath)''), d1)
      | (Some None, d1) \<Rightarrow> (Inr None, d1)
      | (Some (Some f), d1) \<Rightarrow>
          (Inr (Some (record_local_info (narrow_int (f_global_id f)) (entry_type_from_string (f_type f))
             p (column_u64 (f_size f)) (column_u64 (f_local_hash f))
             (f_mtime f) (column_u64 (f_file_id f)))), d1))"

definition getFileByGlobalId :: "sqlite_rc \<Rightarrow> int \<Rightarrow> conn \<Rightarrow> file_record_dto option res \<times> conn" where
  "getFileByGlobalId rc gid d =
     (case run_query rc (\<lambda>t. find (\<lambda>f. f_global_id f = gid) (t_files t)) d of
        (None, d1) \<Rightarrow> (Inl (RuntimeError ''Failed to prepare statement get_cloud_file_info)''), d1)
      | (Some None, d1) \<Rightarrow> (Inr None, d1)
      | (Some (Some f), d1) \<Rightarrow>
          (Inr (Some (record_local_info gid (entry_type_from_string (f_type f))
             (path_of_string (f_path f)) (column_u64 (f_size f)) (column_u64 (f_local_hash f))
             (f_mtime f) (column_u64 (f_file_id f)))), d1))"

definition quickPathCheck :: "sqlite_rc \<Rightarrow> path \<Rightarrow> conn \<Rightarrow> bool res \<times> conn" where
  "quickPathCheck rc p d =
     (case run_query rc (\<lambda>t. find (\<lambda>f. f_path f = c_str (path_string p)) (t_files t)) d of
        (None, d1) \<Rightarrow> (Inl (RuntimeError ''Failed to prepare statement (quickPathCheck)''), d1)
      | (Some None, d1) \<Rightarrow> (Inr False, d1)
      | (Some (Some _), d1) \<Rightarrow> (Inr True, d1))"

definition getPathByGlobalId :: "sqlite_rc \<Rightarrow> int \<Rightarrow> conn \<Rightarrow> path res \<times> conn" where
  "getPathByGlobalId rc gid d =
     (case run_query rc (\<lambda>t. find (\<lambda>f. f_global_id f = gid) (t_files t)) d of
        (None, d1) \<Rightarrow> (Inl (RuntimeError ''Failed to prepare statement (file_links lookup)''), d1)
      | (Some None, d1) \<Rightarrow> (Inr empty_path, d1)
      | (Some (Some f), d1) \<Rightarrow> (Inr (path_of_string (f_path f)), d1))"

subsection \<open>Looking links up\<close>

definition link_dto :: "int \<Rightarrow> int \<Rightarrow> link_row \<Rightarrow> file_record_dto" where
  "link_dto gid cid l =
     record_link_info gid cid (l_parent_id l) (l_cloud_file_id l) (column_u64 (l_size l))
       (l_hash l) (l_mtime l)"

definition getFileByCloudIdAndCloudFileId ::
  "sqlite_rc \<Rightarrow> int \<Rightarrow> string \<Rightarrow> conn \<Rightarrow> file_record_dto option res \<times> conn" where
  "getFileByCloudIdAndCloudFileId rc cid cfid d =
     (case run_query rc (\<lambda>t. find (\<lambda>l. l_cloud_id l = cid \<and> l_cloud_file_id l = c_str cfid) (t_links t)) d of
        (None, d1) \<Rightarrow> (Inl (RuntimeError ''Failed to prepare statement get_global_id''), d1)
      | (Some None, d1) \<Rightarrow> (Inr None, d1)
      | (Some (Some l), d1) \<Rightarrow>
          (Inr (Some ((link_dto (narrow_int (l_global_id l)) cid l)\<lparr>fr_cloud_file_id := cfid\<rparr>)), d1))"

definition getFileByCloudIdAndGlobalId ::
  "sqlite_rc \<Rightarrow> int \<Rightarrow> int \<Rightarrow> conn \<Rightarrow> file_record_dto option res \<times> conn" where
  "getFileByCloudIdAndGlobalId rc cid gid d =
     (case run_query rc (\<lambda>t. find (\<lambda>l. l_cloud_id l = cid \<and> l_global_id l = gid) (t_links t)) d of
        (None, d1) \<Rightarrow> (Inl (RuntimeError ''Failed to prepare statement getFileByCloudIdAndGlobalId''), d1)
      | (Some None, d1) \<Rightarrow> (Inr None, d1)
      | (Some (Some l), d1) \<Rightarrow> (Inr (Some (link_dto gid cid l)), d1))"

definition get_cloud_file_id_by_cloud_id :: "sqlite_rc \<Rightarrow> int \<Rightarrow> int \<Rightarrow> conn \<Rightarrow> string res \<times> conn" where
  "get_cloud_file_id_by_cloud_id rc cid gid d =
     (case run_query rc (\<lambda>t. find (\<lambda>l. l_cloud_id l = cid \<and> l_global_id l = gid) (t_links t)) d of
        (None, d1) \<Rightarrow> (Inl (RuntimeError ''Failed to prepare statement (file_links lookup)''), d1)
      | (Some None, d1) \<Rightarrow>
          (Inl (RuntimeError (''ERROR No file_link found for given cloud_id and global id: '' @ int_string cid)), d1)
      | (Some (Some l), d1) \<Rightarrow> (Inr (l_cloud_file_id l), d1))"

text \<open>Two statements: the row of the path, then its link for the cloud.\<close>

definition getCloudFileIdByPath ::
  "sqlite_rc \<Rightarrow> sqlite_rc \<Rightarrow> path \<Rightarrow> int \<Rightarrow> conn \<Rightarrow> string res \<times> conn" where
  "getCloudFileIdByPath rc1 rc2 p cid d =
     (case run_query rc1 (\<lambda>t. find (\<lambda>f. f_path f = c_str (path_string p)) (t_files t)) d of
        (None, d1) \<Rightarrow> (Inl (RuntimeError ''Failed to prepare statement getCloudFileIdbyPath)''), d1)
      | (Some None, d1) \<Rightarrow> (Inr [], d1)
      | (Some (Some f), d1) \<Rightarrow>
          (case run_query rc2 (\<lambda>t. find (\<lambda>l. l_global_id l = narrow_int (f_global_id f) \<and> l_cloud_id l = cid) (t_links t)) d1 of
             (None, d2) \<Rightarrow> (Inl (RuntimeError ''Failed to prepare statement getCloudFileIdbyPath)''), d2)
           | (Some None, d2) \<Rightarrow> (Inr [], d2)
           | (Some (Some l), d2) \<Rightarrow> (Inr (l_cloud_file_id l), d2)))"

subsection \<open>The missing part of a path\<close>

definition count_links :: "sqlite_rc \<Rightarrow> int \<Rightarrow> tables \<Rightarrow> int" where
  "count_links rc gid t =
     (let n = length (filter (\<lambda>l. l_global_id l = gid) (t_links t))
      in int (if rc_step rc then n else min (rc_rows rc) n))"

definition missing_from :: "path \<Rightarrow> path \<Rightarrow> path" where
  "missing_from norm accum =
     (let parent = parent_path accum
      in if path_empty parent then norm else lexically_relative norm parent)"

text \<open>The loop over the elements; \<open>i\<close> numbers the statements for their return codes.\<close>

fun missing_loop ::
  "(nat \<Rightarrow> sqlite_rc) \<Rightarrow> int \<Rightarrow> path \<Rightarrow> path \<Rightarrow> string list \<Rightarrow> nat \<Rightarrow> conn \<Rightarrow> path res \<times> conn" where
  "missing_loop rcs num_clouds norm accum [] i d = (Inr empty_path, d)"
| "missing_loop rcs num_clouds norm accum (seq # rest) i d =
     (let accum' = path_div accum \<lparr>rooted = False, segs = [seq]\<rparr>
      in case run_query (rcs i) (\<lambda>t. find (\<lambda>f. f_path f = c_str (path_string accum')) (t_files t)) d of
           (None, d1) \<Rightarrow> (Inl (RuntimeError ''Failed to prepare statement (checkExistanceByPath)''), d1)
         | (Some None, d1) \<Rightarrow> (Inr (missing_from norm accum'), d1)
         | (Some (Some f), d1) \<Rightarrow>
             (let gid = narrow_int (f_global_id f);
                  (p, d2) = sql_prepare (rc_prepare (rcs (Suc i))) d1
              in if \<not> p
                 then (Inl (RuntimeError ''Failed to prepare statement (getMissingPathPart)''), sql_finalize p d2)
                 else (let row_count = count_links (rcs (Suc i)) gid (db_tables d2);
                           d3 = sql_finalize p d2
                       in if row_count \<noteq> num_clouds then (Inr (missing_from norm accum'), d3)
                          else missing_loop rcs num_clouds norm accum' rest (Suc (Suc i)) d3)))"

definition getMissingPathPart :: "(nat \<Rightarrow> sqlite_rc) \<Rightarrow> path \<Rightarrow> int \<Rightarrow> conn \<Rightarrow> path res \<times> conn" where
  "getMissingPathPart rcs p num_clouds d =
     (let norm = normalizePath p
      in missing_loop rcs num_clouds norm empty_path (segs norm) 0 d)"

subsection \<open>Writing files and links\<close>

text \<open>The numeric check sum for a \<open>files\<close> row, the text one for a \<open>file_links\<close> row.\<close>

fun hash_num :: "check_sum \<Rightarrow> u64" where
  "hash_num (HashNum w) = w"
| "hash_num (HashStr _) = 0"

fun hash_str :: "check_sum \<Rightarrow> string" where
  "hash_str (HashStr s) = s"
| "hash_str (HashNum _) = []"

definition stmt_add_file :: "file_record_dto \<Rightarrow> tables \<Rightarrow> (tables \<times> int) option" where
  "stmt_add_file dto t =
     (let (t', i) = insert_file (entry_cstr (fr_type dto)) (c_str (path_string (fr_rel_path dto)))
                     (bind_u64 (fr_size dto)) (bind_u64 (hash_num (fr_hash dto))) (fr_mtime dto)
                     (bind_u64 (fr_file_id dto)) t
      in Some (t', narrow_int i))"

definition add_file :: "sqlite_rc \<Rightarrow> file_record_dto \<Rightarrow> conn \<Rightarrow> int res \<times> conn" where
  "add_file rc dto =
     run_write rc ''Failed to begin transaction add_file''
       ''Failed to prepare SQL statement add_file''
       (''Error adding file to files'' @ path_string (fr_rel_path dto))
       (''Error commiting file '' @ path_string (fr_rel_path dto))
       (stmt_add_file dto)"

definition stmt_add_file_link :: "file_record_dto \<Rightarrow> tables \<Rightarrow> (tables \<times> unit) option" where
  "stmt_add_file_link dto t =
     map_option (\<lambda>t'. (t', ()))
       (insert_link \<lparr>l_global_id = fr_global_id dto, l_cloud_id = fr_cloud_id dto,
          l_cloud_file_id = c_str (fr_cloud_file_id dto),
          l_parent_id = c_str (fr_cloud_parent_id dto), l_mtime = fr_mtime dto,
          l_hash = c_str (hash_str (fr_hash dto)), l_size = bind_u64 (fr_size dto)\<rparr> t)"

definition add_file_link :: "sqlite_rc \<Rightarrow> file_record_dto \<Rightarrow> conn \<Rightarrow> unit res \<times> conn" where
  "add_file_link rc dto =
     run_write rc ''Failed to begin transaction add_file_links''
       ''Failed to prepare SQL statement add_file_links''
       (''Error adding file to file_links '' @ int_string (fr_global_id dto))
       (''Error commiting file_link '' @ int_string (fr_global_id dto))
       (stmt_add_file_link dto)"

definition stmt_update_file_link_updated :: "file_updated_dto \<Rightarrow> tables \<Rightarrow> (tables \<times> unit) option" where
  "stmt_update_file_link_updated dto t =
     Some (update_links (fu_cloud_id dto) (fu_global_id dto)
             (\<lambda>l. l\<lparr>l_hash := c_str (hash_str (fu_hash dto)), l_mtime := fu_mtime dto,
                    l_size := bind_u64 (fu_size dto)\<rparr>) t, ())"

definition update_file_link_updated :: "sqlite_rc \<Rightarrow> file_updated_dto \<Rightarrow> conn \<Rightarrow> unit res \<times> conn" where
  "update_file_link_updated rc dto =
     run_write rc ''Failed to begin transaction update_file_link''
       ''Failed to prepare SQL statement update_file_link''
       ''Error changing update_file_link'' ''Error commiting change update_file_link''
       (stmt_update_file_link_updated dto)"

definition stmt_update_file_updated :: "file_updated_dto \<Rightarrow> tables \<Rightarrow> (tables \<times> unit) option" where
  "stmt_update_file_updated dto t =
     Some (update_files (fu_global_id dto)
             (\<lambda>f. f\<lparr>f_size := bind_u64 (fu_size dto), f_local_hash := bind_u64 (hash_num (fu_hash dto)),
                    f_mtime := fu_mtime dto, f_file_id := bind_u64 (fu_file_id dto)\<rparr>) t, ())"

definition update_file_updated :: "sqlite_rc \<Rightarrow> file_updated_dto \<Rightarrow> conn \<Rightarrow> unit res \<times> conn" where
  "update_file_updated rc dto =
     run_write rc ''Failed to begin transaction update_file_link''
       ''Failed to prepare SQL statement update_file_link''
       ''Error changing update_file_link'' ''Error commiting change update_file_link''
       (stmt_update_file_updated dto)"

definition stmt_update_file_link_moved :: "file_moved_dto \<Rightarrow> tables \<Rightarrow> (tables \<times> unit) option" where
  "stmt_update_file_link_moved dto t =
     Some (update_links (fm_cloud_id dto) (fm_global_id dto)
             (\<lambda>l. l\<lparr>l_cloud_file_id := c_str (fm_cloud_file_id dto), l_mtime := fm_mtime dto,
                    l_parent_id := c_str (fm_new_cloud_parent_id dto)\<rparr>) t, ())"

definition update_file_link_moved :: "sqlite_rc \<Rightarrow> file_moved_dto \<Rightarrow> conn \<Rightarrow> unit res \<times> conn" where
  "update_file_link_moved rc dto =
     run_write rc ''Failed to begin transaction update_file_link''
       ''Failed to prepare SQL statement update_file_link''
       ''Error changing update_file_link'' ''Error commiting change update_file_link''
       (stmt_update_file_link_moved dto)"

definition stmt_update_file_moved :: "file_moved_dto \<Rightarrow> tables \<Rightarrow> (tables \<times> unit) option" where
  "stmt_update_file_moved dto t =
     Some (update_files (fm_global_id dto)
             (\<lambda>f. f\<lparr>f_path := c_str (path_string (fm_new_rel_path dto)), f_mtime := fm_mtime dto\<rparr>) t, ())"

definition update_file_moved :: "sqlite_rc \<Rightarrow> file_moved_dto \<Rightarrow> conn \<Rightarrow> unit res \<times> conn" where
  "update_file_moved rc dto =
     run_write rc ''Failed to begin transaction update_file_link''
       ''Failed to prepare SQL statement update_file_link''
       ''Error changing update_file_link'' ''Error commiting change update_file_link''
       (stmt_update_file_moved dto)"

definition stmt_delete_file_and_links :: "int \<Rightarrow> tables \<Rightarrow> (tables \<times> unit) option" where
  "stmt_delete_file_and_links gid t =
     Some (delete_file gid t, ())"

definition delete_file_and_links :: "sqlite_rc \<Rightarrow> int \<Rightarrow> conn \<Rightarrow> unit res \<times> conn" where
  "delete_file_and_links rc gid =
     run_write rc ''Failed to begin transaction delete_file''
       ''Failed to prepare SQL statement delete_file''
       (''Error deleting from files: '' @ int_string gid) (''Error commiting deletion: '' @ int_string gid)
       (stmt_delete_file_and_links gid)"

subsection \<open>Metadata\<close>

text \<open>The prepare of \<open>isInitialSyncDone\<close> is not checked: stepping a null statement is no row.\<close>

definition isInitialSyncDone :: "sqlite_rc \<Rightarrow> conn \<Rightarrow> bool \<times> conn" where
  "isInitialSyncDone rc d =
     (case run_query rc (\<lambda>t. map_of (t_metadata t) ''initial_sync_done'') d of
        (Some (Some v), d1) \<Rightarrow> (v = ''1'', d1)
      | (_, d1) \<Rightarrow> (False, d1))"

definition stmt_markInitialSyncDone :: "tables \<Rightarrow> (tables \<times> unit) option" where
  "stmt_markInitialSyncDone t =
     Some (meta_replace ''initial_sync_done'' ''1'' t, ())"

definition markInitialSyncDone :: "sqlite_rc \<Rightarrow> conn \<Rightarrow> unit res \<times> conn" where
  "markInitialSyncDone rc =
     run_write rc ''Failed to begin transaction markInitialSyncDone''
       ''Failed to prepare SQL statement markInitialSyncDone''
       ''Error doing markInitialSyncDone'' ''Error commiting markInitialSyncDone''
       stmt_markInitialSyncDone"

definition stmt_addLocalDir :: "string \<Rightarrow> tables \<Rightarrow> (tables \<times> unit) option" where
  "stmt_addLocalDir dir t =
     Some (meta_replace ''local_dir'' (c_str dir) t, ())"

definition addLocalDir :: "sqlite_rc \<Rightarrow> string \<Rightarrow> conn \<Rightarrow> unit res \<times> conn" where
  "addLocalDir rc dir =
     run_write rc ''Failed to begin transaction addLocalDir''
       ''Failed to prepare SQL statement addLocalDir''
       ''Error doing addLocalDir'' ''Error commiting addLocalDir''
       (stmt_addLocalDir dir)"

definition getLocalDir :: "sqlite_rc \<Rightarrow> conn \<Rightarrow> string res \<times> conn" where
  "getLocalDir rc d =
     (case run_query rc (\<lambda>t. map_of (t_metadata t) ''local_dir'') d of
        (None, d1) \<Rightarrow> (Inl (RuntimeError ''Failed to prepare statement (getLocalDir)''), d1)
      | (Some None, d1) \<Rightarrow> (Inl (RuntimeError ''ERROR getting local_dir''), d1)
      | (Some (Some v), d1) \<Rightarrow> (Inr v, d1))"

subsection \<open>Opening\<close>

text \<open>
  The constructor: the file is opened, three pragmas are set and the missing tables are made. The
  record has what SQLite answers, \<open>od_error\<close> the text of its last error; \<open>t\<close> are the tables of
  the file, those of \<open>create_tables\<close> for a new one. A message for a failed statement is
  always there.
\<close>

record open_rc =
  od_open :: bool
  od_pragmas :: "bool list"
  od_tables :: bool
  od_error :: string

definition db_execute :: "bool \<Rightarrow> string \<Rightarrow> unit res" where
  "db_execute succeeds msg = (if succeeds then Inr () else Inl (RuntimeError (''SQL error: '' @ msg)))"

definition database_open :: "open_rc \<Rightarrow> tables \<Rightarrow> conn res" where
  "database_open rc t =
     (if \<not> od_open rc then Inl (RuntimeError (''Error opening db: '' @ od_error rc))
      else res_bind (db_execute (list_all id (od_pragmas rc)) (od_error rc))
        (\<lambda>_. res_bind (db_execute (od_tables rc) (od_error rc)) (\<lambda>_. Inr (conn_open t))))"

definition open_ok :: "open_rc \<Rightarrow> bool" where
  "open_ok rc \<longleftrightarrow> od_open rc \<and> list_all id (od_pragmas rc) \<and> od_tables rc"

lemma database_open_ok [simp]: "open_ok rc \<Longrightarrow> database_open rc t = Inr (conn_open t)"
  by (simp add: database_open_def open_ok_def db_execute_def)

end
