(* ===== verification/DatabaseProps.thy ===== *)
theory DatabaseProps
  imports Database
begin

text \<open>
  What \<open>Database\<close> promises: every writing operation is a transaction (interpretations of
  \<open>transactional\<close>), the schema invariant survives any run of operations with any return
  codes, look-ups return what was stored, and \<open>getMissingPathPart\<close> cuts a path at the first
  element that is not known to every cloud.
\<close>

subsection \<open>Writing operations are transactions\<close>

interpretation ucd: transactional "\<lambda>rc. update_cloud_data dump rc i j" "stmt_update_cloud_data dump i j"
  for dump i j
  unfolding update_cloud_data_def by (rule run_write_transactional)

interpretation af: transactional "\<lambda>rc. add_file rc dto" "stmt_add_file dto" for dto
  unfolding add_file_def by (rule run_write_transactional)

interpretation afl: transactional "\<lambda>rc. add_file_link rc dto" "stmt_add_file_link dto" for dto
  unfolding add_file_link_def by (rule run_write_transactional)

interpretation ulu: transactional "\<lambda>rc. update_file_link_updated rc dto" "stmt_update_file_link_updated dto"
  for dto
  unfolding update_file_link_updated_def by (rule run_write_transactional)

interpretation ufu: transactional "\<lambda>rc. update_file_updated rc dto" "stmt_update_file_updated dto" for dto
  unfolding update_file_updated_def by (rule run_write_transactional)

interpretation ulm: transactional "\<lambda>rc. update_file_link_moved rc dto" "stmt_update_file_link_moved dto"
  for dto
  unfolding update_file_link_moved_def by (rule run_write_transactional)

interpretation ufm: transactional "\<lambda>rc. update_file_moved rc dto" "stmt_update_file_moved dto" for dto
  unfolding update_file_moved_def by (rule run_write_transactional)

interpretation dfl: transactional "\<lambda>rc. delete_file_and_links rc gid" "stmt_delete_file_and_links gid"
  for gid
  unfolding delete_file_and_links_def by (rule run_write_transactional)

interpretation mis: transactional markInitialSyncDone stmt_markInitialSyncDone
  using run_write_transactional by (simp add: markInitialSyncDone_def [abs_def])

interpretation ald: transactional "\<lambda>rc. addLocalDir rc dir" "stmt_addLocalDir dir" for dir
  unfolding addLocalDir_def by (rule run_write_transactional)

text \<open>One call of a writing operation, with its arguments.\<close>

datatype 'j db_write =
    AddCloud string cloud_provider_type 'j
  | UpdateCloudData int 'j
  | AddFile file_record_dto
  | AddFileLink file_record_dto
  | UpdateLinkUpdated file_updated_dto
  | UpdateFileUpdated file_updated_dto
  | UpdateLinkMoved file_moved_dto
  | UpdateFileMoved file_moved_dto
  | DeleteFileAndLinks int
  | MarkInitialSyncDone
  | AddLocalDir string

definition discard :: "'a res \<times> conn \<Rightarrow> unit res \<times> conn" where
  "discard r = (case fst r of Inl e \<Rightarrow> (Inl e, snd r) | Inr _ \<Rightarrow> (Inr (), snd r))"

fun db_exec :: "('j \<Rightarrow> string) \<Rightarrow> sqlite_rc \<Rightarrow> 'j db_write \<Rightarrow> conn \<Rightarrow> unit res \<times> conn" where
  "db_exec dump rc (AddCloud n ty j) d = discard (add_cloud dump rc n ty j d)"
| "db_exec dump rc (UpdateCloudData i j) d = update_cloud_data dump rc i j d"
| "db_exec dump rc (AddFile dto) d = discard (add_file rc dto d)"
| "db_exec dump rc (AddFileLink dto) d = add_file_link rc dto d"
| "db_exec dump rc (UpdateLinkUpdated dto) d = update_file_link_updated rc dto d"
| "db_exec dump rc (UpdateFileUpdated dto) d = update_file_updated rc dto d"
| "db_exec dump rc (UpdateLinkMoved dto) d = update_file_link_moved rc dto d"
| "db_exec dump rc (UpdateFileMoved dto) d = update_file_moved rc dto d"
| "db_exec dump rc (DeleteFileAndLinks i) d = delete_file_and_links rc i d"
| "db_exec dump rc MarkInitialSyncDone d = markInitialSyncDone rc d"
| "db_exec dump rc (AddLocalDir p) d = addLocalDir rc p d"

text \<open>A run of calls; a call that throws does not stop the next ones (each thread goes on).\<close>

fun db_run :: "('j \<Rightarrow> string) \<Rightarrow> (sqlite_rc \<times> 'j db_write) list \<Rightarrow> conn \<Rightarrow> conn" where
  "db_run dump [] d = d"
| "db_run dump ((rc, w) # ws) d = db_run dump ws (snd (db_exec dump rc w d))"

lemma discard_simps [simp]:
  "snd (discard r) = snd r" "fst (discard r) = Inl e \<longleftrightarrow> fst r = Inl e"
  by (auto simp: discard_def split: sum.splits)

lemma add_cloud_eq:
  "add_cloud dump rc n ty j d =
     (if \<not> rc_prepare rc then (Inl (RuntimeError ''Failed to prepare cloud_configs: ''), d)
      else (case (if rc_step rc then insert_cloud (c_str n) (provider_cstr ty) (c_str (dump j)) (db_tables d)
                  else None) of
          None \<Rightarrow> (Inl (RuntimeError (''Failed to insert new cloud: '' @ n @ '', error msg:'')), d)
        | Some (t, i) \<Rightarrow> (Inr (narrow_int i), d\<lparr>db_tables := t\<rparr>)))"
  by (cases d) (simp add: add_cloud_def sql_defs split: option.split prod.split)

lemma db_exec_atomic:
  assumes "db_snapshot d = None" and "fst (db_exec dump rc w d) = Inl e"
  shows "snd (db_exec dump rc w d) = d"
proof (cases w)
  case (AddCloud n ty j)
  then show ?thesis using assms by (auto simp: add_cloud_eq split: option.splits if_splits)
qed (use assms in \<open>simp_all add: ucd.error_no_effect af.error_no_effect afl.error_no_effect
       ulu.error_no_effect ufu.error_no_effect ulm.error_no_effect ufm.error_no_effect
       dfl.error_no_effect mis.error_no_effect ald.error_no_effect\<close>)

lemma db_exec_closes:
  assumes "db_snapshot d = None"
  shows "db_snapshot (snd (db_exec dump rc w d)) = None \<and> db_stmts (snd (db_exec dump rc w d)) = db_stmts d"
proof (cases w)
  case (AddCloud n ty j)
  then show ?thesis using assms by (auto simp: add_cloud_eq split: option.splits if_splits)
qed (use assms in \<open>simp_all add: ucd.closes af.closes afl.closes ulu.closes ufu.closes ulm.closes
       ufm.closes dfl.closes mis.closes ald.closes\<close>)

lemma stmts_ok [keeps]:
  assumes ok: "tables_ok t"
  shows "stmt_update_cloud_data dump i j t = Some (t', u) \<Longrightarrow> tables_ok t'"
    and "stmt_add_file r t = Some (t', g) \<Longrightarrow> tables_ok t'"
    and "stmt_add_file_link r t = Some (t', u) \<Longrightarrow> tables_ok t'"
    and "stmt_update_file_link_updated up t = Some (t', u) \<Longrightarrow> tables_ok t'"
    and "stmt_update_file_updated up t = Some (t', u) \<Longrightarrow> tables_ok t'"
    and "stmt_update_file_link_moved mo t = Some (t', u) \<Longrightarrow> tables_ok t'"
    and "stmt_update_file_moved mo t = Some (t', u) \<Longrightarrow> tables_ok t'"
    and "stmt_delete_file_and_links i t = Some (t', u) \<Longrightarrow> tables_ok t'"
    and "stmt_markInitialSyncDone t = Some (t', u) \<Longrightarrow> tables_ok t'"
    and "stmt_addLocalDir s t = Some (t', u) \<Longrightarrow> tables_ok t'"
  using ok insert_file_ok [OF ok]
  by (auto simp: stmt_update_cloud_data_def stmt_add_file_def stmt_add_file_link_def
       stmt_update_file_link_updated_def stmt_update_file_updated_def stmt_update_file_link_moved_def
       stmt_update_file_moved_def stmt_delete_file_and_links_def stmt_markInitialSyncDone_def
       stmt_addLocalDir_def link_key_def split: prod.splits intro: keeps) (metis fst_conv)

lemma db_exec_ok:
  assumes d: "db_snapshot d = None" and ok: "tables_ok (db_tables d)"
  shows "tables_ok (db_tables (snd (db_exec dump rc w d)))"
proof (cases w)
  case (AddCloud n ty j)
  then show ?thesis using ok
    by (auto simp: add_cloud_eq split: option.splits if_splits intro: insert_cloud_ok)
next
  case (UpdateCloudData i j)
  then show ?thesis using ucd.preserves [where P = tables_ok, OF stmts_ok(1) d ok] by simp
next
  case (AddFile x)
  then show ?thesis using af.preserves [where P = tables_ok, OF stmts_ok(2) d ok] by simp
next
  case (AddFileLink x)
  then show ?thesis using afl.preserves [where P = tables_ok, OF stmts_ok(3) d ok] by simp
next
  case (UpdateLinkUpdated x)
  then show ?thesis using ulu.preserves [where P = tables_ok, OF stmts_ok(4) d ok] by simp
next
  case (UpdateFileUpdated x)
  then show ?thesis using ufu.preserves [where P = tables_ok, OF stmts_ok(5) d ok] by simp
next
  case (UpdateLinkMoved x)
  then show ?thesis using ulm.preserves [where P = tables_ok, OF stmts_ok(6) d ok] by simp
next
  case (UpdateFileMoved x)
  then show ?thesis using ufm.preserves [where P = tables_ok, OF stmts_ok(7) d ok] by simp
next
  case (DeleteFileAndLinks x)
  then show ?thesis using dfl.preserves [where P = tables_ok, OF stmts_ok(8) d ok] by simp
next
  case MarkInitialSyncDone
  then show ?thesis using mis.preserves [where P = tables_ok, OF stmts_ok(9) d ok] by simp
next
  case (AddLocalDir x)
  then show ?thesis using ald.preserves [where P = tables_ok, OF stmts_ok(10) d ok] by simp
qed



subsection \<open>What is stored is found\<close>

lemma stmt_add_file_files:
  assumes "stmt_add_file dto t = Some (t', g)"
  shows "t_files t' = t_files t @ [\<lparr>f_global_id = t_seq_files t + 1, f_type = entry_cstr (fr_type dto),
            f_path = c_str (path_string (fr_rel_path dto)), f_size = bind_u64 (fr_size dto),
            f_local_hash = bind_u64 (hash_num (fr_hash dto)), f_mtime = fr_mtime dto,
            f_file_id = bind_u64 (fr_file_id dto)\<rparr>]"
    and "t_links t' = t_links t" and "t_clouds t' = t_clouds t" and "g = narrow_int (t_seq_files t + 1)"
  using assms by (auto simp: stmt_add_file_def insert_file_def Let_def)

lemma find_fresh_id:
  assumes "tables_ok t" and "t_seq_files t < i"
  shows "find (\<lambda>f. f_global_id f = i) (t_files t) = None"
  using assms by (force simp: find_None_iff tables_ok_def key_defs)

lemma run_query_ok [sh_simps]: "run_query rc_ok q d = (Some (q (db_tables d)), d)"
  by (simp add: run_query_def sql_defs rc_ok_def)

lemmas lookup_defs = getFileByGlobalId_def getFileByPath_def getFileByFileId_def getPathByGlobalId_def
  quickPathCheck_def getGlobalIdByFileId_def getGlobalIdByPath_def getFileByCloudIdAndGlobalId_def
  getFileByCloudIdAndCloudFileId_def get_cloud_file_id_by_cloud_id_def

lemma fresh_id_small:
  "tables_ok t \<Longrightarrow> t_seq_files t < 2 ^ 31 - 1 \<Longrightarrow> narrow_int (t_seq_files t + 1) = t_seq_files t + 1"
  by (rule narrow_int_id) (auto simp: tables_ok_def)

lemma add_file_lookup:
  assumes "db_snapshot d = None" and "tables_ok (db_tables d)"
    and "t_seq_files (db_tables d) < 2 ^ 31 - 1"
    and "plain_path (fr_rel_path dto)" and "CHR 0x00 \<notin> set (path_string (fr_rel_path dto))"
    and "add_file rc dto d = (Inr g, d')"
  shows "g \<notin> set (file_ids (db_tables d)) \<and>
         getFileByGlobalId rc_ok g d' =
           (Inr (Some (record_local_info g (fr_type dto) (fr_rel_path dto) (fr_size dto)
                         (hash_num (fr_hash dto)) (fr_mtime dto) (fr_file_id dto))), d') \<and>
         (\<forall>i. i = g \<or> fst (getFileByGlobalId rc_ok i d') = fst (getFileByGlobalId rc_ok i d))"
proof -
  obtain t where t: "stmt_add_file dto (db_tables d) = Some (t, g)" and d': "d' = d\<lparr>db_tables := t\<rparr>"
    using af.success_effect [OF assms(1), of rc dto g] assms(6) by auto
  note f = stmt_add_file_files [OF t]
  have g: "g = t_seq_files (db_tables d) + 1" using f(4) fresh_id_small [OF assms(2,3)] by simp
  then have n: "find (\<lambda>f. f_global_id f = g) (t_files (db_tables d)) = None"
    using find_fresh_id [OF assms(2)] by simp
  have "g \<notin> set (file_ids (db_tables d))" using assms(2) g by (force simp: tables_ok_def)
  moreover have "getFileByGlobalId rc_ok g d' = (Inr (Some (record_local_info g (fr_type dto)
      (fr_rel_path dto) (fr_size dto) (hash_num (fr_hash dto)) (fr_mtime dto) (fr_file_id dto))), d')"
    using n assms(4,5) g
    by (simp add: lookup_defs sh_simps d' f(1) find_append path_string_roundtrip)
  moreover have "fst (getFileByGlobalId rc_ok i d') = fst (getFileByGlobalId rc_ok i d)" if "i \<noteq> g" for i
    using that g by (simp add: lookup_defs sh_simps d' f(1) find_append split: option.split)
  ultimately show ?thesis by blast
qed

text \<open>
  C35. A file that was added is found: when \<open>add_file\<close> returns an id, the id is fresh, the
  row read back under it carries every field of the transfer object (64-bit size, hash and
  file id exactly, a check sum that is text counting as 0), and the rows under all other
  ids are read as before.
\<close>

theorem add_file_found:
  assumes "db_snapshot d = None" and "tables_ok (db_tables d)"
    and "t_seq_files (db_tables d) < 2 ^ 31 - 1"
    and "plain_path (fr_rel_path dto)" and "CHR 0x00 \<notin> set (path_string (fr_rel_path dto))"
    and "add_file rc dto d = (Inr g, d')"
  shows "g \<notin> set (file_ids (db_tables d)) \<and>
         getFileByGlobalId rc_ok g d' =
           (Inr (Some (record_local_info g (fr_type dto) (fr_rel_path dto) (fr_size dto)
                         (hash_num (fr_hash dto)) (fr_mtime dto) (fr_file_id dto))), d') \<and>
         (\<forall>i. i = g \<or> fst (getFileByGlobalId rc_ok i d') = fst (getFileByGlobalId rc_ok i d))"
  using assms by (rule add_file_lookup)

lemma find_link_key:
  "find (\<lambda>l. l_cloud_id l = c \<and> l_global_id l = g) ls = find (\<lambda>l. link_key l = (g, c)) ls"
  by (rule arg_cong [where f = "\<lambda>P. find P ls"]) (auto simp: link_key_def)

lemma stmt_add_file_link_new:
  assumes "stmt_add_file_link dto t = Some (t', u)"
    and "(fr_global_id dto, fr_cloud_id dto) \<notin> set (link_keys t)"
  shows "t_links t' = t_links t @ [\<lparr>l_global_id = fr_global_id dto, l_cloud_id = fr_cloud_id dto,
          l_cloud_file_id = c_str (fr_cloud_file_id dto),
          l_parent_id = c_str (fr_cloud_parent_id dto), l_mtime = fr_mtime dto,
          l_hash = c_str (hash_str (fr_hash dto)), l_size = bind_u64 (fr_size dto)\<rparr>]"
    and "t_files t' = t_files t" and "t_clouds t' = t_clouds t"
  using assms by (auto simp: stmt_add_file_link_def insert_link_def link_key_def split: if_splits)

lemma find_no_link:
  "(g, c) \<notin> set (link_keys t) \<Longrightarrow> find (\<lambda>l. link_key l = (g, c)) (t_links t) = None"
  by (force simp: find_None_iff key_defs)

lemma add_file_link_lookup:
  assumes "db_snapshot d = None"
    and "\<forall>s \<in> {fr_cloud_file_id dto, fr_cloud_parent_id dto, hash_str (fr_hash dto)}. CHR 0x00 \<notin> set s"
  shows "let k = (fr_global_id dto, fr_cloud_id dto); known = k \<in> set (link_keys (db_tables d));
             ref = (fst k \<in> set (file_ids (db_tables d)) \<and> snd k \<in> set (cloud_ids (db_tables d)));
             (r, d') = add_file_link rc_ok dto d
         in (if known then r = Inr () \<and> d' = d
             else if ref then r = Inr () \<and>
               getFileByCloudIdAndGlobalId rc_ok (fr_cloud_id dto) (fr_global_id dto) d' =
                 (Inr (Some (record_link_info (fr_global_id dto) (fr_cloud_id dto)
                    (fr_cloud_parent_id dto) (fr_cloud_file_id dto) (fr_size dto)
                    (hash_str (fr_hash dto)) (fr_mtime dto))), d')
             else \<not> is_ok r \<and> d' = d)"
proof -
  let ?t = "db_tables d" and ?k = "(fr_global_id dto, fr_cloud_id dto)"
  consider (known) "?k \<in> set (link_keys ?t)"
    | (new) "?k \<notin> set (link_keys ?t)" "fr_global_id dto \<in> set (file_ids ?t)" "fr_cloud_id dto \<in> set (cloud_ids ?t)"
    | (bad) "?k \<notin> set (link_keys ?t)" "\<not> (fr_global_id dto \<in> set (file_ids ?t) \<and> fr_cloud_id dto \<in> set (cloud_ids ?t))"
    by blast
  then show ?thesis
  proof cases
    case known
    then have "stmt_add_file_link dto ?t = Some (?t, ())"
      by (simp add: stmt_add_file_link_def insert_link_def link_key_def)
    then show ?thesis using known afl.succeeds [OF assms(1)] by (cases d) simp
  next
    case new
    then obtain t where t: "stmt_add_file_link dto ?t = Some (t, ())"
      by (simp add: stmt_add_file_link_def insert_link_def link_key_def)
    note l = stmt_add_file_link_new [OF t new(1)]
    have "add_file_link rc_ok dto d = (Inr (), d\<lparr>db_tables := t\<rparr>)"
      by (rule afl.succeeds [OF assms(1) t])
    moreover have "getFileByCloudIdAndGlobalId rc_ok (fr_cloud_id dto) (fr_global_id dto) (d\<lparr>db_tables := t\<rparr>)
        = (Inr (Some (record_link_info (fr_global_id dto) (fr_cloud_id dto)
             (fr_cloud_parent_id dto) (fr_cloud_file_id dto) (fr_size dto)
             (hash_str (fr_hash dto)) (fr_mtime dto))), d\<lparr>db_tables := t\<rparr>)"
      using find_no_link [OF new(1)] assms(2)
      by (simp add: lookup_defs sh_simps find_link_key l(1) find_append link_key_def link_dto_def)
    ultimately show ?thesis using new by simp
  next
    case bad
    then have "stmt_add_file_link dto ?t = None"
      by (auto simp: stmt_add_file_link_def insert_link_def link_key_def)
    then show ?thesis using bad assms(1) by (auto simp: add_file_link_def run_write_eq rc_ok_def)
  qed
qed

text \<open>
  C36. Linking a file to a cloud: when the file has no link for the cloud yet,
  \<open>add_file_link\<close> succeeds exactly when both the file row and the cloud row exist (the
  foreign keys), and then the link read back carries the ids, size, time and text check sum
  of the transfer object; when the link already exists the call succeeds and changes nothing.
\<close>

theorem add_file_link_found:
  assumes "db_snapshot d = None"
    and "\<forall>s \<in> {fr_cloud_file_id dto, fr_cloud_parent_id dto, hash_str (fr_hash dto)}. CHR 0x00 \<notin> set s"
  shows "let k = (fr_global_id dto, fr_cloud_id dto); known = k \<in> set (link_keys (db_tables d));
             ref = (fst k \<in> set (file_ids (db_tables d)) \<and> snd k \<in> set (cloud_ids (db_tables d)));
             (r, d') = add_file_link rc_ok dto d
         in (if known then r = Inr () \<and> d' = d
             else if ref then r = Inr () \<and>
               getFileByCloudIdAndGlobalId rc_ok (fr_cloud_id dto) (fr_global_id dto) d' =
                 (Inr (Some (record_link_info (fr_global_id dto) (fr_cloud_id dto)
                    (fr_cloud_parent_id dto) (fr_cloud_file_id dto) (fr_size dto)
                    (hash_str (fr_hash dto)) (fr_mtime dto))), d')
             else \<not> is_ok r \<and> d' = d)"
  using assms by (rule add_file_link_lookup)

subsection \<open>Moving and deleting\<close>

lemma find_map_key:
  assumes "\<And>x. k (g x) = k x"
  shows "find (\<lambda>x. k x = i) (map (\<lambda>x. if P (k x) then g x else x) xs) =
           map_option (\<lambda>x. if P (k x) then g x else x) (find (\<lambda>x. k x = i) xs)"
  by (rule find_map_same) (simp add: assms)

lemma file_id_found:
  "g \<in> set (file_ids t) \<Longrightarrow> \<exists>f. find (\<lambda>f. f_global_id f = g) (t_files t) = Some f"
  by (auto simp: key_defs find_None_iff simp flip: not_None_eq)

text \<open>
  A move: after \<open>update_file\<close> of a known file, its path reads back as the new path and
  its other columns but the time are unchanged; every other id keeps its path.
\<close>

theorem update_file_moved_path:
  assumes "db_snapshot d = None" and "fm_global_id dto \<in> set (file_ids (db_tables d))"
    and "plain_path (fm_new_rel_path dto)" and "CHR 0x00 \<notin> set (path_string (fm_new_rel_path dto))"
    and "update_file_moved rc dto d = (Inr (), d')"
  shows "getPathByGlobalId rc_ok (fm_global_id dto) d' = (Inr (fm_new_rel_path dto), d') \<and>
         fst (getFileByGlobalId rc_ok (fm_global_id dto) d') =
           (case fst (getFileByGlobalId rc_ok (fm_global_id dto) d) of
              Inl e \<Rightarrow> Inl e
            | Inr r \<Rightarrow> Inr (map_option (\<lambda>r. r\<lparr>fr_rel_path := fm_new_rel_path dto, fr_mtime := fm_mtime dto\<rparr>) r)) \<and>
         (\<forall>i. i = fm_global_id dto \<or>
              fst (getPathByGlobalId rc_ok i d') = fst (getPathByGlobalId rc_ok i d))"
proof -
  obtain t where "stmt_update_file_moved dto (db_tables d) = Some (t, ())" and d': "d' = d\<lparr>db_tables := t\<rparr>"
    using ufm.success_effect [OF assms(1), of rc dto] assms(5) by auto
  then have t: "t_files t = map (\<lambda>f. if f_global_id f = fm_global_id dto
      then f\<lparr>f_path := c_str (path_string (fm_new_rel_path dto)), f_mtime := fm_mtime dto\<rparr> else f)
        (t_files (db_tables d))"
    by (auto simp: stmt_update_file_moved_def update_files_def)
  note fm = find_map_key [where k = f_global_id and P = "\<lambda>i. i = fm_global_id dto"
      and g = "\<lambda>f. f\<lparr>f_path := c_str (path_string (fm_new_rel_path dto)), f_mtime := fm_mtime dto\<rparr>", simplified]
  obtain f where f: "find (\<lambda>f. f_global_id f = fm_global_id dto) (t_files (db_tables d)) = Some f"
    using file_id_found [OF assms(2)] by blast
  have i: "f_global_id f = fm_global_id dto" using find_Some_mem [OF f] by simp
  have a: "getPathByGlobalId rc_ok (fm_global_id dto) d' = (Inr (fm_new_rel_path dto), d')"
    using f i assms(3,4) by (simp add: lookup_defs sh_simps d' t fm path_string_roundtrip)
  have b: "fst (getFileByGlobalId rc_ok (fm_global_id dto) d') =
      (case fst (getFileByGlobalId rc_ok (fm_global_id dto) d) of
         Inl e \<Rightarrow> Inl e
       | Inr r \<Rightarrow> Inr (map_option (\<lambda>r. r\<lparr>fr_rel_path := fm_new_rel_path dto, fr_mtime := fm_mtime dto\<rparr>) r))"
    using f i assms(3,4) by (simp add: lookup_defs sh_simps d' t fm path_string_roundtrip)
  have c: "fst (getPathByGlobalId rc_ok i d') = fst (getPathByGlobalId rc_ok i d)"
    if "i \<noteq> fm_global_id dto" for i
  proof (cases "find (\<lambda>f. f_global_id f = i) (t_files (db_tables d))")
    case None
    then show ?thesis by (simp add: getPathByGlobalId_def sh_simps d' t fm)
  next
    case (Some x)
    then show ?thesis using that find_Some_mem [OF Some]
      by (simp add: getPathByGlobalId_def sh_simps d' t fm)
  qed
  show ?thesis using a b c by blast
qed

text \<open>
  C37. Deletion cascades: after \<open>delete_file_and_links\<close> neither the file nor any of its links
  is found, while every other file and link is found as before and clouds are untouched.
\<close>

theorem delete_cascades:
  assumes "db_snapshot d = None" and "delete_file_and_links rc g d = (Inr (), d')"
  shows "getFileByGlobalId rc_ok g d' = (Inr None, d') \<and>
         (\<forall>c. getFileByCloudIdAndGlobalId rc_ok c g d' = (Inr None, d')) \<and>
         (\<forall>i c. i = g \<or>
            fst (getFileByGlobalId rc_ok i d') = fst (getFileByGlobalId rc_ok i d) \<and>
            fst (getFileByCloudIdAndGlobalId rc_ok c i d') = fst (getFileByCloudIdAndGlobalId rc_ok c i d)) \<and>
         t_clouds (db_tables d') = t_clouds (db_tables d)"
proof -
  have d': "d' = d\<lparr>db_tables := delete_file g (db_tables d)\<rparr>"
    using dfl.success_effect [OF assms(1), of rc g] assms(2)
    by (auto simp: stmt_delete_file_and_links_def)
  have f: "find (\<lambda>f. f_global_id f = i) (filter (\<lambda>f. f_global_id f \<noteq> g) fs) =
      (if i = g then None else find (\<lambda>f. f_global_id f = i) fs)" for i fs
    by (induction fs) auto
  have l: "find (\<lambda>l. l_cloud_id l = c \<and> l_global_id l = i) (filter (\<lambda>l. l_global_id l \<noteq> g) ls) =
      (if i = g then None else find (\<lambda>l. l_cloud_id l = c \<and> l_global_id l = i) ls)" for c i ls
    by (induction ls) auto
  show ?thesis
    by (simp add: lookup_defs sh_simps d' delete_file_def f l split: option.split)
qed

subsection \<open>The missing part of a path\<close>

text \<open>A path every cloud knows: its first row exists and has as many links as there are clouds.\<close>

definition path_known :: "int \<Rightarrow> tables \<Rightarrow> string list \<Rightarrow> bool" where
  "path_known n t ss =
     (case find (\<lambda>f. f_path f = c_str (join_segs ss)) (t_files t) of
        None \<Rightarrow> False
      | Some f \<Rightarrow> int (length (filter (\<lambda>l. l_global_id l = narrow_int (f_global_id f)) (t_links t))) = n)"

lemma missing_from_prefix:
  assumes "list_all seg_ok (pre @ s # rest)"
  shows "missing_from \<lparr>rooted = False, segs = pre @ s # rest\<rparr> \<lparr>rooted = False, segs = pre @ [s]\<rparr>
           = \<lparr>rooted = False, segs = s # rest\<rparr>"
  using assms
  by (cases pre) (auto simp: missing_from_def parent_path_def lexically_relative_def up_count_def seg_ok_def)

lemma missing_loop_step:
  assumes "list_all seg_ok (pre @ s # rest)"
  shows "missing_loop (\<lambda>_. rc_ok) n norm \<lparr>rooted = False, segs = pre\<rparr> (s # rest) i d =
     (if path_known n (db_tables d) (pre @ [s])
      then missing_loop (\<lambda>_. rc_ok) n norm \<lparr>rooted = False, segs = pre @ [s]\<rparr> rest (Suc (Suc i)) d
      else (Inr (missing_from norm \<lparr>rooted = False, segs = pre @ [s]\<rparr>), d))"
proof -
  have "path_div \<lparr>rooted = False, segs = pre\<rparr> \<lparr>rooted = False, segs = [s]\<rparr> = \<lparr>rooted = False, segs = pre @ [s]\<rparr>"
    using assms by (subst path_div_plain) (simp_all add: plain_path_def)
  then show ?thesis
    by (cases d) (simp add: sh_simps path_known_def path_string_def count_links_def sql_defs Let_def
        split: option.split)
qed

lemma missing_loop_spec:
  assumes "list_all seg_ok (pre @ rest)"
  shows "\<exists>k \<le> length rest.
     missing_loop (\<lambda>_. rc_ok) n \<lparr>rooted = False, segs = pre @ rest\<rparr> \<lparr>rooted = False, segs = pre\<rparr> rest i d
       = (Inr \<lparr>rooted = False, segs = drop k rest\<rparr>, d) \<and>
     (\<forall>j < k. path_known n (db_tables d) (pre @ take (Suc j) rest)) \<and>
     (k < length rest \<longrightarrow> \<not> path_known n (db_tables d) (pre @ take (Suc k) rest))"
  using assms
proof (induction rest arbitrary: pre i)
  case Nil
  then show ?case by simp
next
  case (Cons s rest)
  show ?case
  proof (cases "path_known n (db_tables d) (pre @ [s])")
    case True
    obtain k where k: "k \<le> length rest"
      "missing_loop (\<lambda>_. rc_ok) n \<lparr>rooted = False, segs = pre @ s # rest\<rparr>
         \<lparr>rooted = False, segs = pre @ [s]\<rparr> rest (Suc (Suc i)) d
       = (Inr \<lparr>rooted = False, segs = drop k rest\<rparr>, d)"
      "\<forall>j < k. path_known n (db_tables d) (pre @ s # take (Suc j) rest)"
      "k < length rest \<longrightarrow> \<not> path_known n (db_tables d) (pre @ s # take (Suc k) rest)"
      using Cons.IH [of "pre @ [s]" "Suc (Suc i)"] Cons.prems by auto
    have "\<forall>j < Suc k. path_known n (db_tables d) (pre @ take (Suc j) (s # rest))"
      using k(3) True by (auto simp: less_Suc_eq_0_disj)
    then show ?thesis using k True
      by (intro exI [of _ "Suc k"]) (simp add: missing_loop_step [OF Cons.prems] del: missing_loop.simps)
  next
    case False
    then show ?thesis
      by (intro exI [of _ 0]) (simp add: missing_loop_step [OF Cons.prems]
          missing_from_prefix [OF Cons.prems] del: missing_loop.simps)
  qed
qed

text \<open>
  C38. \<open>getMissingPathPart\<close> cuts a path exactly at the longest prefix whose every directory is
  known to all clouds: the result is what remains after \<open>k\<close> elements, the \<open>k\<close> leading
  directories each have a row with one link per cloud, and the next one (if any) has not.
\<close>

theorem getMissingPathPart_cut:
  assumes "plain_path p"
  shows "\<exists>k \<le> length (segs p).
     getMissingPathPart (\<lambda>_. rc_ok) p n d = (Inr \<lparr>rooted = False, segs = drop k (segs p)\<rparr>, d) \<and>
     (\<forall>j < k. path_known n (db_tables d) (take (Suc j) (segs p))) \<and>
     (k < length (segs p) \<longrightarrow> \<not> path_known n (db_tables d) (take (Suc k) (segs p)))"
proof -
  have "normalizePath p = \<lparr>rooted = False, segs = [] @ segs p\<rparr>"
    using normalizePath_plain [OF assms] by (cases p) simp
  then show ?thesis
    using missing_loop_spec [of "[]" "segs p" n 0 d] assms
    by (simp add: getMissingPathPart_def plain_path_def)
qed

subsection \<open>A sample database\<close>

text \<open>One cloud, one directory linked to it: the inputs at which the properties are applied.\<close>

definition sample_tables :: tables where
  "sample_tables =
     \<lparr>t_metadata = [(''local_dir'', ''/home/u'')],
      t_clouds = [\<lparr>c_config_id = 1, c_name = ''g'', c_type = ''GoogleDrive'', c_data = ''{}''\<rparr>],
      t_files = [\<lparr>f_global_id = 1, f_type = ''Directory'', f_path = ''a'', f_size = 0,
                  f_local_hash = 0, f_mtime = 5, f_file_id = 11\<rparr>],
      t_links = [\<lparr>l_global_id = 1, l_cloud_id = 1, l_cloud_file_id = ''x'', l_parent_id = ''r'',
                  l_mtime = 5, l_hash = ''h'', l_size = 0\<rparr>],
      t_seq_files = 1, t_seq_clouds = 1\<rparr>"

definition sample_conn :: conn where
  "sample_conn = conn_open sample_tables"

definition sample_file :: file_record_dto where
  "sample_file = record_local_new File \<lparr>rooted = False, segs = [''a'', ''b'']\<rparr> 3 7 9 12"

lemma sample_facts [simp]:
  "db_snapshot sample_conn = None" "db_tables sample_conn = sample_tables" "tables_ok sample_tables"
  "t_seq_files sample_tables = 1" "file_ids sample_tables = [1]" "cloud_ids sample_tables = [1]"
  "link_keys sample_tables = [(1, 1)]" "fr_rel_path sample_file = \<lparr>rooted = False, segs = [''a'', ''b'']\<rparr>"
  by (simp_all add: sample_conn_def conn_open_def sample_tables_def tables_ok_def key_defs link_key_def
      sample_file_def record_local_new_def)



lemma add_file_found_witness:
  "getFileByGlobalId rc_ok 2 (snd (add_file rc_ok sample_file sample_conn)) =
     (Inr (Some (record_local_info 2 File \<lparr>rooted = False, segs = [''a'', ''b'']\<rparr> 3 9 7 12)),
      snd (add_file rc_ok sample_file sample_conn))"
proof -
  have a: "add_file rc_ok sample_file sample_conn = (Inr 2, snd (add_file rc_ok sample_file sample_conn))"
    by (simp add: add_file_def run_write_eq stmt_add_file_def insert_file_def narrow_int_id)
  have "plain_path (fr_rel_path sample_file)" "CHR 0x00 \<notin> set (path_string (fr_rel_path sample_file))"
    by (simp_all add: plain_path_def seg_ok_def path_string_def)
  from add_file_found [OF _ _ _ this a] show ?thesis
    by (simp add: sample_file_def record_local_new_def)
qed

lemma add_file_link_found_witness:
  "fst (add_file_link rc_ok (sample_file\<lparr>fr_global_id := 1, fr_cloud_id := 7\<rparr>) sample_conn) \<noteq> Inr ()"
  using add_file_link_found [of sample_conn "sample_file\<lparr>fr_global_id := 1, fr_cloud_id := 7\<rparr>"]
  by (auto simp: sample_file_def record_local_new_def split: prod.splits)

lemma update_file_moved_path_witness:
  "getPathByGlobalId rc_ok 1
     (snd (update_file_moved rc_ok (moved_local Directory 1 6 \<lparr>rooted = False, segs = [''a'']\<rparr> \<lparr>rooted = False, segs = [''c'']\<rparr>) sample_conn))
   = (Inr \<lparr>rooted = False, segs = [''c'']\<rparr>,
      snd (update_file_moved rc_ok (moved_local Directory 1 6 \<lparr>rooted = False, segs = [''a'']\<rparr> \<lparr>rooted = False, segs = [''c'']\<rparr>) sample_conn))"
proof -
  let ?m = "moved_local Directory 1 6 \<lparr>rooted = False, segs = [''a'']\<rparr> \<lparr>rooted = False, segs = [''c'']\<rparr>"
  have a: "update_file_moved rc_ok ?m sample_conn = (Inr (), snd (update_file_moved rc_ok ?m sample_conn))"
    by (simp add: update_file_moved_def run_write_eq stmt_update_file_moved_def)
  have "fm_global_id ?m \<in> set (file_ids (db_tables sample_conn))" "plain_path (fm_new_rel_path ?m)"
    "CHR 0x00 \<notin> set (path_string (fm_new_rel_path ?m))"
    by (simp_all add: moved_local_def plain_path_def seg_ok_def path_string_def)
  from update_file_moved_path [OF _ this a] show ?thesis by (simp add: moved_local_def)
qed

lemma delete_cascades_witness:
  "fst (getFileByCloudIdAndGlobalId rc_ok 1 1 (snd (delete_file_and_links rc_ok 1 sample_conn))) = Inr None"
proof -
  have "delete_file_and_links rc_ok 1 sample_conn = (Inr (), snd (delete_file_and_links rc_ok 1 sample_conn))"
    by (simp add: delete_file_and_links_def run_write_eq stmt_delete_file_and_links_def)
  from delete_cascades [OF _ this] show ?thesis by simp
qed

lemma getMissingPathPart_cut_witness:
  "fst (getMissingPathPart (\<lambda>_. rc_ok) \<lparr>rooted = True, segs = [''a'', ''b'']\<rparr> 1 sample_conn)
     = Inr \<lparr>rooted = False, segs = [''b'']\<rparr>"
proof -
  have k: "path_known 1 sample_tables [''a'']" "\<not> path_known 1 sample_tables [''a'', ''b'']"
    by (simp_all add: path_known_def sample_tables_def narrow_int_id c_str_def)
  obtain k where "k \<le> 2" "getMissingPathPart (\<lambda>_. rc_ok) \<lparr>rooted = True, segs = [''a'', ''b'']\<rparr> 1 sample_conn
      = (Inr \<lparr>rooted = False, segs = drop k [''a'', ''b'']\<rparr>, sample_conn)"
    "\<forall>j < k. path_known 1 sample_tables (take (Suc j) [''a'', ''b''])"
    "k < 2 \<longrightarrow> \<not> path_known 1 sample_tables (take (Suc k) [''a'', ''b''])"
    using getMissingPathPart_cut [of "\<lparr>rooted = True, segs = [''a'', ''b'']\<rparr>" 1 sample_conn]
    by (auto simp: plain_path_def seg_ok_def numeral_2_eq_2)
  moreover have "k \<noteq> 0" using k(1) calculation(4) by (intro notI) simp
  moreover have "k \<noteq> 2" using k(2) calculation(3) by (auto dest: spec [of _ 1])
  moreover have "k = 1" using calculation by linarith
  ultimately show ?thesis by simp
qed

end
