(* ===== verification/Effects.thy ===== *)
theory Effects
  imports FileSystem DatabaseProps
begin

text \<open>
  The state every component works on (file system, database, return codes of SQLite still
  to come), and actions on a state that return a value or throw. An action that throws
  keeps the effects made before, as a C++ exception does. The program opens the database
  file twice (in \<open>SyncManager\<close> and in \<open>CallbackDispatcher\<close>); every writing operation is
  one closed transaction, so both connections are one sequence of operations on \<open>w_db\<close>,
  and a refusal because of the other connection is a failing return code.
\<close>

subsection \<open>Actions\<close>

type_synonym ('w, 'a) act = "'w \<Rightarrow> 'a res \<times> 'w"

definition ret :: "'a \<Rightarrow> ('w, 'a) act" where
  "ret x w = (Inr x, w)"

definition throw :: "exn \<Rightarrow> ('w, 'a) act" where
  "throw e w = (Inl e, w)"

definition andThen :: "('w, 'a) act \<Rightarrow> ('a \<Rightarrow> ('w, 'b) act) \<Rightarrow> ('w, 'b) act" where
  "andThen m f w = (case m w of (Inl e, w1) \<Rightarrow> (Inl e, w1) | (Inr x, w1) \<Rightarrow> f x w1)"

definition modify :: "('w \<Rightarrow> 'w) \<Rightarrow> ('w, unit) act" where
  "modify g w = (Inr (), g w)"

definition query :: "('w \<Rightarrow> 'a) \<Rightarrow> ('w, 'a) act" where
  "query g w = (Inr (g w), w)"

definition lift_res :: "'a res \<Rightarrow> ('w, 'a) act" where
  "lift_res r w = (r, w)"

fun for_each :: "('x \<Rightarrow> ('w, 'y) act) \<Rightarrow> 'x list \<Rightarrow> ('w, 'y list) act" where
  "for_each f [] = ret []"
| "for_each f (x # xs) = andThen (f x) (\<lambda>y. andThen (for_each f xs) (\<lambda>ys. ret (y # ys)))"

lemma act_simps [simp]:
  "ret x w = (Inr x, w)" "throw e w = (Inl e, w)" "modify g w = (Inr (), g w)"
  "query q w = (Inr (q w), w)" "lift_res r w = (r, w)"
  by (simp_all add: ret_def throw_def modify_def query_def lift_res_def)

lemma andThen_Inl [simp]: "m w = (Inl e, w1) \<Longrightarrow> andThen m f w = (Inl e, w1)"
  by (simp add: andThen_def)

lemma andThen_Inr [simp]: "m w = (Inr x, w1) \<Longrightarrow> andThen m f w = f x w1"
  by (simp add: andThen_def)

lemma andThen_basic [simp]:
  "andThen (ret x) f w = f x w" "andThen (throw e) f w = (Inl e, w)"
  "andThen (modify g) k w = k () (g w)" "andThen (query q) h w = h (q w) w"
  "andThen (lift_res (Inl e)) f w = (Inl e, w)" "andThen (lift_res (Inr x)) f w = f x w"
  by (simp_all add: andThen_def)

lemma andThen_ok:
  "andThen m f w = (Inr y, w2) \<longleftrightarrow> (\<exists>x w1. m w = (Inr x, w1) \<and> f x w1 = (Inr y, w2))"
  by (auto simp: andThen_def split: prod.splits sum.splits)

lemma andThen_assoc: "andThen (andThen m f) g w = andThen m (\<lambda>x. andThen (f x) g) w"
  by (simp add: andThen_def split: prod.splits sum.splits)

text \<open>A property that every part keeps is kept by the sequence, whether or not it throws.\<close>

lemma andThen_keeps:
  assumes "P (snd (m w))" and "\<And>x w1. m w = (Inr x, w1) \<Longrightarrow> P (snd (f x w1))"
  shows "P (snd (andThen m f w))"
  using assms by (auto simp: andThen_def split: prod.splits sum.splits)

lemma for_each_length: "for_each f xs w = (Inr ys, w1) \<Longrightarrow> length ys = length xs"
  by (induction xs arbitrary: w ys w1) (auto simp: andThen_ok)

lemma for_each_keeps:
  assumes "P w" and "\<And>x w. P w \<Longrightarrow> P (snd (f x w))"
  shows "P (snd (for_each f xs w))"
  using assms(1)
proof (induction xs arbitrary: w)
  case Nil
  then show ?case by simp
next
  case (Cons x xs)
  show ?case unfolding for_each.simps
  proof (rule andThen_keeps)
    show "P (snd (f x w))" using Cons.prems by (rule assms(2))
  next
    fix y w1
    assume "f x w = (Inr y, w1)"
    then have "P w1" using assms(2) [OF Cons.prems, of x] by simp
    then have *: "P (snd (for_each f xs w1))" by (rule Cons.IH)
    then show "P (snd (andThen (for_each f xs) (\<lambda>ys. ret (y # ys)) w1))"
      by (rule andThen_keeps) (use * in simp)
  qed
qed

text \<open>
  A reflexive and transitive relation between states that every part of an action respects
  is respected by the whole, whether or not it throws.
\<close>

locale step_rel =
  fixes R :: "'w \<Rightarrow> 'w \<Rightarrow> bool"
  assumes R_refl: "R w w"
    and R_trans: "R w w1 \<Longrightarrow> R w1 w2 \<Longrightarrow> R w w2"
begin

lemma R_basic: "R w (snd (ret x w))" "R w (snd (throw e w))" "R w (snd (query q w))" "R w (snd (lift_res r w))"
  by (simp_all add: R_refl)

lemma R_andThen:
  assumes "R w (snd (m w))" and "\<And>x w1. m w = (Inr x, w1) \<Longrightarrow> R w1 (snd (f x w1))"
  shows "R w (snd (andThen m f w))"
proof (cases "m w")
  case (Pair r w1)
  show ?thesis
  proof (cases r)
    case (Inl e)
    then show ?thesis using assms(1) Pair by simp
  next
    case (Inr x)
    then show ?thesis using R_trans [of w w1] assms(1) assms(2) [of x w1] Pair by simp
  qed
qed

lemma R_for_each:
  assumes "\<And>x w. R w (snd (f x w))"
  shows "R w (snd (for_each f xs w))"
proof (induction xs arbitrary: w)
  case Nil
  show ?case by (simp add: R_refl)
next
  case (Cons x xs)
  show ?case unfolding for_each.simps
    by (intro R_andThen) (simp_all add: assms Cons.IH R_refl)
qed

lemmas R_rules = R_refl R_basic R_andThen R_for_each

end

text \<open>Pre- and postconditions of an action; the last one is for the state in which it throws.\<close>

definition valid :: "('w \<Rightarrow> bool) \<Rightarrow> ('w, 'a) act \<Rightarrow> ('a \<Rightarrow> 'w \<Rightarrow> bool) \<Rightarrow> ('w \<Rightarrow> bool) \<Rightarrow> bool" where
  "valid P m Q E \<longleftrightarrow>
     (\<forall>w. P w \<longrightarrow> (case m w of (Inl e, w1) \<Rightarrow> E w1 | (Inr x, w1) \<Rightarrow> Q x w1))"

lemma valid_andThen:
  assumes "valid P m Q E" and "\<And>x. valid (Q x) (f x) R E"
  shows "valid P (andThen m f) R E"
  using assms unfolding valid_def andThen_def by (fastforce split: prod.splits sum.splits)

lemma valid_ret: "(\<And>w. P w \<Longrightarrow> Q x w) \<Longrightarrow> valid P (ret x) Q E"
  by (simp add: valid_def)

lemma valid_throw: "(\<And>w. P w \<Longrightarrow> E w) \<Longrightarrow> valid P (throw e) Q E"
  by (simp add: valid_def)

lemma valid_modify: "(\<And>w. P w \<Longrightarrow> Q () (g w)) \<Longrightarrow> valid P (modify g) Q E"
  by (simp add: valid_def)

lemma valid_query: "(\<And>w. P w \<Longrightarrow> Q (q w) w) \<Longrightarrow> valid P (query q) Q E"
  by (simp add: valid_def)

lemma valid_lift:
  "(\<And>w x. P w \<Longrightarrow> r = Inr x \<Longrightarrow> Q x w) \<Longrightarrow> (\<And>w. P w \<Longrightarrow> E w) \<Longrightarrow> valid P (lift_res r) Q E"
  by (cases r) (simp_all add: valid_def)

lemma valid_pre: "valid P' m Q E \<Longrightarrow> (\<And>w. P w \<Longrightarrow> P' w) \<Longrightarrow> valid P m Q E"
  by (simp add: valid_def)

lemma valid_post: "valid P m Q' E \<Longrightarrow> (\<And>x w. Q' x w \<Longrightarrow> Q x w) \<Longrightarrow> valid P m Q E"
  unfolding valid_def by (fastforce split: prod.splits sum.splits)

lemma valid_state: "(\<And>w. P w \<Longrightarrow> P (snd (m w))) \<Longrightarrow> (\<And>w. P w \<Longrightarrow> E w) \<Longrightarrow> valid P m (\<lambda>_. P) E"
  unfolding valid_def by (fastforce split: prod.splits sum.splits)

lemma valid_at: "(\<And>w. P w \<Longrightarrow> valid P (f w) Q E) \<Longrightarrow> valid P (\<lambda>w. f w w) Q E"
  by (simp add: valid_def)

lemma valid_for_each:
  assumes "\<And>x. x \<in> set xs \<Longrightarrow> valid P (f x) (\<lambda>_. P) E"
  shows "valid P (for_each f xs) (\<lambda>_. P) E"
  using assms
proof (induction xs)
  case Nil
  show ?case unfolding for_each.simps by (rule valid_ret)
next
  case (Cons x xs)
  have h: "valid P (f x) (\<lambda>_. P) E" by (rule Cons.prems) simp
  have t: "valid P (for_each f xs) (\<lambda>_. P) E" by (rule Cons.IH) (rule Cons.prems, simp)
  show ?case unfolding for_each.simps
    by (rule valid_andThen [OF h], rule valid_andThen [OF t], rule valid_ret)
qed

subsection \<open>The shared state\<close>

record sys =
  w_fs :: fs
  w_db :: conn
  w_rc :: "nat \<Rightarrow> sqlite_rc"
  w_calls :: nat

text \<open>An operation of \<open>Database\<close>, with the return codes that come next.\<close>

definition db_call :: "(sqlite_rc \<Rightarrow> conn \<Rightarrow> 'a res \<times> conn) \<Rightarrow> ('s sys_scheme, 'a) act" where
  "db_call f w =
     (let (r, d) = f (w_rc w (w_calls w)) (w_db w)
      in (r, w\<lparr>w_db := d, w_calls := Suc (w_calls w)\<rparr>))"

definition db_call2 :: "(sqlite_rc \<Rightarrow> sqlite_rc \<Rightarrow> conn \<Rightarrow> 'a res \<times> conn) \<Rightarrow> ('s sys_scheme, 'a) act" where
  "db_call2 f w =
     (let (r, d) = f (w_rc w (w_calls w)) (w_rc w (Suc (w_calls w))) (w_db w)
      in (r, w\<lparr>w_db := d, w_calls := w_calls w + 2\<rparr>))"

text \<open>An operation with one statement per loop turn draws a whole block of codes.\<close>

definition db_call_seq :: "((nat \<Rightarrow> sqlite_rc) \<Rightarrow> conn \<Rightarrow> 'a res \<times> conn) \<Rightarrow> nat \<Rightarrow> ('s sys_scheme, 'a) act" where
  "db_call_seq f n w =
     (let (r, d) = f (\<lambda>i. w_rc w (w_calls w + i)) (w_db w)
      in (r, w\<lparr>w_db := d, w_calls := w_calls w + n\<rparr>))"

definition fs_call :: "(fs \<Rightarrow> 'a res \<times> fs) \<Rightarrow> ('s sys_scheme, 'a) act" where
  "fs_call f w = (let (r, g) = f (w_fs w) in (r, w\<lparr>w_fs := g\<rparr>))"

definition fs_query :: "(fs \<Rightarrow> 'a res) \<Rightarrow> ('s sys_scheme, 'a) act" where
  "fs_query f w = (f (w_fs w), w)"

lemma db_call_frame [simp, frame]:
  "w_fs (snd (db_call f w)) = w_fs w" "w_rc (snd (db_call f w)) = w_rc w"
  "sys.more (snd (db_call f w)) = sys.more w"
  by (simp_all add: db_call_def split: prod.splits)

lemma fs_call_frame [simp, frame]:
  "w_db (snd (fs_call f w)) = w_db w" "w_rc (snd (fs_call f w)) = w_rc w"
  "sys.more (snd (fs_call f w)) = sys.more w"
  by (simp_all add: fs_call_def split: prod.splits)

lemma fs_query_state [simp, frame]: "snd (fs_query f w) = w"
  by (simp add: fs_query_def)

text \<open>The state of the database between operations.\<close>

definition db_ok :: "conn \<Rightarrow> bool" where
  "db_ok d \<longleftrightarrow> db_snapshot d = None \<and> tables_ok (db_tables d)"

lemma db_exec_db_ok: "db_ok d \<Longrightarrow> db_ok (snd (db_exec dump rc w d))"
  using db_exec_ok [of d dump rc w] db_exec_closes [of d dump rc w] by (simp add: db_ok_def)

lemma writes_db_ok [keeps]:
  assumes "db_ok d"
  shows "db_ok (snd (add_file rc a d))" "db_ok (snd (add_file_link rc a d))"
    "db_ok (snd (update_file_link_updated rc u d))" "db_ok (snd (update_file_updated rc u d))"
    "db_ok (snd (update_file_link_moved rc m d))" "db_ok (snd (update_file_moved rc m d))"
    "db_ok (snd (delete_file_and_links rc g d))"
  using db_exec_db_ok [OF assms, of _ rc "AddFile a"] db_exec_db_ok [OF assms, of _ rc "AddFileLink a"]
    db_exec_db_ok [OF assms, of _ rc "UpdateLinkUpdated u"] db_exec_db_ok [OF assms, of _ rc "UpdateFileUpdated u"]
    db_exec_db_ok [OF assms, of _ rc "UpdateLinkMoved m"] db_exec_db_ok [OF assms, of _ rc "UpdateFileMoved m"]
    db_exec_db_ok [OF assms, of _ rc "DeleteFileAndLinks g"]
  by simp_all

lemma reads_frame [simp, frame]:
  "snd (getFileByFileId rc i d) = d" "snd (getFileByPath rc p d) = d" "snd (getFileByGlobalId rc g d) = d"
  "snd (getPathByGlobalId rc g d) = d" "snd (getGlobalIdByPath rc p d) = d"
  "snd (getFileByCloudIdAndCloudFileId rc c s d) = d" "snd (getFileByCloudIdAndGlobalId rc c g d) = d"
  "snd (get_cloud_file_id_by_cloud_id rc c g d) = d" "snd (getGlobalIdByFileId rc i d) = d"
  "snd (quickPathCheck rc p d) = d"
  by (auto simp: lookup_defs run_query_def sql_defs Let_def split: prod.splits option.splits)

lemma getCloudFileIdByPath_frame [simp, frame]: "snd (getCloudFileIdByPath rc1 rc2 p c d) = d"
  by (auto simp: getCloudFileIdByPath_def run_query_def sql_defs Let_def split: prod.splits option.splits)

end
