(* ===== verification/Format.thy ===== *)
theory Format
  imports Effects
begin

text \<open>
  The format strings of \<open>Logger::log\<close> (\<open>include/logger.h\<close>) and \<open>snprintf\<close> as far as its
  arguments are texts and integers. Most calls have a literal format, whose conversions fit
  the arguments. Five calls in \<open>src/commands.cpp\<close> and \<open>src/LocalStorage.cpp\<close> have the path
  of an entry where the format belongs, so the name of a file is read as one. A conversion
  that has no argument, or one of another type, is undefined behaviour: the error
  \<open>UndefinedFormat\<close>. (\<open>%p\<close>, which would print an address, counts as undefined too; an
  integer of another width is read by its low bits.)
\<close>

subsection \<open>Conversions\<close>

datatype log_arg = ArgText string | ArgInt int

text \<open>
  What follows a percent sign: a text with flag \<open>-\<close>, width and precision, an integer with its
  width in bits and sign, or the percent sign itself. The flags plus and space do nothing to
  a text.
\<close>

datatype conversion =
    ConvText bool nat "nat option"
  | ConvInt bool nat
  | ConvPercent

definition is_decimal :: "char \<Rightarrow> bool" where
  "is_decimal c \<longleftrightarrow> c \<in> set ''0123456789''"

definition decimal_val :: "string \<Rightarrow> nat" where
  "decimal_val s = foldl (\<lambda>n c. 10 * n + (of_char c - 48)) 0 s"

fun read_precision :: "string \<Rightarrow> nat option \<times> string" where
  "read_precision [] = (None, [])"
| "read_precision (c # s) =
     (if c = CHR ''.'' then (Some (decimal_val (takeWhile is_decimal s)), dropWhile is_decimal s) else (None, c # s))"

definition read_text_conv :: "string \<Rightarrow> (conversion \<times> string) option" where
  "read_text_conv s =
     (let fl = takeWhile (\<lambda>c. c \<in> set ''-+ '') s; s1 = dropWhile (\<lambda>c. c \<in> set ''-+ '') s;
          (prec, s2) = read_precision (dropWhile is_decimal s1)
      in case s2 of
           [] \<Rightarrow> None
         | c # r \<Rightarrow>
             (if c = CHR ''s''
              then Some (ConvText (CHR ''-'' \<in> set fl) (decimal_val (takeWhile is_decimal s1)) prec, r) else None))"

definition read_conv :: "string \<Rightarrow> (conversion \<times> string) option" where
  "read_conv s =
     (if starts_with ''%'' s then Some (ConvPercent, drop 1 s)
      else if starts_with ''d'' s \<or> starts_with ''i'' s then Some (ConvInt True 32, drop 1 s)
      else if starts_with ''lli'' s then Some (ConvInt True 64, drop 3 s)
      else if starts_with ''zu'' s then Some (ConvInt False 64, drop 2 s)
      else read_text_conv s)"

definition pad_text :: "bool \<Rightarrow> nat \<Rightarrow> string \<Rightarrow> string" where
  "pad_text left n s =
     (let blanks = replicate (n - length s) (CHR '' '') in if left then s @ blanks else blanks @ s)"

definition int_bits :: "bool \<Rightarrow> nat \<Rightarrow> int \<Rightarrow> int" where
  "int_bits with_sign bits i = (if with_sign then signed_take_bit (bits - 1) i else take_bit bits i)"

text \<open>The output of one conversion and the arguments left; \<open>None\<close> where it is undefined.\<close>

fun convert :: "conversion \<Rightarrow> log_arg list \<Rightarrow> (string \<times> log_arg list) option" where
  "convert ConvPercent as = Some (''%'', as)"
| "convert (ConvText left n prec) (ArgText t # as) =
     Some (pad_text left n (case prec of None \<Rightarrow> c_str t | Some p \<Rightarrow> take p (c_str t)), as)"
| "convert (ConvInt with_sign bits) (ArgInt i # as) = Some (int_string (int_bits with_sign bits i), as)"
| "convert _ _ = None"

subsection \<open>\<open>snprintf\<close>\<close>

lemma read_precision_shorter: "read_precision s = (p, r) \<Longrightarrow> length r \<le> length s"
  by (cases s) (auto split: if_splits intro: le_SucI length_dropWhile_le)

lemma read_conv_shorter: "read_conv s = Some (cv, r) \<Longrightarrow> length r \<le> length s"
proof -
  have "length r \<le> length s" if t: "read_text_conv s = Some (cv, r)"
  proof -
    let ?s1 = "dropWhile (\<lambda>c. c \<in> set ''-+ '') s"
    obtain prec s2 where p: "read_precision (dropWhile is_decimal ?s1) = (prec, s2)" by fastforce
    have "length r \<le> length s2" using t p by (auto simp: read_text_conv_def Let_def split: list.splits if_splits)
    also have "\<dots> \<le> length (dropWhile is_decimal ?s1)" by (rule read_precision_shorter [OF p])
    also have "\<dots> \<le> length s" by (meson length_dropWhile_le le_trans)
    finally show ?thesis .
  qed
  then show "read_conv s = Some (cv, r) \<Longrightarrow> length r \<le> length s"
    by (auto simp: read_conv_def split: if_splits)
qed

function printf :: "string \<Rightarrow> log_arg list \<Rightarrow> string option" where
  "printf [] as = Some []"
| "printf (c # s) as =
     (if c \<noteq> CHR ''%'' then map_option ((#) c) (printf s as)
      else (case read_conv s of
              None \<Rightarrow> None
            | Some (cv, r) \<Rightarrow>
                (case convert cv as of
                   None \<Rightarrow> None
                 | Some (t, as1) \<Rightarrow> map_option ((@) t) (printf r as1))))"
  by pat_completeness auto

termination
  by (relation "measure (\<lambda>(s, as). length s)") (auto dest: read_conv_shorter)

declare printf.simps(2) [simp del]

text \<open>The message of a call with arguments; both hand over their texts as C strings.\<close>

definition log_text :: "string \<Rightarrow> log_arg list \<Rightarrow> string option" where
  "log_text format as = printf (c_str format) as"

text \<open>What a call means to the code around it: nothing, unless the format is undefined.\<close>

definition log_format :: "string \<Rightarrow> log_arg list \<Rightarrow> ('w, unit) act" where
  "log_format format as = (if log_text format as = None then throw UndefinedFormat else ret ())"

subsection \<open>Formats without and with too many conversions\<close>

lemma printf_plain: "CHR ''%'' \<notin> set s \<Longrightarrow> printf s as = Some s"
  by (induction s) (auto simp: printf.simps(2))

lemma log_text_plain: "CHR ''%'' \<notin> set s \<Longrightarrow> log_text s as = Some (c_str s)"
  unfolding log_text_def by (rule printf_plain) (auto simp: c_str_def dest: set_takeWhileD)

lemma log_format_plain [simp]: "CHR ''%'' \<notin> set s \<Longrightarrow> log_format s as = ret ()"
  by (simp add: log_format_def log_text_plain)

lemma log_format_frame: "snd (log_format s as w) = w"
  by (simp add: log_format_def)

lemma log_format_ok [simp]: "log_format s as w = (Inr u, w1) \<longleftrightarrow> log_text s as \<noteq> None \<and> w1 = w"
  by (auto simp: log_format_def)

lemma printf_append:
  "CHR ''%'' \<notin> set s \<Longrightarrow> printf (s @ t) as = map_option ((@) s) (printf t as)"
  by (induction s; cases "printf t as") (auto simp: printf.simps(2))

text \<open>More text conversions than arguments: there is no output.\<close>

lemma read_conv_s [simp]: "read_conv (CHR ''s'' # r) = Some (ConvText False 0 None, r)"
  by (simp add: read_conv_def read_text_conv_def starts_with_def is_decimal_def decimal_val_def)

end
