(* ===== verification/Handles.thy ===== *)
theory Handles
  imports Paths
begin

text \<open>
  \<open>src/request-handle.cpp\<close>: a curl easy handle with its headers, its file stream, the
  buffered response and the retry schedule; and the classification of HTTP answers shared
  by \<open>HttpClient::syncRequest\<close> and \<open>HttpClient::largeRequestsWorker\<close>. libcurl is not
  modelled: the options given to it are recorded in the order in which they are set. The
  clock and the random jitter are arguments.
\<close>

subsection \<open>The handle\<close>

text \<open>A part of a multipart body: its name, its text or the file it is read from, its content type.\<close>

datatype mime_part = MimeData string string string | MimeFile string string string

datatype curl_opt =
    Url string
  | CustomRequest string
  | HttpGet bool
  | Post bool
  | PostFields string
  | CopyPostFields string
  | Upload bool
  | MimePost "mime_part list"
  | HttpVersion2TLS
  | AcceptEncoding string
  | SslSessionCache bool
  | TcpKeepAlive bool
  | TcpNoDelay bool
  | FollowLocation bool
  | BufferSize nat
  | MaxSendSpeed nat
  | MaxRecvSpeed nat
  | WriteToResponse
  | WriteToFile
  | ReadFromFile
  | HttpHeader "string list"
  | Resolve "string list"

datatype open_mode = ModeIn | ModeOut

text \<open>
  An open \<open>std::fstream\<close>: the bytes of the file, the common read and write position, and
  whether the state bits are clear.
\<close>

record stream =
  st_path :: path
  st_mode :: open_mode
  st_data :: string
  st_pos :: nat
  st_good :: bool

record handle =
  h_curl :: bool
  h_mime :: bool
  h_headers :: "string list"
  h_opts :: "curl_opt list"
  h_timer :: int
  h_stream :: "stream option"
  h_response :: string
  h_retry :: nat

text \<open>\<open>curl_easy_init\<close> may fail: \<open>ok\<close>. The list is \<open>_global_resolve\<close>, empty for null.\<close>

definition RequestHandle :: "bool \<Rightarrow> string list \<Rightarrow> handle" where
  "RequestHandle ok resolve =
     \<lparr>h_curl = ok, h_mime = False, h_headers = [],
      h_opts = (if resolve \<noteq> [] then [Resolve resolve] else []),
      h_timer = 0, h_stream = None, h_response = [], h_retry = 0\<rparr>"

text \<open>
  Moving a handle, as a constructor and as an assignment: the result and what is left behind. The
  options go with the curl handle, the response does not go along.
\<close>

definition moved_from :: "handle \<Rightarrow> handle" where
  "moved_from h = h\<lparr>h_curl := False, h_mime := False, h_headers := [], h_opts := [], h_stream := None\<rparr>"

definition move_handle :: "handle \<Rightarrow> handle \<times> handle" where
  "move_handle h =
     (\<lparr>h_curl = h_curl h, h_mime = h_mime h, h_headers = h_headers h, h_opts = h_opts h, h_timer = h_timer h,
       h_stream = h_stream h, h_response = [], h_retry = h_retry h\<rparr>, moved_from h)"

definition assign_handle :: "handle \<Rightarrow> handle \<Rightarrow> handle \<times> handle" where
  "assign_handle target h = ((fst (move_handle h))\<lparr>h_response := h_response target\<rparr>, moved_from h)"

definition setopt :: "curl_opt \<Rightarrow> handle \<Rightarrow> handle" where
  "setopt c h = h\<lparr>h_opts := h_opts h @ [c]\<rparr>"

definition addHeaders :: "string \<Rightarrow> handle \<Rightarrow> handle" where
  "addHeaders s h = h\<lparr>h_headers := h_headers h @ [c_str s]\<rparr>"

definition clearHeaders :: "handle \<Rightarrow> handle" where
  "clearHeaders h = h\<lparr>h_headers := []\<rparr>"

definition setCommonCURLOpt :: "handle \<Rightarrow> handle" where
  "setCommonCURLOpt h =
     (let h1 = h\<lparr>h_opts := h_opts h @
                [HttpVersion2TLS, AcceptEncoding ''gzip, deflate'', SslSessionCache True,
                 TcpKeepAlive True, TcpNoDelay True, FollowLocation True, BufferSize 131072,
                 MaxSendSpeed 0, MaxRecvSpeed 0, WriteToResponse]\<rparr>
      in if h_headers h1 \<noteq> [] then setopt (HttpHeader (h_headers h1)) h1 else h1)"

text \<open>
  \<open>setFileStream\<close>: the file system answers with the bytes of the file, or \<open>None\<close> when it
  cannot be opened. Opening for writing truncates.
\<close>

definition setFileStream :: "path \<Rightarrow> open_mode \<Rightarrow> string option \<Rightarrow> handle \<Rightarrow> handle res" where
  "setFileStream p m file h =
     (case file of
        None \<Rightarrow> Inl (RuntimeError (''Error opening file: '' @ path_string p))
      | Some bytes \<Rightarrow>
          Inr (case m of
             ModeIn \<Rightarrow> setopt ReadFromFile (h\<lparr>h_stream := Some \<lparr>st_path = p, st_mode = ModeIn,
                          st_data = bytes, st_pos = 0, st_good = True\<rparr>\<rparr>)
           | ModeOut \<Rightarrow> setopt WriteToFile (h\<lparr>h_stream := Some \<lparr>st_path = p, st_mode = ModeOut,
                          st_data = [], st_pos = 0, st_good = True\<rparr>\<rparr>)))"

definition addGlobalResolve :: "string \<Rightarrow> nat \<Rightarrow> string \<Rightarrow> nat \<Rightarrow> string list \<Rightarrow> string list" where
  "addGlobalResolve host src_port ip dst_port resolve =
     resolve @ [c_str (host @ '':'' @ nat_string src_port @ '':'' @ ip @ '':'' @ nat_string dst_port)]"

subsection \<open>Callbacks of a transfer\<close>

definition writeCallback :: "string \<Rightarrow> handle \<Rightarrow> nat \<times> handle" where
  "writeCallback bytes h = (length bytes, h\<lparr>h_response := h_response h @ bytes\<rparr>)"

text \<open>A read that comes up short sets the end-of-file and failure bits.\<close>

definition readData :: "nat \<Rightarrow> stream \<Rightarrow> string \<times> stream" where
  "readData n s =
     (if \<not> st_good s then ([], s)
      else let out = take n (drop (st_pos s) (st_data s))
           in (out, s\<lparr>st_pos := st_pos s + length out, st_good := (length out = n)\<rparr>))"

text \<open>A write at the position overwrites what is there and extends the file.\<close>

definition writeData :: "string \<Rightarrow> stream \<Rightarrow> nat \<times> stream" where
  "writeData bytes s =
     (length bytes,
      if \<not> st_good s then s
      else s\<lparr>st_data := take (st_pos s) (st_data s) @ bytes @ drop (st_pos s + length bytes) (st_data s),
             st_pos := st_pos s + length bytes\<rparr>)"

subsection \<open>Retries\<close>

definition BASE_DELAY :: int where
  "BASE_DELAY = 1000"

definition rewind :: "stream \<Rightarrow> stream" where
  "rewind s = s\<lparr>st_pos := 0, st_good := True\<rparr>"

text \<open>
  \<open>scheduleRetry\<close>, with the drawn jitter and the time as arguments. The counter, the rewound
  stream and the cleared response are kept when it throws.
\<close>

definition scheduleRetry :: "int \<Rightarrow> int \<Rightarrow> handle \<Rightarrow> unit res \<times> handle" where
  "scheduleRetry jit now h =
     (let n = h_retry h + 1;
          delay = BASE_DELAY * push_bit (n + 1) 1;
          h1 = h\<lparr>h_retry := n, h_stream := map_option rewind (h_stream h), h_response := []\<rparr>
      in if n > 6 then (Inl (RuntimeError ''Too many retry attempts on a request''), h1)
         else (Inr (), h1\<lparr>h_timer := now + (delay + jit)\<rparr>))"

text \<open>The range of the uniform distribution.\<close>

definition jitter_ok :: "nat \<Rightarrow> int \<Rightarrow> bool" where
  "jitter_ok n jit \<longleftrightarrow> - (int n * BASE_DELAY) \<le> jit \<and> jit \<le> int n * BASE_DELAY"

definition retry_code :: "int \<Rightarrow> bool" where
  "retry_code c \<longleftrightarrow> c = 403 \<or> c = 429 \<or> c = 408 \<or> (500 \<le> c \<and> c < 600)"

text \<open>What the program does with a finished transfer.\<close>

datatype verdict = CurlFailed | RetryLater | HttpFailed | Succeeded

definition classify :: "bool \<Rightarrow> int \<Rightarrow> verdict" where
  "classify curl_ok code =
     (if \<not> curl_ok then CurlFailed
      else if retry_code code then RetryLater
      else if code \<noteq> 200 then HttpFailed
      else Succeeded)"

subsection \<open>Facts\<close>

lemma setopt_fields [simp]:
  "h_stream (setopt c h) = h_stream h" "h_retry (setopt c h) = h_retry h"
  "h_response (setopt c h) = h_response h" "h_curl (setopt c h) = h_curl h"
  "h_headers (setopt c h) = h_headers h" "h_opts (setopt c h) = h_opts h @ [c]"
  by (simp_all add: setopt_def)

lemma scheduleRetry_ok_iff: "fst (scheduleRetry jit now h) = Inr () \<longleftrightarrow> h_retry h < 6"
  by (simp add: scheduleRetry_def Let_def)

lemma scheduleRetry_fields [simp]:
  "h_retry (snd (scheduleRetry jit now h)) = Suc (h_retry h)"
  "h_stream (snd (scheduleRetry jit now h)) = map_option rewind (h_stream h)"
  "h_response (snd (scheduleRetry jit now h)) = []"
  "h_curl (snd (scheduleRetry jit now h)) = h_curl h"
  "h_headers (snd (scheduleRetry jit now h)) = h_headers h"
  "h_opts (snd (scheduleRetry jit now h)) = h_opts h"
  by (simp_all add: scheduleRetry_def Let_def)

lemma scheduleRetry_timer:
  "h_retry h < 6 \<Longrightarrow>
     h_timer (snd (scheduleRetry jit now h)) = now + 1000 * 2 ^ (h_retry h + 2) + jit"
  by (simp add: scheduleRetry_def Let_def BASE_DELAY_def push_bit_eq_mult)

text \<open>Reading in chunks of any positive size until a read comes up short.\<close>

fun read_all :: "nat \<Rightarrow> nat \<Rightarrow> stream \<Rightarrow> string \<times> stream" where
  "read_all 0 n s = ([], s)"
| "read_all (Suc k) n s =
     (let (out, s1) = readData n s
      in if out = [] then ([], s1) else (let (rest, s2) = read_all k n s1 in (out @ rest, s2)))"

lemma read_all_rest:
  assumes "0 < n" and "st_good s" and "length (drop (st_pos s) (st_data s)) < k"
  shows "fst (read_all k n s) = drop (st_pos s) (st_data s) \<and>
         st_data (snd (read_all k n s)) = st_data s"
  using assms
proof (induction k n s rule: read_all.induct)
  case (1 n s)
  then show ?case by simp
next
  case (2 k n s)
  let ?r = "drop (st_pos s) (st_data s)"
  show ?case
  proof (cases "?r = []")
    case True
    then show ?thesis using "2.prems" by (simp add: readData_def Let_def)
  next
    case False
    let ?s1 = "s\<lparr>st_pos := st_pos s + length (take n ?r), st_good := (length (take n ?r) = n)\<rparr>"
    have rd: "readData n s = (take n ?r, ?s1)" "take n ?r \<noteq> []"
      using "2.prems" False by (auto simp: readData_def Let_def)
    have d: "drop (st_pos ?s1) (st_data ?s1) = drop n ?r"
      by (cases "n \<le> length ?r") (simp_all add: add.commute)
    show ?thesis
    proof (cases "st_good ?s1")
      case True
      have "fst (read_all k n ?s1) = drop n ?r \<and> st_data (snd (read_all k n ?s1)) = st_data s"
        using "2.IH" [OF rd(1) [symmetric] refl rd(2) "2.prems"(1) True] "2.prems" False d by auto
      then show ?thesis using rd append_take_drop_id [of n ?r]
        by (cases "read_all k n ?s1") (simp del: append_take_drop_id)
    next
      case F: False
      then have r: "take n ?r = ?r" by auto
      have "read_all k n ?s1 = ([], ?s1)" using F by (cases k) (simp_all add: readData_def)
      then show ?thesis using rd r by simp
    qed
  qed
qed

text \<open>
  C39. Retries back off: at most six are scheduled, the seventh attempt throws; and whatever
  jitter is drawn from its range, the delay of each retry is longer than that of the one
  before and lies between three and 134 seconds.
\<close>

theorem scheduleRetry_backoff:
  assumes "jitter_ok (Suc (h_retry h)) j1" and "jitter_ok (Suc (Suc (h_retry h))) j2"
  shows "let h1 = snd (scheduleRetry j1 t1 h); h2 = snd (scheduleRetry j2 t2 h1)
         in (fst (scheduleRetry j1 t1 h) = Inr () \<longleftrightarrow> h_retry h < 6) \<and>
            (h_retry h < 6 \<longrightarrow> 3000 \<le> h_timer h1 - t1 \<and> h_timer h1 - t1 \<le> 134000) \<and>
            (h_retry h < 5 \<longrightarrow> h_timer h1 - t1 < h_timer h2 - t2)"
proof -
  consider "h_retry h = 0" | "h_retry h = 1" | "h_retry h = 2" | "h_retry h = 3" | "h_retry h = 4"
    | "h_retry h = 5" | "6 \<le> h_retry h" by linarith
  then show ?thesis
    using assms by cases (auto simp: Let_def scheduleRetry_ok_iff scheduleRetry_timer jitter_ok_def BASE_DELAY_def)
qed

theorem scheduleRetry_backoff_witness:
  "h_timer (snd (scheduleRetry (-1000) 50 (RequestHandle True []))) - 50 = 3000"
  using scheduleRetry_backoff [of "RequestHandle True []" "-1000" 0 50 50]
  by (simp add: jitter_ok_def BASE_DELAY_def RequestHandle_def Let_def scheduleRetry_timer)

text \<open>
  C40. An upload is repeated in full: the file set up for reading is delivered to curl byte for
  byte in chunks of any positive size, and once more in full after each scheduled retry.
\<close>

theorem upload_resent_in_full:
  assumes "setFileStream p ModeIn (Some bytes) h = Inr h1" and "0 < n" and "length bytes < k"
    and "h_stream h1 = Some s" and "s1 = snd (read_all k n s)"
    and "h_stream (snd (scheduleRetry j t (h1\<lparr>h_stream := Some s1\<rparr>))) = Some s2"
  shows "fst (read_all k n s) = bytes \<and> fst (read_all k n s2) = bytes"
proof -
  have s: "s = \<lparr>st_path = p, st_mode = ModeIn, st_data = bytes, st_pos = 0, st_good = True\<rparr>"
    using assms(1,4) by (auto simp: setFileStream_def)
  have a: "fst (read_all k n s) = bytes" "st_data s1 = bytes"
    using read_all_rest [of n s k] assms(2,3,5) s by simp_all
  have "s2 = rewind s1" using assms(6) by simp
  then have "fst (read_all k n s2) = bytes"
    using read_all_rest [of n s2 k] assms(2,3) a(2) by (simp add: rewind_def)
  with a show ?thesis by simp
qed

theorem upload_resent_in_full_witness:
  "\<exists>h1 s s2. setFileStream empty_path ModeIn (Some ''abc'') (RequestHandle True []) = Inr h1 \<and>
     h_stream h1 = Some s \<and> s2 = rewind (snd (read_all 4 2 s)) \<and> fst (read_all 4 2 s2) = ''abc''"
proof -
  obtain h1 s where h: "setFileStream empty_path ModeIn (Some ''abc'') (RequestHandle True []) = Inr h1"
    "h_stream h1 = Some s" by (simp add: setFileStream_def)
  have "fst (read_all 4 2 (rewind (snd (read_all 4 2 s)))) = ''abc''"
    using upload_resent_in_full [OF h(1) _ _ h(2) refl, of 2 4 0 0] by simp
  with h show ?thesis by blast
qed

text \<open>
  A download is not truncated on retry: the body of the rejected answer stays in the file
  beyond the length of the repeated one, so the downloaded file equals the body of the
  successful answer exactly when the rejected body was not longer.
\<close>

theorem download_retry_leaves_tail:
  assumes "setFileStream p ModeOut (Some old) h = Inr h1" and "h_stream h1 = Some s"
  shows "st_data (snd (writeData body (rewind (snd (writeData rejected s))))) =
           body @ drop (length body) rejected \<and>
         (st_data (snd (writeData body (rewind (snd (writeData rejected s))))) = body \<longleftrightarrow>
            length rejected \<le> length body)"
  using assms by (auto simp: setFileStream_def writeData_def rewind_def)

theorem download_retry_leaves_tail_witness:
  "\<exists>s. h_stream (projr (setFileStream empty_path ModeOut (Some []) (RequestHandle True []))) = Some s \<and>
     st_data (snd (writeData ''ok'' (rewind (snd (writeData ''error'' s))))) = ''okror''"
proof -
  obtain h1 s where h: "setFileStream empty_path ModeOut (Some []) (RequestHandle True []) = Inr h1"
    "h_stream h1 = Some s" by (simp add: setFileStream_def)
  show ?thesis using download_retry_leaves_tail [OF h, of "''ok''" "''error''"] h by simp
qed

end
