(* ===== verification/Commands.thy ===== *)
theory Commands
  imports Format Handles
begin

text \<open>
  \<open>include/commands.h\<close> and \<open>src/commands.cpp\<close>: the ten commands, their data, \<open>execute\<close>
  (the request of a cloud command) and the body of \<open>completionCallback\<close> up to the call of
  the owner; \<open>Dispatch\<close> adds the owner and the continuation. A storage is the record of the
  operations of \<open>BaseStorage\<close> that commands call (\<open>include/BaseStorage.h\<close>). An access
  through a null pointer is undefined behaviour; it is the error \<open>NullPointer\<close>. Log
  output is left out (\<open>Logger\<close> has it), but not the null pointers it runs through, nor the
  paths it takes for a format (\<open>log_format\<close>).
\<close>

subsection \<open>Commands\<close>

datatype cmd_kind =
    LocalUpload | LocalUpdate | LocalMove | LocalDelete
  | CloudUpload | CloudUpdate | CloudMove | CloudDelete
  | CloudDownloadNew | CloudDownloadUpdate

datatype dto =
    RecordDTO file_record_dto
  | UpdatedDTO file_updated_dto
  | MovedDTO file_moved_dto
  | DeletedDTO file_deleted_dto

datatype dto_family = RecordF | UpdatedF | MovedF | DeletedF

fun dto_family_of :: "dto \<Rightarrow> dto_family" where
  "dto_family_of (RecordDTO _) = RecordF"
| "dto_family_of (UpdatedDTO _) = UpdatedF"
| "dto_family_of (MovedDTO _) = MovedF"
| "dto_family_of (DeletedDTO _) = DeletedF"

text \<open>The overload of \<open>setDTO\<close> a class overrides; the others are the empty ones of \<open>ICommand\<close>.\<close>

fun kind_family :: "cmd_kind \<Rightarrow> dto_family" where
  "kind_family LocalUpload = RecordF"
| "kind_family CloudUpload = RecordF"
| "kind_family CloudDownloadNew = RecordF"
| "kind_family LocalUpdate = UpdatedF"
| "kind_family CloudUpdate = UpdatedF"
| "kind_family CloudDownloadUpdate = UpdatedF"
| "kind_family LocalMove = MovedF"
| "kind_family CloudMove = MovedF"
| "kind_family LocalDelete = DeletedF"
| "kind_family CloudDelete = DeletedF"

fun is_local :: "cmd_kind \<Rightarrow> bool" where
  "is_local LocalUpload = True"
| "is_local LocalUpdate = True"
| "is_local LocalMove = True"
| "is_local LocalDelete = True"
| "is_local _ = False"

text \<open>\<open>cmd_owner\<close> is the weak pointer to the change, as an address of the heap of changes.\<close>

datatype command = Command
  (cmd_kind: cmd_kind) (cmd_id: int) (cmd_dto: "dto option") (cmd_handle: "handle option")
  (cmd_owner: "nat option") (cmd_next: "command list")

definition new_command :: "cmd_kind \<Rightarrow> int \<Rightarrow> command" where
  "new_command k cloud_id = Command k cloud_id None None None []"

fun setDTO :: "dto \<Rightarrow> command \<Rightarrow> command" where
  "setDTO d (Command k i d0 h ow ns) =
     (if dto_family_of d = kind_family k then Command k i (Some d) h ow ns
      else Command k i d0 h ow ns)"

fun addNext :: "command \<Rightarrow> command \<Rightarrow> command" where
  "addNext n (Command k i d h ow ns) = Command k i d h ow (ns @ [n])"

fun with_next :: "command list \<Rightarrow> command \<Rightarrow> command" where
  "with_next ns (Command k i d h ow _) = Command k i d h ow ns"

fun with_owner :: "nat option \<Rightarrow> command \<Rightarrow> command" where
  "with_owner ow (Command k i d h _ ns) = Command k i d h ow ns"

fun with_data :: "dto option \<Rightarrow> handle option \<Rightarrow> command \<Rightarrow> command" where
  "with_data d h (Command k i _ _ ow ns) = Command k i d h ow ns"

lemma command_fields [simp]:
  "cmd_kind (setDTO d c) = cmd_kind c" "cmd_id (setDTO d c) = cmd_id c"
  "cmd_owner (setDTO d c) = cmd_owner c" "cmd_next (setDTO d c) = cmd_next c"
  "cmd_dto (setDTO d c) = (if dto_family_of d = kind_family (cmd_kind c) then Some d else cmd_dto c)"
  "cmd_kind (with_owner ow c) = cmd_kind c" "cmd_id (with_owner ow c) = cmd_id c"
  "cmd_owner (with_owner ow c) = ow" "cmd_next (with_owner ow c) = cmd_next c"
  "cmd_dto (with_owner ow c) = cmd_dto c" "cmd_handle (with_owner ow c) = cmd_handle c"
  "cmd_kind (with_next ns c) = cmd_kind c" "cmd_id (with_next ns c) = cmd_id c"
  "cmd_owner (with_next ns c) = cmd_owner c" "cmd_next (with_next ns c) = ns"
  "cmd_dto (with_next ns c) = cmd_dto c" "cmd_handle (with_next ns c) = cmd_handle c"
  "cmd_kind (with_data d0 h c) = cmd_kind c" "cmd_id (with_data d0 h c) = cmd_id c"
  "cmd_owner (with_data d0 h c) = cmd_owner c" "cmd_next (with_data d0 h c) = cmd_next c"
  "cmd_dto (with_data d0 h c) = d0" "cmd_handle (with_data d0 h c) = h"
  by (cases c; simp)+

text \<open>\<open>getTarget\<close> and \<open>getTargetType\<close> read the data; the delete commands do not override the latter.\<close>

fun getTarget :: "command \<Rightarrow> string res" where
  "getTarget (Command k i None h ow ns) = Inl NullPointer"
| "getTarget (Command k i (Some d) h ow ns) =
     (case d of
        RecordDTO r \<Rightarrow> Inr (if k = CloudDownloadNew then filename (fr_rel_path r) else path_string (fr_rel_path r))
      | UpdatedDTO u \<Rightarrow> Inr (if is_local k then path_string (fu_rel_path u) else filename (fu_rel_path u))
      | MovedDTO m \<Rightarrow> Inr (if is_local k then path_string (fm_old_rel_path m) else filename (fm_old_rel_path m))
      | DeletedDTO x \<Rightarrow> Inr (path_string (fd_rel_path x)))"

fun getTargetType :: "command \<Rightarrow> entry_type res" where
  "getTargetType (Command k i d h ow ns) =
     (if kind_family k = DeletedF then Inr NullEntry
      else (case d of
         None \<Rightarrow> Inl NullPointer
       | Some (RecordDTO r) \<Rightarrow> Inr (fr_type r)
       | Some (UpdatedDTO u) \<Rightarrow> Inr (fu_type u)
       | Some (MovedDTO m) \<Rightarrow> Inr (fm_type m)
       | Some (DeletedDTO _) \<Rightarrow> Inr NullEntry))"

text \<open>No class overrides \<open>needRepeat\<close>.\<close>

definition needRepeat :: "command \<Rightarrow> bool" where
  "needRepeat c = False"

subsection \<open>The storage a command works on\<close>

record 'w storage_ops =
  so_setup_upload :: "file_record_dto \<Rightarrow> handle \<Rightarrow> ('w, handle) act"
  so_setup_update :: "file_updated_dto \<Rightarrow> handle \<Rightarrow> ('w, handle) act"
  so_setup_download_new :: "file_record_dto \<Rightarrow> handle \<Rightarrow> ('w, handle) act"
  so_setup_download_updated :: "file_updated_dto \<Rightarrow> handle \<Rightarrow> ('w, handle) act"
  so_setup_delete :: "file_deleted_dto \<Rightarrow> handle \<Rightarrow> ('w, handle) act"
  so_setup_move :: "file_moved_dto \<Rightarrow> handle \<Rightarrow> ('w, handle) act"
  so_proccesUpload :: "file_record_dto \<Rightarrow> string \<Rightarrow> ('w, file_record_dto) act"
  so_proccesUpdate :: "file_updated_dto \<Rightarrow> string \<Rightarrow> ('w, file_updated_dto) act"
  so_proccesDelete :: "file_deleted_dto \<Rightarrow> string \<Rightarrow> ('w, unit) act"
  so_proccesMove :: "file_moved_dto \<Rightarrow> string \<Rightarrow> ('w, file_moved_dto) act"
  so_getHomeDir :: "'w \<Rightarrow> string"

subsection \<open>\<open>execute\<close>\<close>

text \<open>
  \<open>h0\<close> is the fresh handle. A local command does nothing. The new data carries the cloud's
  id; the storage fills the handle.
\<close>

fun execute :: "'w storage_ops \<Rightarrow> handle \<Rightarrow> command \<Rightarrow> ('w, command) act" where
  "execute ops h0 (Command k i d h ow ns) =
     (let done = (\<lambda>d' h'. ret (Command k i (Some d') (Some h') ow ns))
      in if is_local k then ret (Command k i d h ow ns)
      else (case d of
         None \<Rightarrow> throw NullPointer
       | Some (RecordDTO r) \<Rightarrow>
           (let r' = r\<lparr>fr_cloud_id := i\<rparr>
            in andThen (if k = CloudDownloadNew then so_setup_download_new ops r' h0
                        else so_setup_upload ops r' h0)
                 (\<lambda>h'. done (RecordDTO r') h'))
       | Some (UpdatedDTO u) \<Rightarrow>
           (let u' = u\<lparr>fu_cloud_id := i\<rparr>
            in andThen (if k = CloudDownloadUpdate then so_setup_download_updated ops u' h0
                        else so_setup_update ops u' h0)
                 (\<lambda>h'. done (UpdatedDTO u') h'))
       | Some (MovedDTO m) \<Rightarrow>
           (let m' = m\<lparr>fm_cloud_id := i\<rparr>
            in andThen (so_setup_move ops m' h0) (\<lambda>h'. done (MovedDTO m') h'))
       | Some (DeletedDTO x) \<Rightarrow>
           (let x' = x\<lparr>fd_cloud_id := i\<rparr>
            in andThen (so_setup_delete ops x' h0) (\<lambda>h'. done (DeletedDTO x') h'))))"

subsection \<open>\<open>completionCallback\<close>, local commands\<close>

text \<open>
  The loops over the next commands. The data object is changed in place, so each turn
  starts from the data of the turn before.
\<close>

fun upload_next ::
  "command list \<Rightarrow> file_record_dto \<Rightarrow> ('s sys_scheme, file_record_dto \<times> command list) act" where
  "upload_next [] r = ret (r, [])"
| "upload_next (n # ns) r =
     andThen (db_call2 (\<lambda>rc1 rc2. getCloudFileIdByPath rc1 rc2 (parent_path (fr_rel_path r)) (cmd_id n)))
       (\<lambda>pid. let r1 = r\<lparr>fr_cloud_parent_id := pid, fr_cloud_id := cmd_id n\<rparr>
              in andThen (upload_next ns r1) (\<lambda>(r2, ns2). ret (r2, setDTO (RecordDTO r1) n # ns2)))"

fun update_next ::
  "command list \<Rightarrow> file_updated_dto \<Rightarrow> ('s sys_scheme, file_updated_dto \<times> command list) act" where
  "update_next [] u = ret (u, [])"
| "update_next (n # ns) u =
     andThen (db_call (\<lambda>rc. get_cloud_file_id_by_cloud_id rc (cmd_id n) (fu_global_id u)))
       (\<lambda>cfid. let u1 = u\<lparr>fu_cloud_file_id := cfid, fu_cloud_id := cmd_id n\<rparr>
               in andThen (update_next ns u1) (\<lambda>(u2, ns2). ret (u2, setDTO (UpdatedDTO u1) n # ns2)))"

fun move_next ::
  "command list \<Rightarrow> file_moved_dto \<Rightarrow> ('s sys_scheme, file_moved_dto \<times> command list) act" where
  "move_next [] m = ret (m, [])"
| "move_next (n # ns) m =
     andThen (db_call (\<lambda>rc. getFileByCloudIdAndGlobalId rc (cmd_id n) (fm_global_id m)))
       (\<lambda>link. case link of
          None \<Rightarrow> throw NullPointer
        | Some l \<Rightarrow>
            andThen (db_call2 (\<lambda>rc1 rc2. getCloudFileIdByPath rc1 rc2 (parent_path (fm_new_rel_path m)) (cmd_id n)))
              (\<lambda>pid. let m1 = m\<lparr>fm_cloud_file_id := fr_cloud_file_id l,
                               fm_old_cloud_parent_id := fr_cloud_parent_id l,
                               fm_new_cloud_parent_id := pid, fm_cloud_id := cmd_id n\<rparr>
                     in andThen (move_next ns m1) (\<lambda>(m2, ns2). ret (m2, setDTO (MovedDTO m1) n # ns2))))"

fun delete_next ::
  "command list \<Rightarrow> file_deleted_dto \<Rightarrow> ('s sys_scheme, file_deleted_dto \<times> command list) act" where
  "delete_next [] x = ret (x, [])"
| "delete_next (n # ns) x =
     andThen (db_call (\<lambda>rc. get_cloud_file_id_by_cloud_id rc (cmd_id n) (fd_global_id x)))
       (\<lambda>cfid. let x1 = x\<lparr>fd_cloud_file_id := cfid, fd_cloud_id := cmd_id n\<rparr>
               in andThen (delete_next ns x1) (\<lambda>(x2, ns2). ret (x2, setDTO (DeletedDTO x1) n # ns2)))"

text \<open>A local command has no handle; its storage gets an empty response.\<close>

definition complete_LocalUpload ::
  "('s sys_scheme) storage_ops \<Rightarrow> file_record_dto \<Rightarrow> command list \<Rightarrow> ('s sys_scheme, dto \<times> command list) act" where
  "complete_LocalUpload ops r ns =
     andThen (so_proccesUpload ops r [])
       (\<lambda>r1. andThen (upload_next ns r1) (\<lambda>(r2, ns2). ret (RecordDTO r2, ns2)))"

definition complete_LocalUpdate ::
  "('s sys_scheme) storage_ops \<Rightarrow> file_updated_dto \<Rightarrow> command list \<Rightarrow> ('s sys_scheme, dto \<times> command list) act" where
  "complete_LocalUpdate ops u ns =
     andThen (log_format (path_string (fu_rel_path u)) [ArgText ''started''])
       (\<lambda>_. andThen (so_proccesUpdate ops u [])
       (\<lambda>u1. andThen (update_next ns u1)
       (\<lambda>(u2, ns2). andThen (log_format (path_string (fu_rel_path u2)) [ArgText ''completed''])
       (\<lambda>_. ret (UpdatedDTO u2, ns2)))))"

definition complete_LocalMove ::
  "('s sys_scheme) storage_ops \<Rightarrow> file_moved_dto \<Rightarrow> command list \<Rightarrow> ('s sys_scheme, dto \<times> command list) act" where
  "complete_LocalMove ops m ns =
     andThen (so_proccesMove ops m [])
       (\<lambda>m1. andThen (move_next ns m1) (\<lambda>(m2, ns2). ret (MovedDTO m2, ns2)))"

definition complete_LocalDelete ::
  "('s sys_scheme) storage_ops \<Rightarrow> file_deleted_dto \<Rightarrow> command list \<Rightarrow> ('s sys_scheme, dto \<times> command list) act" where
  "complete_LocalDelete ops x ns =
     (let need_local_delete = (fd_cloud_id x \<noteq> 0)
      in andThen (so_proccesDelete ops x [])
         (\<lambda>_. andThen (delete_next ns x)
         (\<lambda>(x2, ns2). andThen
            (if need_local_delete
             then andThen (query (so_getHomeDir ops))
                    (\<lambda>home. fs_call (fs_remove (path_of_string (home @ ''/'' @ path_string (fd_rel_path x2)))))
             else ret True)
         (\<lambda>_. andThen (db_call (\<lambda>rc. delete_file_and_links rc (fd_global_id x2)))
         (\<lambda>_. ret (DeletedDTO x2, ns2))))))"

subsection \<open>\<open>completionCallback\<close>, cloud commands\<close>

text \<open>The two downloads touch neither storage nor database: the file waits under its temporary name.\<close>

definition complete_CloudUpload ::
  "('s sys_scheme) storage_ops \<Rightarrow> file_record_dto \<Rightarrow> string \<Rightarrow> command list \<Rightarrow> ('s sys_scheme, dto \<times> command list) act" where
  "complete_CloudUpload ops r response ns =
     andThen (so_proccesUpload ops r response)
       (\<lambda>r1. andThen (db_call (\<lambda>rc. add_file_link rc r1))
       (\<lambda>_. ret (RecordDTO r1, map (setDTO (RecordDTO r1)) ns)))"

definition complete_CloudUpdate ::
  "('s sys_scheme) storage_ops \<Rightarrow> file_updated_dto \<Rightarrow> string \<Rightarrow> command list \<Rightarrow> ('s sys_scheme, dto \<times> command list) act" where
  "complete_CloudUpdate ops u response ns =
     andThen (so_proccesUpdate ops u response)
       (\<lambda>u1. andThen (db_call (\<lambda>rc. update_file_link_updated rc u1))
       (\<lambda>_. ret (UpdatedDTO u1, map (setDTO (UpdatedDTO u1)) ns)))"

definition complete_CloudMove ::
  "('s sys_scheme) storage_ops \<Rightarrow> file_moved_dto \<Rightarrow> string \<Rightarrow> command list \<Rightarrow> ('s sys_scheme, dto \<times> command list) act" where
  "complete_CloudMove ops m response ns =
     andThen (so_proccesMove ops m response)
       (\<lambda>m1. andThen (db_call (\<lambda>rc. update_file_link_moved rc m1))
       (\<lambda>_. ret (MovedDTO m1, map (setDTO (MovedDTO m1)) ns)))"

definition complete_CloudDelete ::
  "('s sys_scheme) storage_ops \<Rightarrow> file_deleted_dto \<Rightarrow> string \<Rightarrow> command list \<Rightarrow> ('s sys_scheme, dto \<times> command list) act" where
  "complete_CloudDelete ops x response ns =
     andThen (so_proccesDelete ops x response)
       (\<lambda>_. ret (DeletedDTO x, map (setDTO (DeletedDTO x)) ns))"

definition complete_download :: "dto \<Rightarrow> command list \<Rightarrow> ('s sys_scheme, dto \<times> command list) act" where
  "complete_download d ns = ret (d, map (setDTO d) ns)"

text \<open>
  The whole callback but for its last two calls (owner, continuation). A cloud command that
  was never executed has no handle.
\<close>

fun completion :: "('s sys_scheme) storage_ops \<Rightarrow> command \<Rightarrow> ('s sys_scheme, command) act" where
  "completion ops (Command k i d h ow ns) =
     (let finish = (\<lambda>(d', ns'). ret (Command k i (Some d') h ow ns'));
          response = map_option h_response h
      in case (k, d, response) of
           (LocalUpload, Some (RecordDTO r), _) \<Rightarrow> andThen (complete_LocalUpload ops r ns) finish
         | (LocalUpdate, Some (UpdatedDTO u), _) \<Rightarrow> andThen (complete_LocalUpdate ops u ns) finish
         | (LocalMove, Some (MovedDTO m), _) \<Rightarrow> andThen (complete_LocalMove ops m ns) finish
         | (LocalDelete, Some (DeletedDTO x), _) \<Rightarrow> andThen (complete_LocalDelete ops x ns) finish
         | (CloudUpload, Some (RecordDTO r), Some s) \<Rightarrow> andThen (complete_CloudUpload ops r s ns) finish
         | (CloudUpdate, Some (UpdatedDTO u), Some s) \<Rightarrow> andThen (complete_CloudUpdate ops u s ns) finish
         | (CloudMove, Some (MovedDTO m), Some s) \<Rightarrow> andThen (complete_CloudMove ops m s ns) finish
         | (CloudDelete, Some (DeletedDTO x), Some s) \<Rightarrow> andThen (complete_CloudDelete ops x s ns) finish
         | (CloudDownloadNew, Some (RecordDTO r), _) \<Rightarrow> andThen (complete_download (RecordDTO r) ns) finish
         | (CloudDownloadUpdate, Some (UpdatedDTO u), _) \<Rightarrow> andThen (complete_download (UpdatedDTO u) ns) finish
         | _ \<Rightarrow> throw NullPointer)"

subsection \<open>Shape and data of a chain\<close>

text \<open>What the chain is made of, without the data that the commands pass on.\<close>

datatype skeleton = Skeleton cmd_kind int "nat option" "skeleton list"

fun skel :: "command \<Rightarrow> skeleton" where
  "skel (Command k i d h ow ns) = Skeleton k i ow (map skel ns)"

fun chain_of :: "dto_family \<Rightarrow> command \<Rightarrow> bool" where
  "chain_of fam (Command k i d h ow ns) \<longleftrightarrow> kind_family k = fam \<and> list_all (chain_of fam) ns"

definition has_data :: "dto_family \<Rightarrow> command \<Rightarrow> bool" where
  "has_data fam c \<longleftrightarrow> (case cmd_dto c of Some d \<Rightarrow> dto_family_of d = fam | None \<Rightarrow> False)"

text \<open>A chain of one family whose head has its data: what the factory builds and commands hand on.\<close>

definition ready :: "dto_family \<Rightarrow> command \<Rightarrow> bool" where
  "ready fam c \<longleftrightarrow> chain_of fam c \<and> has_data fam c"

fun size_chain :: "command \<Rightarrow> nat" where
  "size_chain (Command k i d h ow ns) = Suc (sum_list (map size_chain ns))"

lemma skel_setDTO [simp]: "skel (setDTO d c) = skel c"
  by (cases c) simp

lemma map_skel_setDTO [simp]: "map skel (map (setDTO d) ns) = map skel ns"
  by simp

lemma chain_of_skel: "skel c = skel c' \<Longrightarrow> chain_of fam c \<longleftrightarrow> chain_of fam c'"
proof (induction fam c arbitrary: c' rule: chain_of.induct)
  case (1 fam k i d h ow ns)
  obtain d' h' ns' where c': "c' = Command k i d' h' ow ns'" "map skel ns = map skel ns'"
    using "1.prems" by (cases c') auto
  have l: "length ns = length ns'" using c'(2) by (rule map_eq_imp_length_eq)
  have "chain_of fam (ns ! j) \<longleftrightarrow> chain_of fam (ns' ! j)" if "j < length ns" for j
    using "1.IH" [of "ns ! j" "ns' ! j"] that l arg_cong [OF c'(2), of "\<lambda>xs. xs ! j"] by simp
  then show ?case using c'(1) l by (auto simp: list_all_length)
qed

lemma size_chain_skel: "skel c = skel c' \<Longrightarrow> size_chain c = size_chain c'"
proof (induction c arbitrary: c' rule: size_chain.induct)
  case (1 k i d h ow ns)
  obtain d' h' ns' where c': "c' = Command k i d' h' ow ns'" "map skel ns = map skel ns'"
    using "1.prems" by (cases c') auto
  have l: "length ns = length ns'" using c'(2) by (rule map_eq_imp_length_eq)
  have "map size_chain ns = map size_chain ns'"
  proof (rule nth_equalityI)
    show "map size_chain ns ! j = map size_chain ns' ! j" if "j < length (map size_chain ns)" for j
      using "1.IH" [of "ns ! j" "ns' ! j"] that l arg_cong [OF c'(2), of "\<lambda>xs. xs ! j"] by simp
  qed (use l in simp)
  then show ?case using c'(1) by (simp only: size_chain.simps)
qed

lemma ready_setDTO:
  "chain_of fam n \<Longrightarrow> dto_family_of d = fam \<Longrightarrow> ready fam (setDTO d n)"
  using chain_of_skel [of "setDTO d n" n fam]
  by (cases n) (simp add: ready_def has_data_def)

lemma ready_map_setDTO:
  "list_all (chain_of fam) ns \<Longrightarrow> dto_family_of d = fam \<Longrightarrow> list_all (ready fam) (map (setDTO d) ns)"
  by (auto simp: list_all_iff ready_setDTO)

text \<open>What the loops over the next commands return.\<close>

lemma upload_next_spec:
  "upload_next ns r w = (Inr (r2, ns2), w2) \<Longrightarrow>
     map skel ns2 = map skel ns \<and> (list_all (chain_of RecordF) ns \<longrightarrow> list_all (ready RecordF) ns2)"
  by (induction ns r arbitrary: w r2 ns2 rule: upload_next.induct)
     (auto simp: andThen_ok Let_def ready_setDTO split: prod.splits)

lemma update_next_spec:
  "update_next ns r w = (Inr (r2, ns2), w2) \<Longrightarrow>
     map skel ns2 = map skel ns \<and> (list_all (chain_of UpdatedF) ns \<longrightarrow> list_all (ready UpdatedF) ns2)"
  by (induction ns r arbitrary: w r2 ns2 rule: update_next.induct)
     (auto simp: andThen_ok Let_def ready_setDTO split: prod.splits)

lemma move_next_spec:
  "move_next ns r w = (Inr (r2, ns2), w2) \<Longrightarrow>
     map skel ns2 = map skel ns \<and> (list_all (chain_of MovedF) ns \<longrightarrow> list_all (ready MovedF) ns2)"
  by (induction ns r arbitrary: w r2 ns2 rule: move_next.induct)
     (auto simp: andThen_ok Let_def ready_setDTO split: prod.splits option.splits)

lemma delete_next_spec:
  "delete_next ns r w = (Inr (r2, ns2), w2) \<Longrightarrow>
     map skel ns2 = map skel ns \<and> (list_all (chain_of DeletedF) ns \<longrightarrow> list_all (ready DeletedF) ns2)"
  by (induction ns r arbitrary: w r2 ns2 rule: delete_next.induct)
     (auto simp: andThen_ok Let_def ready_setDTO split: prod.splits)

lemmas next_specs = upload_next_spec update_next_spec move_next_spec delete_next_spec

lemmas complete_defs = complete_LocalUpload_def complete_LocalUpdate_def complete_LocalMove_def
  complete_LocalDelete_def complete_CloudUpload_def complete_CloudUpdate_def complete_CloudMove_def
  complete_CloudDelete_def complete_download_def

lemma complete_local_spec:
  "complete_LocalUpload ops r ns w = (Inr (d2, ns2), w2) \<Longrightarrow>
     dto_family_of d2 = RecordF \<and> map skel ns2 = map skel ns \<and>
     (list_all (chain_of RecordF) ns \<longrightarrow> list_all (ready RecordF) ns2)"
  "complete_LocalUpdate ops u ns w = (Inr (d2, ns2), w2) \<Longrightarrow>
     dto_family_of d2 = UpdatedF \<and> map skel ns2 = map skel ns \<and>
     (list_all (chain_of UpdatedF) ns \<longrightarrow> list_all (ready UpdatedF) ns2)"
  "complete_LocalMove ops m ns w = (Inr (d2, ns2), w2) \<Longrightarrow>
     dto_family_of d2 = MovedF \<and> map skel ns2 = map skel ns \<and>
     (list_all (chain_of MovedF) ns \<longrightarrow> list_all (ready MovedF) ns2)"
  "complete_LocalDelete ops x ns w = (Inr (d2, ns2), w2) \<Longrightarrow>
     dto_family_of d2 = DeletedF \<and> map skel ns2 = map skel ns \<and>
     (list_all (chain_of DeletedF) ns \<longrightarrow> list_all (ready DeletedF) ns2)"
  by (auto simp: complete_defs andThen_ok Let_def split: prod.splits dest: next_specs)

lemma complete_cloud_spec:
  "complete_CloudUpload ops r s ns w = (Inr (d2, ns2), w2) \<Longrightarrow>
     dto_family_of d2 = RecordF \<and> map skel ns2 = map skel ns \<and>
     (list_all (chain_of RecordF) ns \<longrightarrow> list_all (ready RecordF) ns2)"
  "complete_CloudUpdate ops u s ns w = (Inr (d2, ns2), w2) \<Longrightarrow>
     dto_family_of d2 = UpdatedF \<and> map skel ns2 = map skel ns \<and>
     (list_all (chain_of UpdatedF) ns \<longrightarrow> list_all (ready UpdatedF) ns2)"
  "complete_CloudMove ops m s ns w = (Inr (d2, ns2), w2) \<Longrightarrow>
     dto_family_of d2 = MovedF \<and> map skel ns2 = map skel ns \<and>
     (list_all (chain_of MovedF) ns \<longrightarrow> list_all (ready MovedF) ns2)"
  "complete_CloudDelete ops x s ns w = (Inr (d2, ns2), w2) \<Longrightarrow>
     dto_family_of d2 = DeletedF \<and> map skel ns2 = map skel ns \<and>
     (list_all (chain_of DeletedF) ns \<longrightarrow> list_all (ready DeletedF) ns2)"
  "complete_download d ns w = (Inr (d2, ns2), w2) \<Longrightarrow>
     d2 = d \<and> map skel ns2 = map skel ns \<and>
     (list_all (chain_of (dto_family_of d)) ns \<longrightarrow> list_all (ready (dto_family_of d)) ns2)"
  by (auto simp: complete_defs andThen_ok list_all_iff ready_setDTO)

lemma completion_spec:
  assumes "completion ops c w = (Inr c2, w2)"
  shows "skel c2 = skel c \<and> cmd_handle c2 = cmd_handle c \<and>
         (chain_of fam c \<longrightarrow> has_data fam c2 \<and> list_all (ready fam) (cmd_next c2))"
proof -
  obtain k i d h ow ns where c: "c = Command k i d h ow ns" by (cases c)
  obtain d0 where d0: "d = Some d0" using assms c by (cases d; cases k) auto
  have "\<exists>d2 ns2. c2 = Command k i (Some d2) h ow ns2 \<and> dto_family_of d2 = kind_family k \<and>
          map skel ns2 = map skel ns \<and>
          (list_all (chain_of (kind_family k)) ns \<longrightarrow> list_all (ready (kind_family k)) ns2)"
  proof (cases "is_local k")
    case True
    then show ?thesis using assms c d0
      by (cases k; cases d0)
         (auto simp: andThen_ok Let_def split: prod.splits dest!: complete_local_spec)
  next
    case False
    then show ?thesis using assms c d0
      by (cases k; cases d0; cases h)
         (auto simp: andThen_ok Let_def split: prod.splits dest!: complete_cloud_spec)
  qed
  then show ?thesis using c by (auto simp: has_data_def)
qed

end
