(* ===== verification/Changes.thy ===== *)
theory Changes
  imports Commands
begin

text \<open>
  \<open>src/change.cpp\<close>, \<open>include/change.h\<close>, \<open>include/change-factory.h\<close>: changes on a heap
  (shared and weak pointers are addresses), the count of commands still to finish, the
  notification of completion, and the factory that builds the chain of commands of a
  change. The atomic counter makes each operation one step.
\<close>

subsection \<open>Changes\<close>

datatype change_status = PendingS | CompletedS | CancelledS

text \<open>
  An entry of the chain is \<open>None\<close> once \<open>dispatch\<close> has moved its command out. The stored
  callback of \<open>setOnComplete\<close> is the closure of \<open>SyncManager::startChange\<close>, determined by
  the path it captures; \<open>None\<close> is the empty function.
\<close>

record change =
  ch_type :: change_type
  ch_path :: path
  ch_time :: int
  ch_cloud_id :: int
  ch_chain :: "command option list"
  ch_pending :: int
  ch_status :: change_status
  ch_dependents :: "nat list"
  ch_on_complete :: "path option"

definition Change :: "change_type \<Rightarrow> path \<Rightarrow> int \<Rightarrow> int \<Rightarrow> change" where
  "Change t p ct cid =
     \<lparr>ch_type = t, ch_path = p, ch_time = ct, ch_cloud_id = cid, ch_chain = [], ch_pending = 0,
      ch_status = PendingS, ch_dependents = [], ch_on_complete = None\<rparr>"

definition Change_cmds ::
  "change_type \<Rightarrow> path \<Rightarrow> int \<Rightarrow> int \<Rightarrow> command list \<Rightarrow> int \<Rightarrow> change" where
  "Change_cmds t p ct cid fcmds cmds =
     (Change t p ct cid)\<lparr>ch_chain := map Some fcmds, ch_pending := cmds\<rparr>"

definition Change_cmd ::
  "change_type \<Rightarrow> path \<Rightarrow> int \<Rightarrow> int \<Rightarrow> command \<Rightarrow> int \<Rightarrow> change" where
  "Change_cmd t p ct cid fcmd cmds =
     (Change t p ct cid)\<lparr>ch_pending := cmds, ch_chain := [Some fcmd]\<rparr>"

type_synonym heap = "change list"

text \<open>\<open>make_shared\<close>: the new change gets the next address.\<close>

definition alloc :: "change \<Rightarrow> heap \<Rightarrow> nat \<times> heap" where
  "alloc c hp = (length hp, hp @ [c])"

definition deref :: "heap \<Rightarrow> nat \<Rightarrow> change option" where
  "deref hp a = (if a < length hp then Some (hp ! a) else None)"

definition update_at :: "nat \<Rightarrow> (change \<Rightarrow> change) \<Rightarrow> heap \<Rightarrow> heap" where
  "update_at a g hp = (if a < length hp then hp[a := g (hp ! a)] else hp)"

definition setOnComplete :: "path \<Rightarrow> change \<Rightarrow> change" where
  "setOnComplete p c = c\<lparr>ch_on_complete := Some p\<rparr>"

definition onCommandCreated :: "change \<Rightarrow> change" where
  "onCommandCreated c = c\<lparr>ch_pending := ch_pending c + 1\<rparr>"

text \<open>
  \<open>onCommandFinished\<close>: what the last command sets off. Calling an empty function throws out
  of a \<open>noexcept\<close> function, which ends the program.
\<close>

datatype finished = NotLast | Fire path "nat list" | NoCallback

definition onCommandFinished :: "change \<Rightarrow> finished \<times> change" where
  "onCommandFinished c =
     (let n = ch_pending c; c1 = c\<lparr>ch_pending := n - 1\<rparr>
      in if n = 1
         then (case ch_on_complete c of
                 None \<Rightarrow> (NoCallback, c1\<lparr>ch_status := CompletedS\<rparr>)
               | Some p \<Rightarrow> (Fire p (ch_dependents c), c1\<lparr>ch_status := CompletedS, ch_dependents := []\<rparr>))
         else (NotLast, c1))"

definition onCancel :: "change \<Rightarrow> change" where
  "onCancel c = c\<lparr>ch_status := CancelledS\<rparr>"

definition addDependent :: "nat \<Rightarrow> change \<Rightarrow> change" where
  "addDependent dep c = c\<lparr>ch_dependents := ch_dependents c @ [dep]\<rparr>"

definition setCmdChain :: "command list \<Rightarrow> change \<Rightarrow> change" where
  "setCmdChain cmds c = c\<lparr>ch_chain := map Some cmds\<rparr>"

definition setCmdChain_one :: "command \<Rightarrow> change \<Rightarrow> change" where
  "setCmdChain_one cmd c = c\<lparr>ch_chain := ch_chain c @ [Some cmd]\<rparr>"

text \<open>
  Moving a change: the new object takes over every member; what the members of the old one hold
  after a move is left to the library, \<open>leftover\<close>. Assigning a change to itself does nothing.
\<close>

definition Change_move :: "(change \<Rightarrow> change) \<Rightarrow> change \<Rightarrow> change \<times> change" where
  "Change_move leftover other =
     (\<lparr>ch_type = ch_type other, ch_path = ch_path other, ch_time = ch_time other, ch_cloud_id = ch_cloud_id other,
       ch_chain = ch_chain other, ch_pending = ch_pending other, ch_status = ch_status other,
       ch_dependents = ch_dependents other, ch_on_complete = ch_on_complete other\<rparr>, leftover other)"

definition Change_assign :: "(change \<Rightarrow> change) \<Rightarrow> nat \<Rightarrow> nat \<Rightarrow> heap \<Rightarrow> heap res" where
  "Change_assign leftover a b hp =
     (case (deref hp a, deref hp b) of
        (Some c, Some other) \<Rightarrow>
          Inr (if a \<noteq> b
               then update_at b leftover
                      (update_at a (\<lambda>c. c\<lparr>ch_type := ch_type other, ch_time := ch_time other,
                         ch_status := ch_status other, ch_cloud_id := ch_cloud_id other, ch_chain := ch_chain other,
                         ch_dependents := ch_dependents other, ch_on_complete := ch_on_complete other,
                         ch_path := ch_path other, ch_pending := ch_pending other\<rparr>) hp)
               else hp)
      | _ \<Rightarrow> Inl NullPointer)"

lemma Change_move_same: "fst (Change_move leftover c) = c"
  by (simp add: Change_move_def)

definition getTime :: "change \<Rightarrow> int" where
  "getTime c = ch_time c"

definition getTargetPath :: "change \<Rightarrow> path" where
  "getTargetPath c = ch_path c"

definition change_getType :: "change \<Rightarrow> change_type" where
  "change_getType c = ch_type c"

definition getCloudId :: "change \<Rightarrow> int" where
  "getCloudId c = ch_cloud_id c"

text \<open>The kind of entry of the first command; a command already moved out is a null pointer.\<close>

definition change_getTargetType :: "change \<Rightarrow> entry_type res" where
  "change_getTargetType c =
     (case ch_chain c of
        [] \<Rightarrow> Inr NullEntry
      | None # _ \<Rightarrow> Inl NullPointer
      | Some cmd # _ \<Rightarrow> getTargetType cmd)"

text \<open>
  \<open>dispatch\<close> moves every command to a queue; the first one decides which. The result is the
  list of commands for \<open>CallbackDispatcher\<close> (left) or \<open>HttpClient\<close> (right).
\<close>

fun all_some :: "'a option list \<Rightarrow> 'a list res" where
  "all_some [] = Inr []"
| "all_some (None # r) = Inl NullPointer"
| "all_some (Some x # r) = (case all_some r of Inl e \<Rightarrow> Inl e | Inr xs \<Rightarrow> Inr (x # xs))"

definition dispatch :: "change \<Rightarrow> (command list + command list) res \<times> change" where
  "dispatch c =
     (let moved = c\<lparr>ch_chain := map (\<lambda>_. None) (ch_chain c)\<rparr>
      in case all_some (ch_chain c) of
           Inl e \<Rightarrow> (Inl e, moved)
         | Inr [] \<Rightarrow> (Inl NullPointer, moved)
         | Inr (cmd # cmds) \<Rightarrow>
             (Inr (if is_local (cmd_kind cmd) then Inl (cmd # cmds) else Inr (cmd # cmds)), moved))"

lemma all_some_map [simp]: "all_some (map Some xs) = Inr xs"
  by (induction xs) simp_all

subsection \<open>Owners\<close>

definition setOwner :: "nat \<Rightarrow> command \<Rightarrow> heap \<Rightarrow> command \<times> heap" where
  "setOwner a c hp = (with_owner (Some a) c, update_at a onCommandCreated hp)"

text \<open>The owner's notification in \<open>completionCallback\<close>.\<close>

definition notify_owner :: "nat option \<Rightarrow> heap \<Rightarrow> finished \<times> heap" where
  "notify_owner ow hp =
     (case ow of
        None \<Rightarrow> (NotLast, hp)
      | Some a \<Rightarrow>
          (case deref hp a of
             None \<Rightarrow> (NotLast, hp)
           | Some c \<Rightarrow> (let (r, c1) = onCommandFinished c in (r, update_at a (\<lambda>_. c1) hp))))"

subsection \<open>The factory\<close>

text \<open>
  \<open>addNextCommands\<close>: one local command, or one cloud command for every cloud (in the
  iteration order of the map, given by the list of ids) but the source and the local
  storage. The next stage is attached to the last command added.
\<close>

definition stage_ids :: "int list \<Rightarrow> int \<Rightarrow> cmd_kind \<Rightarrow> int list" where
  "stage_ids clouds src k = (if is_local k then [0] else filter (\<lambda>cid. \<not> (cid = src \<or> cid = 0)) clouds)"

fun add_commands :: "cmd_kind \<Rightarrow> nat \<Rightarrow> int list \<Rightarrow> heap \<Rightarrow> command list \<times> heap" where
  "add_commands k a [] hp = ([], hp)"
| "add_commands k a (i # is) hp =
     (let (c, hp1) = setOwner a (new_command k i) hp;
          (cs, hp2) = add_commands k a is hp1
      in (c # cs, hp2))"

text \<open>The commands below a parent, for the remaining stages.\<close>

fun add_stages :: "int list \<Rightarrow> nat \<Rightarrow> int \<Rightarrow> cmd_kind list \<Rightarrow> heap \<Rightarrow> command list \<times> heap" where
  "add_stages clouds a src [] hp = ([], hp)"
| "add_stages clouds a src (k # ks) hp =
     (let (cs, hp1) = add_commands k a (stage_ids clouds src k) hp;
          (ns, hp2) = add_stages clouds a src ks hp1
      in if cs = [] then (ns, hp2) else (butlast cs @ [with_next ns (last cs)], hp2))"

definition make_change ::
  "int list \<Rightarrow> cmd_kind \<Rightarrow> cmd_kind list \<Rightarrow> change_type \<Rightarrow> int \<Rightarrow> path \<Rightarrow> dto \<Rightarrow> int \<Rightarrow> heap \<Rightarrow> nat \<times> heap" where
  "make_change clouds initial next_kinds ty tm p d src hp =
     (let first_cmd = setDTO d (new_command initial (if is_local initial then 0 else src));
          (a, hp1) = alloc (Change ty p tm src) hp;
          (cmd, hp2) = setOwner a first_cmd hp1;
          (ns, hp3) = add_stages clouds a src next_kinds hp2
      in (a, update_at a (setCmdChain_one (with_next ns cmd)) hp3))"

definition makeCloudNew :: "int list \<Rightarrow> file_record_dto \<Rightarrow> heap \<Rightarrow> nat \<times> heap" where
  "makeCloudNew clouds d =
     make_change clouds CloudDownloadNew [LocalUpload, CloudUpload] New (fr_mtime d) (fr_rel_path d) (RecordDTO d) (fr_cloud_id d)"

definition makeLocalNew :: "int list \<Rightarrow> file_record_dto \<Rightarrow> heap \<Rightarrow> nat \<times> heap" where
  "makeLocalNew clouds d =
     make_change clouds LocalUpload [CloudUpload] New (fr_mtime d) (fr_rel_path d) (RecordDTO d) 0"

definition makeCloudMove :: "int list \<Rightarrow> file_moved_dto \<Rightarrow> heap \<Rightarrow> nat \<times> heap" where
  "makeCloudMove clouds d =
     make_change clouds LocalMove [CloudMove] Move (fm_mtime d) (fm_old_rel_path d) (MovedDTO d) (fm_cloud_id d)"

definition makeLocalMove :: "int list \<Rightarrow> file_moved_dto \<Rightarrow> heap \<Rightarrow> nat \<times> heap" where
  "makeLocalMove clouds d =
     make_change clouds LocalMove [CloudMove] Move (fm_mtime d) (fm_old_rel_path d) (MovedDTO d) 0"

definition makeCloudUpdate :: "int list \<Rightarrow> file_updated_dto \<Rightarrow> heap \<Rightarrow> nat \<times> heap" where
  "makeCloudUpdate clouds d =
     make_change clouds CloudDownloadUpdate [LocalUpdate, CloudUpdate] Update (fu_mtime d) (fu_rel_path d) (UpdatedDTO d) (fu_cloud_id d)"

definition makeLocalUpdate :: "int list \<Rightarrow> file_updated_dto \<Rightarrow> heap \<Rightarrow> nat \<times> heap" where
  "makeLocalUpdate clouds d =
     make_change clouds LocalUpdate [CloudUpdate] Update (fu_mtime d) (fu_rel_path d) (UpdatedDTO d) 0"

definition makeDelete :: "int list \<Rightarrow> file_deleted_dto \<Rightarrow> heap \<Rightarrow> nat \<times> heap" where
  "makeDelete clouds d =
     make_change clouds LocalDelete [CloudDelete] Delete (fd_when d) (fd_rel_path d) (DeletedDTO d) (fd_cloud_id d)"

subsection \<open>The heap\<close>

lemma update_at_simps [simp]:
  "length (update_at a g hp) = length hp" "deref (update_at a g hp) a = map_option g (deref hp a)"
  "b \<noteq> a \<Longrightarrow> deref (update_at a g hp) b = deref hp b"
  by (simp_all add: update_at_def deref_def)

lemma Change_assign_effect:
  assumes "Change_assign leftover a b hp = Inr hp1" and "deref hp b = Some other"
  shows "deref hp1 a = Some other" and "x \<noteq> a \<Longrightarrow> x \<noteq> b \<Longrightarrow> deref hp1 x = deref hp x"
  using assms by (auto simp: Change_assign_def split: option.splits if_splits)

lemma update_at_comp [simp]: "update_at a g (update_at a f hp) = update_at a (\<lambda>c. g (f c)) hp"
  by (simp add: update_at_def)

lemma update_at_id: "(\<And>c. g c = c) \<Longrightarrow> update_at a g hp = hp"
  by (simp add: update_at_def)

lemma update_at_alloc [simp]: "update_at (length hp) g (hp @ [c]) = hp @ [g c]"
  by (simp add: update_at_def)

lemma deref_alloc [simp]: "deref (hp @ [c]) (length hp) = Some c"
  "b < length hp \<Longrightarrow> deref (hp @ [c]) b = deref hp b"
  by (simp_all add: deref_def nth_append)

definition add_pending :: "nat \<Rightarrow> change \<Rightarrow> change" where
  "add_pending n c = c\<lparr>ch_pending := ch_pending c + int n\<rparr>"

lemma add_pending_simps [simp]:
  "add_pending m (add_pending n c) = add_pending (n + m) c" "add_pending 0 c = c"
  "onCommandCreated c = add_pending 1 c"
  by (simp_all add: add_pending_def onCommandCreated_def)

subsection \<open>What the factory builds\<close>

text \<open>The commands of a chain, from the head down.\<close>

fun commands :: "command \<Rightarrow> command list" where
  "commands (Command k i d h ow ns) = Command k i d h ow ns # concat (map commands ns)"

lemma length_commands: "length (commands c) = size_chain c"
proof (induction c rule: commands.induct)
  case (1 k i d h ow ns)
  then have "map (\<lambda>n. length (commands n)) ns = map size_chain ns" by simp
  then show ?case by (simp add: length_concat o_def del: map_eq_conv)
qed

definition leaf :: "nat \<Rightarrow> cmd_kind \<Rightarrow> int \<Rightarrow> command" where
  "leaf a k i = with_owner (Some a) (new_command k i)"

fun stage_tree :: "int list \<Rightarrow> nat \<Rightarrow> int \<Rightarrow> cmd_kind list \<Rightarrow> command list" where
  "stage_tree clouds a src [] = []"
| "stage_tree clouds a src (k # ks) =
     (let cs = map (leaf a k) (stage_ids clouds src k); ns = stage_tree clouds a src ks
      in if cs = [] then ns else butlast cs @ [with_next ns (last cs)])"

lemma add_commands_eq:
  "add_commands k a is hp = (map (leaf a k) is, update_at a (add_pending (length is)) hp)"
  by (induction k a "is" hp rule: add_commands.induct)
     (simp_all add: setOwner_def leaf_def update_at_id)

lemma leaf_fields [simp]:
  "cmd_kind (leaf a k i) = k" "cmd_id (leaf a k i) = i" "cmd_owner (leaf a k i) = Some a"
  by (simp_all add: leaf_def new_command_def)

lemma commands_leaf: "commands (leaf a k i) = [leaf a k i]"
  by (simp add: leaf_def new_command_def)

lemma commands_with_next_leaf:
  "commands (with_next ns (leaf a k i)) = with_next ns (leaf a k i) # concat (map commands ns)"
  by (simp add: leaf_def new_command_def)

definition total :: "command list \<Rightarrow> nat" where
  "total cs = length (concat (map commands cs))"

lemma total_stage:
  "total (stage_tree clouds a src (k # ks)) =
     length (stage_ids clouds src k) + total (stage_tree clouds a src ks)"
proof (cases "stage_ids clouds src k" rule: rev_cases)
  case Nil
  then show ?thesis by simp
next
  case (snoc xs i)
  have "concat (map commands (map (leaf a k) xs)) = map (leaf a k) xs"
    by (induction xs) (simp_all add: commands_leaf)
  then show ?thesis using snoc
    by (simp add: total_def butlast_append commands_with_next_leaf)
qed

lemma add_stages_eq:
  "add_stages clouds a src ks hp =
     (stage_tree clouds a src ks, update_at a (add_pending (total (stage_tree clouds a src ks))) hp)"
proof (induction clouds a src ks hp rule: add_stages.induct)
  case (1 clouds a src hp)
  then show ?case by (simp add: total_def update_at_id)
next
  case (2 clouds a src k ks hp)
  have "add_stages clouds a src ks (update_at a (add_pending (length (stage_ids clouds src k))) hp) =
      (stage_tree clouds a src ks, update_at a (add_pending (length (stage_ids clouds src k) + total (stage_tree clouds a src ks))) hp)"
    using "2.IH" [OF refl add_commands_eq [symmetric]] by simp
  then show ?case
    using total_stage [of clouds a src k ks] by (auto simp: add_commands_eq Let_def)
qed

definition head_command :: "cmd_kind \<Rightarrow> dto \<Rightarrow> nat \<Rightarrow> int \<Rightarrow> command list \<Rightarrow> command" where
  "head_command ini d a src ns =
     with_next ns (with_owner (Some a) (setDTO d (new_command ini (if is_local ini then 0 else src))))"

lemma commands_head: "commands (head_command ini d a src ns) = head_command ini d a src ns # concat (map commands ns)"
  by (cases "dto_family_of d = kind_family ini") (simp_all add: head_command_def new_command_def)

lemma make_eq:
  "make_change clouds ini ks ty tm p d src hp =
     (let a = length hp; cmd = head_command ini d a src (stage_tree clouds a src ks)
      in (a, hp @ [(Change ty p tm src)\<lparr>ch_pending := int (size_chain cmd), ch_chain := [Some cmd]\<rparr>]))"
  by (simp add: make_change_def alloc_def setOwner_def add_stages_eq Let_def setCmdChain_one_def add_pending_def
      Change_def head_command_def [symmetric] length_commands [symmetric] commands_head total_def)

text \<open>What holds of a new change \<open>r\<close> made on heap \<open>hp\<close> for data of family \<open>fam\<close>.\<close>

definition well_built :: "dto_family \<Rightarrow> heap \<Rightarrow> nat \<times> heap \<Rightarrow> bool" where
  "well_built fam hp r \<longleftrightarrow>
     fst r = length hp \<and> length (snd r) = Suc (length hp) \<and> take (length hp) (snd r) = hp \<and>
     (case ch_chain (last (snd r)) of
        [Some cmd] \<Rightarrow> ready fam cmd \<and> ch_pending (last (snd r)) = int (size_chain cmd) \<and>
                      list_all (\<lambda>c. cmd_owner c = Some (fst r)) (commands cmd)
      | _ \<Rightarrow> False) \<and>
     ch_status (last (snd r)) = PendingS \<and> ch_dependents (last (snd r)) = []"

lemma stage_tree_chain:
  "list_all (\<lambda>k. kind_family k = fam) ks \<Longrightarrow> list_all (chain_of fam) (stage_tree clouds a src ks)"
proof (induction clouds a src ks rule: stage_tree.induct)
  case (1 clouds a src)
  then show ?case by simp
next
  case (2 clouds a src k ks)
  show ?case
  proof (cases "stage_ids clouds src k" rule: rev_cases)
    case Nil
    then show ?thesis using 2 by simp
  next
    case (snoc xs i)
    then show ?thesis using 2 by (simp add: butlast_append list_all_iff leaf_def new_command_def)
  qed
qed

lemma stage_tree_owner:
  "list_all (\<lambda>c. cmd_owner c = Some a) (concat (map commands (stage_tree clouds a src ks)))"
proof (induction clouds a src ks rule: stage_tree.induct)
  case (1 clouds a src)
  then show ?case by simp
next
  case (2 clouds a src k ks)
  show ?case
  proof (cases "stage_ids clouds src k" rule: rev_cases)
    case Nil
    then show ?thesis using 2 by simp
  next
    case (snoc xs i)
    have "list_all (\<lambda>c. cmd_owner c = Some a) (concat (map commands (map (leaf a k) xs)))"
      by (induction xs) (simp_all add: commands_leaf)
    then show ?thesis using snoc 2
      by (simp add: butlast_append commands_with_next_leaf)
  qed
qed

lemma make_well_built:
  assumes "dto_family_of d = fam" and "list_all (\<lambda>k. kind_family k = fam) (ini # ks)"
  shows "well_built fam hp (make_change clouds ini ks ty tm p d src hp)"
proof -
  let ?ns = "stage_tree clouds (length hp) src ks"
  let ?cmd = "head_command ini d (length hp) src ?ns"
  have "chain_of fam ?cmd"
    using assms stage_tree_chain [of fam ks] by (simp add: head_command_def new_command_def)
  moreover have "has_data fam ?cmd"
    using assms by (simp add: head_command_def has_data_def new_command_def)
  moreover have "list_all (\<lambda>c. cmd_owner c = Some (length hp)) (commands ?cmd)"
    unfolding commands_head using stage_tree_owner [of "length hp" clouds src ks]
    by (simp add: head_command_def)
  ultimately show ?thesis
    by (simp add: well_built_def make_eq Let_def ready_def Change_def)
qed

lemmas make_defs = makeCloudNew_def makeLocalNew_def makeCloudMove_def makeLocalMove_def
  makeCloudUpdate_def makeLocalUpdate_def makeDelete_def

text \<open>
  C12. Every change the factory makes is a new object that leaves the others alone; its
  chain is one head command with the data and commands of the same family below it, every
  command is owned by the change, and the count of pending commands is their number.
\<close>

theorem factory_well_built:
  "well_built RecordF hp (makeCloudNew clouds r hp) \<and> well_built RecordF hp (makeLocalNew clouds r hp) \<and>
   well_built MovedF hp (makeCloudMove clouds m hp) \<and> well_built MovedF hp (makeLocalMove clouds m hp) \<and>
   well_built UpdatedF hp (makeCloudUpdate clouds u hp) \<and>
   well_built UpdatedF hp (makeLocalUpdate clouds u hp) \<and> well_built DeletedF hp (makeDelete clouds x hp)"
  by (simp add: make_defs make_well_built)

subsection \<open>Where a change goes\<close>

text \<open>The clouds that the commands below the head of the made change act on.\<close>

definition targets :: "nat \<times> heap \<Rightarrow> int list" where
  "targets r =
     (case ch_chain (last (snd r)) of
        [Some cmd] \<Rightarrow> map cmd_id (filter (\<lambda>c. \<not> is_local (cmd_kind c)) (tl (commands cmd)))
      | _ \<Rightarrow> [])"

lemma cloud_stage_targets:
  assumes "\<not> is_local k"
  shows "map cmd_id (filter (\<lambda>c. \<not> is_local (cmd_kind c)) (concat (map commands (stage_tree clouds a src [k]))))
           = filter (\<lambda>i. i \<noteq> src \<and> i \<noteq> 0) clouds"
proof -
  have l: "with_next [] (leaf a k i) = leaf a k i" for i by (simp add: leaf_def new_command_def)
  have "stage_tree clouds a src [k] = map (leaf a k) (stage_ids clouds src k)"
    by (cases "stage_ids clouds src k" rule: rev_cases) (simp_all add: butlast_append l)
  moreover have "map cmd_id (filter (\<lambda>c. \<not> is_local (cmd_kind c)) (concat (map commands (map (leaf a k) xs)))) = xs" for xs
    using assms by (induction xs) (simp_all add: commands_leaf)
  ultimately show ?thesis using assms by (simp add: stage_ids_def conj_commute)
qed

lemma local_stage_targets:
  assumes "is_local l" and "\<not> is_local k"
  shows "map cmd_id (filter (\<lambda>c. \<not> is_local (cmd_kind c)) (concat (map commands (stage_tree clouds a src [l, k]))))
           = filter (\<lambda>i. i \<noteq> src \<and> i \<noteq> 0) clouds"
  using assms cloud_stage_targets [OF assms(2), of clouds a src]
  by (simp add: stage_ids_def commands_with_next_leaf)

lemma targets_make:
  "targets (make_change clouds ini ks ty tm p d src hp) =
     map cmd_id (filter (\<lambda>c. \<not> is_local (cmd_kind c)) (concat (map commands (stage_tree clouds (length hp) src ks))))"
  by (simp add: targets_def make_eq Let_def commands_head)

text \<open>
  C15. A change reaches every other storage: below its head there is exactly one cloud command
  for each configured cloud but the one the change came from, in the order of the clouds,
  and none for the local storage.
\<close>

theorem factory_targets:
  "targets (makeCloudNew clouds r hp) = filter (\<lambda>i. i \<noteq> fr_cloud_id r \<and> i \<noteq> 0) clouds \<and>
   targets (makeLocalNew clouds r hp) = filter (\<lambda>i. i \<noteq> 0) clouds \<and>
   targets (makeCloudMove clouds m hp) = filter (\<lambda>i. i \<noteq> fm_cloud_id m \<and> i \<noteq> 0) clouds \<and>
   targets (makeLocalMove clouds m hp) = filter (\<lambda>i. i \<noteq> 0) clouds \<and>
   targets (makeCloudUpdate clouds u hp) = filter (\<lambda>i. i \<noteq> fu_cloud_id u \<and> i \<noteq> 0) clouds \<and>
   targets (makeLocalUpdate clouds u hp) = filter (\<lambda>i. i \<noteq> 0) clouds \<and>
   targets (makeDelete clouds x hp) = filter (\<lambda>i. i \<noteq> fd_cloud_id x \<and> i \<noteq> 0) clouds"
  by (simp add: make_defs targets_make local_stage_targets cloud_stage_targets
      del: stage_tree.simps)

subsection \<open>Completion\<close>

fun finish_n :: "nat \<Rightarrow> change \<Rightarrow> finished list \<times> change" where
  "finish_n 0 c = ([], c)"
| "finish_n (Suc n) c = (let (r, c1) = onCommandFinished c; (rs, c2) = finish_n n c1 in (r # rs, c2))"

lemma finish_n_counts:
  assumes "ch_pending c = int (Suc n)" and "ch_on_complete c = Some p"
  shows "finish_n (Suc n) c =
     (replicate n NotLast @ [Fire p (ch_dependents c)],
      c\<lparr>ch_pending := 0, ch_status := CompletedS, ch_dependents := []\<rparr>)"
  using assms
proof (induction n arbitrary: c)
  case 0
  then show ?case by (simp add: onCommandFinished_def Let_def)
next
  case (Suc n)
  let ?c = "c\<lparr>ch_pending := int (Suc n)\<rparr>"
  have "onCommandFinished c = (NotLast, ?c)" using Suc.prems by (simp add: onCommandFinished_def Let_def)
  moreover have "finish_n (Suc n) ?c = (replicate n NotLast @ [Fire p (ch_dependents c)],
      ?c\<lparr>ch_pending := 0, ch_status := CompletedS, ch_dependents := []\<rparr>)"
    using Suc.IH [of ?c] Suc.prems by simp
  ultimately show ?case by (simp only: finish_n.simps(2) [of "Suc n" c]) simp
qed

text \<open>
  C14. Completion is signalled exactly once, by the last command: when the commands of a
  started change report back one after the other, all reports but the last do nothing more
  than count, and the last one completes the change and hands over its dependents.
\<close>

theorem change_completes_once:
  assumes "well_built fam hp r" and "ch_chain (last (snd r)) = [Some cmd]"
  shows "finish_n (size_chain cmd) ((setOnComplete p (last (snd r)))\<lparr>ch_dependents := deps\<rparr>) =
     (replicate (size_chain cmd - 1) NotLast @ [Fire p deps],
      (setOnComplete p (last (snd r)))\<lparr>ch_pending := 0, ch_status := CompletedS, ch_dependents := []\<rparr>)"
proof -
  let ?c = "(setOnComplete p (last (snd r)))\<lparr>ch_dependents := deps\<rparr>"
  obtain n where n: "size_chain cmd = Suc n" by (cases cmd) simp
  have "ch_pending ?c = int (Suc n)" using assms n by (simp add: well_built_def setOnComplete_def)
  then show ?thesis using finish_n_counts [of ?c n p] n by (simp add: setOnComplete_def)
qed

theorem change_completes_once_witness:
  "fst (finish_n 3 ((setOnComplete empty_path (last (snd (makeCloudNew [1, 2]
       (record_cloud_new File empty_path ''id'' 3 9 ''h'' 1) []))))\<lparr>ch_dependents := [7]\<rparr>)) =
     [NotLast, NotLast, Fire empty_path [7]]"
proof -
  let ?r = "makeCloudNew [1, 2] (record_cloud_new File empty_path ''id'' 3 9 ''h'' 1) []"
  have w: "well_built RecordF [] ?r" by (simp add: makeCloudNew_def make_well_built)
  obtain cmd where c: "ch_chain (last (snd ?r)) = [Some cmd]" "size_chain cmd = 3"
    by (simp add: makeCloudNew_def make_eq Let_def head_command_def new_command_def stage_ids_def
        leaf_def record_cloud_new_def)
  from change_completes_once [OF w c(1), where p = empty_path and deps = "[7]"] c(2)
  show ?thesis by (simp add: numeral_3_eq_3)
qed

end
