(* ===== verification/EventRegistry.thy ===== *)
theory EventRegistry
  imports DTOs
begin

text \<open>
  \<open>src/event-registry.cpp\<close>: the registries of expected events. A provider adds an entry
  when it starts an operation of its own; the next report of that operation is recognised
  by \<open>check\<close> and dropped. The mutex makes each operation one atomic step, so an operation
  is a function on the map.
\<close>

type_synonym registry = "string \<rightharpoonup> change_type"

subsection \<open>\<open>ThreadSafeEventsRegistry\<close>\<close>

text \<open>\<open>emplace\<close> keeps an entry that is already there.\<close>

definition reg_add :: "string \<Rightarrow> change_type \<Rightarrow> registry \<Rightarrow> registry" where
  "reg_add p ct m = (if m p = None then m(p \<mapsto> ct) else m)"

definition reg_add_path :: "path \<Rightarrow> change_type \<Rightarrow> registry \<Rightarrow> registry" where
  "reg_add_path p ct m = reg_add (path_string p) ct m"

definition reg_check :: "string \<Rightarrow> change_type \<Rightarrow> registry \<Rightarrow> bool \<times> registry" where
  "reg_check p ct m = (if m p = Some ct then (True, m(p := None)) else (False, m))"

definition reg_check_path :: "path \<Rightarrow> change_type \<Rightarrow> registry \<Rightarrow> bool \<times> registry" where
  "reg_check_path p ct m = reg_check (path_string p) ct m"

definition reg_copy_map :: "registry \<Rightarrow> registry \<times> registry" where
  "reg_copy_map m = (m, Map.empty)"

subsection \<open>\<open>PrevEventsRegistry\<close>\<close>

definition prev_new :: "registry \<Rightarrow> registry" where
  "prev_new m = m"

definition prev_add :: "string \<Rightarrow> change_type \<Rightarrow> registry \<Rightarrow> registry" where
  "prev_add p ct m = (if m p = None then m(p \<mapsto> ct) else m)"

definition prev_check :: "string \<Rightarrow> change_type \<Rightarrow> registry \<Rightarrow> bool \<times> registry" where
  "prev_check p ct m = (if m p = Some ct then (True, m(p := None)) else (False, m))"

definition prev_check_path :: "path \<Rightarrow> change_type \<Rightarrow> registry \<Rightarrow> bool \<times> registry" where
  "prev_check_path p ct m = prev_check (path_string p) ct m"

subsection \<open>The contract of a registry\<close>

text \<open>
  What a provider relies on: an entry added under a free key is found, once, and only
  under its own key and type.
\<close>

locale expectations =
  fixes add :: "'k \<Rightarrow> 'e \<Rightarrow> 'm \<Rightarrow> 'm"
    and check :: "'k \<Rightarrow> 'e \<Rightarrow> 'm \<Rightarrow> bool \<times> 'm"
    and pending :: "'m \<Rightarrow> 'k \<Rightarrow> 'e option"
  assumes pending_add:
      "pending (add k e m) = (if pending m k = None then (pending m)(k \<mapsto> e) else pending m)"
    and check_result: "fst (check k e m) \<longleftrightarrow> pending m k = Some e"
    and pending_check:
      "pending (snd (check k e m)) = (if pending m k = Some e then (pending m)(k := None) else pending m)"
begin

lemma check_after_add: "pending m k = None \<Longrightarrow> fst (check k e (add k e m))"
  by (simp add: check_result pending_add)

lemma check_once: "fst (check k e m) \<Longrightarrow> \<not> fst (check k e (snd (check k e m)))"
  by (simp add: check_result pending_check)

lemma check_other:
  "k' \<noteq> k \<Longrightarrow> fst (check k' e' (snd (check k e m))) = fst (check k' e' m)"
  by (simp add: check_result pending_check)

lemma add_other: "k' \<noteq> k \<Longrightarrow> fst (check k' e' (add k e m)) = fst (check k' e' m)"
  by (simp add: check_result pending_add)

lemma add_blocked:
  "pending m k = Some e' \<Longrightarrow> e' \<noteq> e \<Longrightarrow> \<not> fst (check k e (add k e m))"
  by (simp add: check_result pending_add)

lemma check_restores:
  "pending m k = None \<Longrightarrow> pending (snd (check k e (add k e m))) = pending m"
  by (auto simp: pending_check pending_add fun_eq_iff)

text \<open>Entries added under distinct free keys, then reported.\<close>

fun add_list :: "('k \<times> 'e) list \<Rightarrow> 'm \<Rightarrow> 'm" where
  "add_list [] m = m"
| "add_list ((k, e) # r) m = add_list r (add k e m)"

lemma add_list_pending:
  "distinct (map fst es) \<Longrightarrow> (\<forall>k \<in> set (map fst es). pending m k = None) \<Longrightarrow>
     pending (add_list es m) = pending m ++ map_of es"
proof (induction es m rule: add_list.induct)
  case (1 m)
  then show ?case by simp
next
  case (2 k e r m)
  have "pending (add_list r (add k e m)) = pending (add k e m) ++ map_of r"
    using 2 by (intro "2.IH") (auto simp: pending_add)
  moreover have "map_of r k = None" using "2.prems"(1) by (simp add: map_of_eq_None_iff)
  then have "pending (add k e m) ++ map_of r = pending m ++ map_of ((k, e) # r)"
    using "2.prems"(2) by (intro ext) (simp add: pending_add map_add_def split: option.split)
  moreover have "add_list ((k, e) # r) m = add_list r (add k e m)" by simp
  ultimately show ?case by (simp only:)
qed

end

interpretation reg: expectations reg_add reg_check "\<lambda>m. m"
  by unfold_locales (simp_all add: reg_add_def reg_check_def)

interpretation prev: expectations prev_add prev_check "\<lambda>m. m"
  by unfold_locales (simp_all add: prev_add_def prev_check_def)

text \<open>
  Expectations of changes the program makes itself, in either registry: an entry added
  under a free key is recognised by its first report and only by it, the registry is then
  as before, and reports under other keys are judged as if the entry had not been there.
\<close>

theorem expected_once:
  "(m k = None \<longrightarrow>
      fst (reg_check k e (reg_add k e m)) \<and> snd (reg_check k e (reg_add k e m)) = m \<and>
      \<not> fst (reg_check k e (snd (reg_check k e (reg_add k e m)))) \<and>
      fst (prev_check k e (prev_add k e m)) \<and> snd (prev_check k e (prev_add k e m)) = m) \<and>
   (\<forall>k'. k' = k \<or> fst (reg_check k' e' (reg_add k e m)) = fst (reg_check k' e' m) \<and>
                     fst (prev_check k' e' (prev_add k e m)) = fst (prev_check k' e' m))"
  using reg.check_after_add [of m k e] reg.check_restores [of m k e] reg.check_once [of k e]
    prev.check_after_add [of m k e] prev.check_restores [of m k e] reg.add_other prev.add_other
  by blast

theorem expected_once_witness:
  "fst (reg_check ''/h/a'' New (reg_add ''/h/a'' New Map.empty))"
  using expected_once [of Map.empty "''/h/a''" New] by simp

text \<open>
  A second expectation under a key that is taken is lost: \<open>add\<close> keeps the first entry, so
  the report of the second operation is not recognised and counts as a change of the user.
\<close>

theorem expectation_lost:
  assumes "m k = Some e'" and "e' \<noteq> e"
  shows "reg_add k e m = m \<and> \<not> fst (reg_check k e (reg_add k e m))"
  using assms reg.add_blocked [of m k e' e] by (simp add: reg_add_def)

theorem expectation_lost_witness:
  "\<not> fst (reg_check ''/h/a'' Move (reg_add ''/h/a'' Move (reg_add ''/h/a'' Delete Map.empty)))"
  using expectation_lost [of "reg_add ''/h/a'' Delete Map.empty" "''/h/a''" Delete Move]
  by (simp add: reg_add_def)

text \<open>Several entries checked one after another: the events reported by a provider.\<close>

fun check_all :: "(string \<times> change_type) list \<Rightarrow> registry \<Rightarrow> bool list \<times> registry" where
  "check_all [] m = ([], m)"
| "check_all ((k, e) # r) m =
     (let (b, m1) = prev_check k e m; (bs, m2) = check_all r m1 in (b # bs, m2))"

lemma check_all_length [simp]: "length (fst (check_all ks m)) = length ks"
  by (induction ks m rule: check_all.induct) (auto split: prod.splits)

lemma prev_check_pair: "prev_check k e m = (m k = Some e, if m k = Some e then m(k := None) else m)"
  by (simp add: prev_check_def)

lemma prev_check_sub: "snd (prev_check k e m) \<subseteq>\<^sub>m m"
  by (auto simp: prev_check_def map_le_def)

end
