(* ===== verification/SafeQueue.thy ===== *)
theory SafeQueue
  imports Prelude
begin

text \<open>
  \<open>include/thread-safe-queue.h\<close>: the queue that connects the threads. The first part is
  the queue as a data type, every operation atomic under the mutex; the second part opens
  the condition-variable protocol of \<open>pop\<close>, \<open>push\<close> and \<open>close\<close> into its steps.
\<close>

subsection \<open>Operations\<close>

record 'a ts_queue =
  q_items :: "'a list"
  q_closed :: bool

definition q_new :: "'a ts_queue" where
  "q_new = \<lparr>q_items = [], q_closed = False\<rparr>"

definition q_push :: "'a \<Rightarrow> 'a ts_queue \<Rightarrow> 'a ts_queue" where
  "q_push x q = q\<lparr>q_items := q_items q @ [x]\<rparr>"

fun q_push_all :: "'a list \<Rightarrow> 'a ts_queue \<Rightarrow> 'a ts_queue" where
  "q_push_all [] q = q"
| "q_push_all (x # xs) q = q_push_all xs (q\<lparr>q_items := q_items q @ [x]\<rparr>)"

definition q_try_pop :: "'a ts_queue \<Rightarrow> 'a option \<times> 'a ts_queue" where
  "q_try_pop q =
     (case q_items q of [] \<Rightarrow> (None, q) | x # xs \<Rightarrow> (Some x, q\<lparr>q_items := xs\<rparr>))"

text \<open>\<open>pop\<close> waits for an element or for \<open>close\<close>; \<open>WouldBlock\<close> is the waiting caller.\<close>

datatype 'a popped = Got 'a | PopClosed | WouldBlock

definition q_pop :: "'a ts_queue \<Rightarrow> 'a popped \<times> 'a ts_queue" where
  "q_pop q =
     (if q_items q \<noteq> [] \<or> q_closed q
      then (case q_items q of x # xs \<Rightarrow> (Got x, q\<lparr>q_items := xs\<rparr>) | [] \<Rightarrow> (PopClosed, q))
      else (WouldBlock, q))"

definition q_empty :: "'a ts_queue \<Rightarrow> bool" where
  "q_empty q \<longleftrightarrow> q_items q = []"

definition q_close :: "'a ts_queue \<Rightarrow> 'a ts_queue" where
  "q_close q = q\<lparr>q_closed := True\<rparr>"

definition q_size :: "'a ts_queue \<Rightarrow> int" where
  "q_size q = narrow_int (int (length (q_items q)))"

subsection \<open>The FIFO contract\<close>

locale fifo =
  fixes push :: "'a \<Rightarrow> 'q \<Rightarrow> 'q"
    and try_pop :: "'q \<Rightarrow> 'a option \<times> 'q"
    and content :: "'q \<Rightarrow> 'a list"
  assumes content_push: "content (push x q) = content q @ [x]"
    and try_pop_result: "fst (try_pop q) = (case content q of [] \<Rightarrow> None | x # _ \<Rightarrow> Some x)"
    and content_try_pop: "content (snd (try_pop q)) = tl (content q)"
begin

text \<open>Taking until nothing is left, as the draining loops of the callers do.\<close>

fun drain :: "nat \<Rightarrow> 'q \<Rightarrow> 'a list \<times> 'q" where
  "drain 0 q = ([], q)"
| "drain (Suc n) q =
     (case try_pop q of
        (None, q1) \<Rightarrow> ([], q1)
      | (Some x, q1) \<Rightarrow> (let (xs, q2) = drain n q1 in (x # xs, q2)))"

lemma try_pop_Nil: "content q = [] \<Longrightarrow> \<exists>q1. try_pop q = (None, q1) \<and> content q1 = []"
  using try_pop_result [of q] content_try_pop [of q] by (cases "try_pop q") simp

lemma try_pop_Cons: "content q = x # xs \<Longrightarrow> \<exists>q1. try_pop q = (Some x, q1) \<and> content q1 = xs"
  using try_pop_result [of q] content_try_pop [of q] by (cases "try_pop q") simp

lemma drain_content:
  "length (content q) < n \<Longrightarrow> fst (drain n q) = content q \<and> content (snd (drain n q)) = []"
proof (induction n arbitrary: q)
  case 0
  then show ?case by simp
next
  case (Suc n)
  show ?case
  proof (cases "content q")
    case Nil
    then show ?thesis using try_pop_Nil [OF Nil] by auto
  next
    case (Cons x xs)
    obtain q1 where q1: "try_pop q = (Some x, q1)" "content q1 = xs"
      using try_pop_Cons [OF Cons] by blast
    have "fst (drain n q1) = xs \<and> content (snd (drain n q1)) = []"
      using Suc.IH [of q1] Suc.prems Cons q1 by simp
    then show ?thesis using q1 Cons by (cases "drain n q1") simp
  qed
qed

lemma push_then_pop_order:
  "content q = x # xs \<Longrightarrow> fst (try_pop (push y q)) = Some x"
  by (simp add: try_pop_result content_push)

end

interpretation tsq: fifo q_push q_try_pop q_items
  by unfold_locales (auto simp: q_push_def q_try_pop_def split: list.splits)

lemma q_push_all_items: "q_items (q_push_all xs q) = q_items q @ xs"
  by (induction xs arbitrary: q) simp_all

lemma q_push_all_closed [simp]: "q_closed (q_push_all xs q) = q_closed q"
  by (induction xs arbitrary: q) simp_all

lemma q_push_all_fold: "q_push_all xs q = fold q_push xs q"
  by (induction xs arbitrary: q) (simp_all add: q_push_def)

lemma q_pop_closed_iff: "fst (q_pop q) = PopClosed \<longleftrightarrow> q_items q = [] \<and> q_closed q"
  by (auto simp: q_pop_def split: list.splits)

lemma q_pop_block_iff: "fst (q_pop q) = WouldBlock \<longleftrightarrow> q_items q = [] \<and> \<not> q_closed q"
  by (auto simp: q_pop_def split: list.splits)

lemma q_pop_got_iff: "fst (q_pop q) = Got x \<longleftrightarrow> (\<exists>xs. q_items q = x # xs)"
  by (auto simp: q_pop_def split: list.splits)

subsection \<open>The condition-variable protocol\<close>

text \<open>
  One consumer (every queue of the program has one). \<open>Tested\<close> is the consumer between the
  failed test of the predicate and the moment \<open>wait\<close> releases the mutex. \<open>push\<close> runs
  under the mutex; \<open>close\<close> stores the flag and notifies without it.
\<close>

datatype consumer = CRun | CLocked | Tested | CBlocked | CWoken | CDone

datatype closer = CloseIdle | CloseStored | CloseDone

record qproto =
  qp_len :: nat
  qp_flag :: bool
  qp_cons :: consumer
  qp_closer :: closer

definition qp_init :: qproto where
  "qp_init = \<lparr>qp_len = 0, qp_flag = False, qp_cons = CRun, qp_closer = CloseIdle\<rparr>"

fun holds_mutex :: "consumer \<Rightarrow> bool" where
  "holds_mutex CLocked = True"
| "holds_mutex Tested = True"
| "holds_mutex _ = False"

fun wake :: "consumer \<Rightarrow> consumer" where
  "wake CBlocked = CWoken"
| "wake c = c"

inductive qp_step :: "qproto \<Rightarrow> qproto \<Rightarrow> bool" where
  qp_lock: "qp_cons s \<in> {CRun, CWoken} \<Longrightarrow> qp_step s (s\<lparr>qp_cons := CLocked\<rparr>)"
| qp_take: "qp_cons s = CLocked \<Longrightarrow> 0 < qp_len s \<Longrightarrow>
     qp_step s (s\<lparr>qp_cons := CRun, qp_len := qp_len s - 1\<rparr>)"
| qp_end: "qp_cons s = CLocked \<Longrightarrow> qp_len s = 0 \<Longrightarrow> qp_flag s \<Longrightarrow>
     qp_step s (s\<lparr>qp_cons := CDone\<rparr>)"
| qp_test: "qp_cons s = CLocked \<Longrightarrow> qp_len s = 0 \<Longrightarrow> \<not> qp_flag s \<Longrightarrow>
     qp_step s (s\<lparr>qp_cons := Tested\<rparr>)"
| qp_block: "qp_cons s = Tested \<Longrightarrow> qp_step s (s\<lparr>qp_cons := CBlocked\<rparr>)"
| qp_push: "\<not> holds_mutex (qp_cons s) \<Longrightarrow>
     qp_step s (s\<lparr>qp_len := Suc (qp_len s), qp_cons := wake (qp_cons s)\<rparr>)"
| qp_store: "qp_closer s = CloseIdle \<Longrightarrow>
     qp_step s (s\<lparr>qp_flag := True, qp_closer := CloseStored\<rparr>)"
| qp_notify: "qp_closer s = CloseStored \<Longrightarrow>
     qp_step s (s\<lparr>qp_cons := wake (qp_cons s), qp_closer := CloseDone\<rparr>)"

inductive qp_reach :: "qproto \<Rightarrow> bool" where
  qp_start: "qp_reach qp_init"
| qp_next: "qp_reach s \<Longrightarrow> qp_step s t \<Longrightarrow> qp_reach t"

definition qp_inv :: "qproto \<Rightarrow> bool" where
  "qp_inv s \<longleftrightarrow> (qp_cons s \<in> {Tested, CBlocked} \<longrightarrow> qp_len s = 0) \<and>
               (qp_flag s \<longleftrightarrow> qp_closer s \<noteq> CloseIdle)"

lemma wake_cases: "wake c = CBlocked \<longleftrightarrow> False" "wake c = Tested \<longleftrightarrow> c = Tested"
  by (cases c; simp)+

lemma qp_step_inv: "qp_step s t \<Longrightarrow> qp_inv s \<Longrightarrow> qp_inv t"
proof (induction rule: qp_step.induct)
  case (qp_push s)
  then show ?case by (cases "qp_cons s") (auto simp: qp_inv_def)
next
  case (qp_notify s)
  then show ?case by (cases "qp_cons s") (auto simp: qp_inv_def)
qed (auto simp: qp_inv_def)

lemma qp_reach_inv: "qp_reach s \<Longrightarrow> qp_inv s"
proof (induction rule: qp_reach.induct)
  case qp_start
  show ?case by (simp add: qp_inv_def qp_init_def)
next
  case (qp_next s t)
  then show ?case by (blast intro: qp_step_inv)
qed

inductive_simps qp_step_blocked: "qp_step \<lparr>qp_len = n, qp_flag = b, qp_cons = CBlocked, qp_closer = c\<rparr> t"

end
