(* ===== verification/LocalStorage.thy ===== *)
theory LocalStorage
  imports Changes EventRegistry SafeQueue
begin

text \<open>
  \<open>src/LocalStorage.cpp\<close>: the local directory as a storage. Reports of the file watcher
  become events, events become changes unless they are echoes of the program's own writes;
  the second half applies changes of other storages to the directory. The watcher library,
  XXH64 and \<open>weakly_canonical\<close> are parameters. \<open>proccessChanges\<close> runs in the polling thread
  alone.
\<close>

subsection \<open>State\<close>

text \<open>
  \<open>ls_on_change\<close>: whether the callback is set; \<open>ls_signal\<close>: the flag it raises in
  \<open>SyncManager\<close>. \<open>factory_clouds\<close> are the ids \<open>ChangeFactory\<close> iterates over.
\<close>

record lsys = sys +
  w_heap :: heap
  factory_clouds :: "int list"
  ls_home :: path
  ls_id :: int
  ls_events :: "file_event ts_queue"
  ls_changes :: "nat ts_queue"
  ls_expected :: registry
  ls_on_change :: bool
  ls_signal :: bool

definition expect :: "path \<Rightarrow> change_type \<Rightarrow> ('s lsys_scheme, unit) act" where
  "expect p ct = modify (\<lambda>w. w\<lparr>ls_expected := reg_add_path p ct (ls_expected w)\<rparr>)"

definition expected :: "path \<Rightarrow> change_type \<Rightarrow> ('s lsys_scheme, bool) act" where
  "expected p ct w =
     (let (b, m) = reg_check_path p ct (ls_expected w) in (Inr b, w\<lparr>ls_expected := m\<rparr>))"

text \<open>A new change of the factory, pushed to \<open>_changes_queue\<close>.\<close>

definition emit :: "(int list \<Rightarrow> heap \<Rightarrow> nat \<times> heap) \<Rightarrow> ('s lsys_scheme, unit) act" where
  "emit mk = modify (\<lambda>w. let (a, hp) = mk (factory_clouds w) (w_heap w)
                         in w\<lparr>w_heap := hp, ls_changes := q_push a (ls_changes w)\<rparr>)"

subsection \<open>\<open>CallbackDispatcher::syncDbWrite\<close>\<close>

text \<open>
  The three overloads, from the point where the dispatcher is idle and its mutex is held.
\<close>

definition syncDbWrite_record :: "file_record_dto \<Rightarrow> ('s sys_scheme, file_record_dto) act" where
  "syncDbWrite_record d =
     (if fr_cloud_id d = 0
      then andThen (db_call (\<lambda>rc. add_file rc d)) (\<lambda>gid. ret (d\<lparr>fr_global_id := gid\<rparr>))
      else andThen (db_call (\<lambda>rc. add_file_link rc d)) (\<lambda>_. ret d))"

definition syncDbWrite_updated :: "file_updated_dto \<Rightarrow> ('s sys_scheme, unit) act" where
  "syncDbWrite_updated d =
     (if fu_cloud_id d = 0 then db_call (\<lambda>rc. update_file_updated rc d)
      else db_call (\<lambda>rc. update_file_link_updated rc d))"

definition syncDbWrite_records :: "file_record_dto list \<Rightarrow> ('s sys_scheme, file_record_dto list) act" where
  "syncDbWrite_records ds = for_each syncDbWrite_record ds"

subsection \<open>Watcher reports\<close>

datatype effect_type = ERename | EModify | ECreate | EDestroy | EOwner | EOther

datatype path_type = PDir | PFile | PHardLink | PSymLink | PWatcher | POther

record wtr_event =
  we_path :: path
  we_effect :: effect_type
  we_type :: path_type
  we_time :: int
  we_associated :: "path option"

definition push_event :: "file_event \<Rightarrow> ('s lsys_scheme, unit) act" where
  "push_event e = modify (\<lambda>w. w\<lparr>ls_events := q_push e (ls_events w)\<rparr>)"

definition onChange :: "('s lsys_scheme, unit) act" where
  "onChange w = (if ls_on_change w then (Inr (), w\<lparr>ls_signal := True\<rparr>) else (Inl BadFunctionCall, w))"

definition onFsEvent :: "(path \<Rightarrow> path option) \<Rightarrow> wtr_event \<Rightarrow> ('s lsys_scheme, unit) act" where
  "onFsEvent canon e w =
     (if we_effect e \<in> {ECreate, EModify} \<and> \<not> fs_exists (w_fs w) (we_path e) then ret () w
      else if we_type e = PWatcher then ret () w
      else
        (let real = (case canon (we_path e) of None \<Rightarrow> we_path e | Some q \<Rightarrow> q);
             rel = lexically_relative real (ls_home w);
             time = fromWatcherTime (we_time e)
         in if path_empty rel \<or> is_dot rel then ret () w
            else andThen
              (case we_effect e of
                 ERename \<Rightarrow> push_event (file_event_assoc (we_path e) time Rename
                              (map_option (\<lambda>q. core_event q time Rename) (we_associated e)))
               | ECreate \<Rightarrow> push_event (file_event_plain (we_path e) time New)
               | EDestroy \<Rightarrow> push_event (file_event_plain (we_path e) time Delete)
               | EModify \<Rightarrow> (if fs_is_directory (w_fs w) (we_path e) then ret ()
                            else push_event (file_event_plain (we_path e) time Update))
               | _ \<Rightarrow> ret ())
              (\<lambda>_. onChange) w))"

subsection \<open>Events to changes\<close>

definition handleDeleted :: "file_event \<Rightarrow> ('s lsys_scheme, unit) act" where
  "handleDeleted evt =
     andThen (expected (ev_path evt) Delete) (\<lambda>own. if own then ret () else
     (\<lambda>w. if ignoreTmp (ev_path evt) then ret () w
          else if fs_exists (w_fs w) (ev_path evt) \<or> thatFileTmpExists (w_fs w) (ev_path evt) then ret () w
          else (let rel = lexically_relative (ev_path evt) (ls_home w)
                in andThen (db_call (\<lambda>rc. getFileByPath rc rel))
                     (\<lambda>r. case r of
                        None \<Rightarrow> ret ()
                      | Some f \<Rightarrow> emit (\<lambda>clouds. makeDelete clouds (deleted_local rel (fr_global_id f) (ev_when evt)))) w)))"

definition handleCreated :: "(string \<Rightarrow> u64) \<Rightarrow> file_event \<Rightarrow> ('s lsys_scheme, unit) act" where
  "handleCreated xxh64 evt =
     (if ignoreTmp (ev_path evt) then ret ()
      else andThen (expected (ev_path evt) New) (\<lambda>own. if own then ret () else
      (\<lambda>w. let full = ev_path evt; f = w_fs w;
               rel = lexically_relative full (ls_home w);
               t = (if fs_is_directory f full then Directory else if isDoc full then Document else File);
               hash = (if t \<noteq> Directory then computeFileHash xxh64 f full else 0)
           in andThen (fs_query (\<lambda>f. if t \<noteq> Directory then fs_file_size f full else Inr 0))
                (\<lambda>sz. emit (\<lambda>clouds. makeLocalNew clouds
                   (record_local_new t rel sz (ev_when evt) hash
                      (if ev_file_id evt = 0 then getFileId f full else ev_file_id evt)))) w)))"

definition handleUpdated :: "(string \<Rightarrow> u64) \<Rightarrow> file_event \<Rightarrow> ('s lsys_scheme, unit) act" where
  "handleUpdated xxh64 evt w =
     (if ignoreTmp (ev_path evt) then ret () w
      else
        (let full = ev_path evt; f = w_fs w;
             rel = lexically_relative full (ls_home w);
             file_id = getFileId f full
         in andThen (db_call (\<lambda>rc. getFileByFileId rc file_id))
           (\<lambda>r1. andThen (case r1 of Some r \<Rightarrow> ret (Some r) | None \<Rightarrow> db_call (\<lambda>rc. getFileByPath rc rel))
           (\<lambda>r2. case r2 of
              None \<Rightarrow> ret ()
            | Some r \<Rightarrow>
                (let hash = computeFileHash xxh64 f full; tm = fromWatcherTime (ev_when evt)
                 in andThen (lift_res (if hash = 0 \<or> \<not> fs_exists f full then Inr True
                                       else if fr_mtime r \<ge> tm
                                       then (case get_hash_num (fr_hash r) of Inl e \<Rightarrow> Inl e | Inr h \<Rightarrow> Inr (h = hash))
                                       else Inr False))
                   (\<lambda>fake. if fake then ret ()
                           else andThen (fs_query (\<lambda>f. fs_file_size f full))
                             (\<lambda>sz. let d = updated_local (fr_type r) (fr_global_id r) hash tm rel sz file_id
                                   in andThen (syncDbWrite_updated d)
                                        (\<lambda>_. emit (\<lambda>clouds. makeLocalUpdate clouds d))))))) w))"

definition handleMoved :: "(string \<Rightarrow> u64) \<Rightarrow> file_event \<Rightarrow> ('s lsys_scheme, unit) act" where
  "handleMoved xxh64 evt =
     (case ev_associated evt of
        None \<Rightarrow> throw NullPointer
      | Some ass \<Rightarrow>
          (if ignoreTmp (ev_path evt)
           then (if \<not> ignoreTmp (ev_path ass) then handleUpdated xxh64 (of_core ass) else ret ())
           else andThen (expected (ev_path evt) Move) (\<lambda>own. if own then ret () else
             (\<lambda>w. let full_old = ev_path evt; full_new = ev_path ass;
                      new_rel = lexically_relative full_new (ls_home w);
                      old_rel = lexically_relative full_old (ls_home w);
                      file_id = getFileId (w_fs w) full_new
                  in andThen (db_call (\<lambda>rc. getFileByFileId rc file_id))
                       (\<lambda>r. case r of
                          None \<Rightarrow> handleCreated xxh64 (of_core ass)
                        | Some f \<Rightarrow> emit (\<lambda>clouds. makeLocalMove clouds
                            (moved_local (fr_type f) (fr_global_id f) (ev_when evt) old_rel new_rel))) w))))"

text \<open>
  A rename without its other half is a deletion, a creation (with all that lies below a
  directory) or an update. The data base is asked for the absolute path.
\<close>

definition handleRenamed :: "(string \<Rightarrow> u64) \<Rightarrow> file_event \<Rightarrow> ('s lsys_scheme, unit) act" where
  "handleRenamed xxh64 evt =
     (case ev_associated evt of
        Some ass \<Rightarrow>
          (if \<not> ignoreTmp (ev_path evt) \<and> ignoreTmp (ev_path ass) then ret () else handleMoved xxh64 evt)
      | None \<Rightarrow>
          (\<lambda>w. let full = ev_path evt
               in if \<not> fs_exists (w_fs w) full then handleDeleted evt w
                  else andThen (db_call (\<lambda>rc. getFileByPath rc full))
                    (\<lambda>r. if r = None
                         then andThen (handleCreated xxh64 evt)
                           (\<lambda>_ w1. if fs_is_directory (w_fs w1) full
                                   then andThen (fs_query (\<lambda>f. fs_recursive f full))
                                     (\<lambda>entries. andThen (for_each (\<lambda>p w2.
                                         if ignoreTmp p then ret () w2
                                         else if fs_is_regular_file (w_fs w2) p \<or> fs_is_directory (w_fs w2) p
                                         then handleCreated xxh64 (file_event_plain p (ev_when evt) New) w2
                                         else ret () w2) entries) (\<lambda>_. ret ())) w1
                                   else ret () w1)
                         else handleUpdated xxh64 evt) w))"

definition handle_event :: "(string \<Rightarrow> u64) \<Rightarrow> file_event \<Rightarrow> ('s lsys_scheme, unit) act" where
  "handle_event xxh64 evt =
     (case ev_type evt of
        New \<Rightarrow> handleCreated xxh64 evt
      | Delete \<Rightarrow> handleDeleted evt
      | Rename \<Rightarrow> handleRenamed xxh64 evt
      | Update \<Rightarrow> handleUpdated xxh64 evt
      | _ \<Rightarrow> ret ())"

text \<open>The loop over \<open>_events_buff\<close>, with the number of turns as fuel.\<close>

fun event_loop :: "(string \<Rightarrow> u64) \<Rightarrow> nat \<Rightarrow> ('s lsys_scheme, unit) act" where
  "event_loop xxh64 0 w = ret () w"
| "event_loop xxh64 (Suc n) w =
     (case q_try_pop (ls_events w) of
        (None, q) \<Rightarrow> ret () (w\<lparr>ls_events := q\<rparr>)
      | (Some evt, q) \<Rightarrow>
          andThen (handle_event xxh64 evt) (\<lambda>_. event_loop xxh64 n) (w\<lparr>ls_events := q\<rparr>))"

fun change_loop :: "nat \<Rightarrow> ('s lsys_scheme, nat list) act" where
  "change_loop 0 w = ret [] w"
| "change_loop (Suc n) w =
     (case q_try_pop (ls_changes w) of
        (None, q) \<Rightarrow> ret [] (w\<lparr>ls_changes := q\<rparr>)
      | (Some a, q) \<Rightarrow> andThen (change_loop n) (\<lambda>as. ret (a # as)) (w\<lparr>ls_changes := q\<rparr>))"

definition local_proccessChanges :: "(string \<Rightarrow> u64) \<Rightarrow> ('s lsys_scheme, nat list) act" where
  "local_proccessChanges xxh64 =
     andThen (\<lambda>w. event_loop xxh64 (Suc (length (q_items (ls_events w)))) w)
       (\<lambda>_ w. change_loop (Suc (length (q_items (ls_changes w)))) w)"

definition local_hasChanges :: "'s lsys_scheme \<Rightarrow> bool" where
  "local_hasChanges w \<longleftrightarrow> \<not> q_empty (ls_events w)"

subsection \<open>Applying changes of other storages\<close>

abbreviation full_path :: "'s lsys_scheme \<Rightarrow> path \<Rightarrow> path" where
  "full_path w rel \<equiv> path_div (ls_home w) rel"

text \<open>The text \<open>home + "/" + parent + "/.-tmp-SyncHarbor-" + name\<close> of \<open>proccesUpload\<close>.\<close>

definition upload_tmp :: "path \<Rightarrow> path \<Rightarrow> path" where
  "upload_tmp home rel =
     path_of_string (path_string home @ ''/'' @ path_string (parent_path rel) @ ''/'' @ tmp_prefix @ filename rel)"

definition local_proccesUpload ::
  "(string \<Rightarrow> u64) \<Rightarrow> file_record_dto \<Rightarrow> string \<Rightarrow> ('s lsys_scheme, file_record_dto) act" where
  "local_proccesUpload xxh64 dto response w =
     (let full = full_path w (fr_rel_path dto)
      in if fr_cloud_id dto \<noteq> 0
         then andThen (fs_call (fs_rename (upload_tmp (ls_home w) (fr_rel_path dto)) full))
           (\<lambda>_. andThen (query (\<lambda>w. getFileId (w_fs w) full))
           (\<lambda>file_id. andThen (fs_query (\<lambda>f. fs_file_size f full))
           (\<lambda>sz. andThen (query (\<lambda>w. computeFileHash xxh64 (w_fs w) full))
           (\<lambda>hash. andThen (fs_query (\<lambda>f. convertSystemTime f full))
           (\<lambda>mt. let d1 = dto\<lparr>fr_file_id := file_id, fr_size := sz, fr_hash := HashNum hash,
                              fr_mtime := mt, fr_cloud_id := ls_id w\<rparr>
                 in andThen (db_call (\<lambda>rc. add_file rc d1))
                      (\<lambda>gid. andThen (db_call (\<lambda>rc. add_file_link rc (dto\<lparr>fr_global_id := gid\<rparr>)))
                      (\<lambda>_. ret (d1\<lparr>fr_global_id := gid\<rparr>)))))))) w
         else andThen (fs_query (\<lambda>f. convertSystemTime f full))
           (\<lambda>mt. let d1 = dto\<lparr>fr_file_id := getFileId (w_fs w) full,
                              fr_hash := HashNum (computeFileHash xxh64 (w_fs w) full), fr_mtime := mt\<rparr>
                 in andThen (db_call (\<lambda>rc. add_file rc d1)) (\<lambda>gid. ret (d1\<lparr>fr_global_id := gid\<rparr>))) w)"

definition local_proccesUpdate ::
  "(string \<Rightarrow> u64) \<Rightarrow> file_updated_dto \<Rightarrow> string \<Rightarrow> ('s lsys_scheme, file_updated_dto) act" where
  "local_proccesUpdate xxh64 dto response w =
     (let full = full_path w (fu_rel_path dto);
          tmp = path_div_seg (path_div (ls_home w) (parent_path (fu_rel_path dto)))
                  (tmp_prefix @ filename (fu_rel_path dto));
          store = (\<lambda>d. andThen (db_call (\<lambda>rc. update_file_updated rc d)) (\<lambda>_. ret d))
      in if fu_cloud_id dto \<noteq> 0
         then andThen (log_format (path_string (fu_rel_path dto))
                [ArgText ''trying to delete: %s'', ArgText (path_string (ls_home w) @ ''/'' @ path_string (fu_rel_path dto))])
           (\<lambda>_. andThen (expect full Delete)
           (\<lambda>_. andThen (fs_call (fs_remove full))
           (\<lambda>_. andThen (log_format (path_string (fu_rel_path dto))
                [ArgText ''trying to rename from %s to %s'', ArgText (path_string tmp), ArgText (path_string full)])
           (\<lambda>_. andThen (fs_call (fs_rename tmp full))
           (\<lambda>_. andThen (db_call (\<lambda>rc. update_file_link_updated rc dto))
           (\<lambda>_. andThen (query (\<lambda>w. getFileId (w_fs w) full))
           (\<lambda>file_id. andThen (fs_query (\<lambda>f. fs_file_size f full))
           (\<lambda>sz. andThen (query (\<lambda>w. computeFileHash xxh64 (w_fs w) full))
           (\<lambda>hash. andThen (fs_query (\<lambda>f. convertSystemTime f full))
           (\<lambda>mt. store (dto\<lparr>fu_file_id := file_id, fu_size := sz, fu_hash := HashNum hash,
                            fu_mtime := mt, fu_cloud_id := ls_id w\<rparr>))))))))))) w
         else store dto w)"

text \<open>One entry below a moved directory: its row, if the file id is known, gets the new path.\<close>

definition move_entry :: "path \<Rightarrow> ('s lsys_scheme, unit) act" where
  "move_entry full w =
     (let rel = lexically_relative full (ls_home w); file_id = getFileId (w_fs w) full
      in andThen (db_call (\<lambda>rc. getFileByFileId rc file_id))
           (\<lambda>r. case r of
              None \<Rightarrow> ret ()
            | Some f \<Rightarrow>
                andThen (fs_query (\<lambda>f. convertSystemTime f full))
                  (\<lambda>mt. db_call (\<lambda>rc. update_file_moved rc
                     (moved_local (fr_type f) (fr_global_id f) mt rel rel)))) w)"

definition local_proccesMove ::
  "file_moved_dto \<Rightarrow> string \<Rightarrow> ('s lsys_scheme, file_moved_dto) act" where
  "local_proccesMove dto response w =
     (if fm_cloud_id dto = 0
      then andThen (db_call (\<lambda>rc. update_file_moved rc dto)) (\<lambda>_. ret dto) w
      else
        (let old = full_path w (fm_old_rel_path dto); full = full_path w (fm_new_rel_path dto)
         in andThen (log_format (path_string (fm_old_rel_path dto))
                [ArgText ''trying to rename from %s to %s'',
                 ArgText (path_string (ls_home w) @ ''/'' @ path_string (fm_old_rel_path dto)),
                 ArgText (path_string (ls_home w) @ ''/'' @ path_string (fm_new_rel_path dto))])
           (\<lambda>_. andThen (expect old Move)
           (\<lambda>_. andThen (fs_call (fs_rename old full))
           (\<lambda>_. andThen (db_call (\<lambda>rc. update_file_link_moved rc dto))
           (\<lambda>_. andThen (fs_query (\<lambda>f. convertSystemTime f full))
           (\<lambda>mt. let d1 = dto\<lparr>fm_mtime := mt, fm_cloud_id := ls_id w\<rparr>
                 in andThen (db_call (\<lambda>rc. update_file_moved rc d1))
           (\<lambda>_ w1. if fs_is_directory (w_fs w1) full
                   then andThen (fs_query (\<lambda>f. fs_recursive f full))
                          (\<lambda>entries. andThen (for_each move_entry entries) (\<lambda>_. ret d1)) w1
                   else ret d1 w1)))))) w))"

definition local_proccesDelete :: "file_deleted_dto \<Rightarrow> string \<Rightarrow> ('s lsys_scheme, unit) act" where
  "local_proccesDelete dto response w =
     (if fd_cloud_id dto \<noteq> 0 then expect (full_path w (fd_rel_path dto)) Delete w else ret () w)"

text \<open>The set-up of requests is empty for the local storage.\<close>

definition local_ops :: "(string \<Rightarrow> u64) \<Rightarrow> ('s lsys_scheme) storage_ops" where
  "local_ops xxh64 =
     \<lparr>so_setup_upload = (\<lambda>_ h. ret h), so_setup_update = (\<lambda>_ h. ret h),
      so_setup_download_new = (\<lambda>_ h. ret h), so_setup_download_updated = (\<lambda>_ h. ret h),
      so_setup_delete = (\<lambda>_ h. ret h), so_setup_move = (\<lambda>_ h. ret h),
      so_proccesUpload = local_proccesUpload xxh64, so_proccesUpdate = local_proccesUpdate xxh64,
      so_proccesDelete = local_proccesDelete, so_proccesMove = local_proccesMove,
      so_getHomeDir = (\<lambda>w. path_string (ls_home w))\<rparr>"

subsection \<open>Directories and the initial scan\<close>

text \<open>The loop of \<open>createPath\<close> over the missing elements, below \<open>accum\<close>.\<close>

fun create_loop :: "path \<Rightarrow> string list \<Rightarrow> ('s lsys_scheme, file_record_dto list) act" where
  "create_loop accum [] w = ret [] w"
| "create_loop accum (seg # rest) w =
     (let accum1 = path_div accum \<lparr>rooted = False, segs = [seg]\<rparr>
      in andThen (fs_call (fs_create_directory accum1))
           (\<lambda>made. if made
              then andThen (fs_query (\<lambda>f. convertSystemTime f accum1))
                (\<lambda>mt. andThen (query (\<lambda>w. record_local_new Directory (lexically_relative accum1 (ls_home w)) 0 mt 0
                                              (getFileId (w_fs w) accum1)))
                (\<lambda>dto. andThen (expect accum1 New)
                (\<lambda>_. andThen (create_loop accum1 rest) (\<lambda>ds. ret (dto # ds)))))
              else create_loop accum1 rest) w)"

definition path_prefix :: "path \<Rightarrow> path \<Rightarrow> path" where
  "path_prefix norm missing =
     \<lparr>rooted = rooted norm, segs = take (length (segs norm) - length (segs missing)) (segs norm)\<rparr>"

definition local_createPath :: "path \<Rightarrow> path \<Rightarrow> ('s lsys_scheme, file_record_dto list) act" where
  "local_createPath p missing w =
     create_loop (path_div (ls_home w) (path_prefix (normalizePath p) missing)) (segs missing) w"

definition initial_file :: "(string \<Rightarrow> u64) \<Rightarrow> path \<Rightarrow> ('s lsys_scheme, file_record_dto) act" where
  "initial_file xxh64 p w =
     (let f = w_fs w; is_dir = fs_is_directory f p
      in andThen (fs_query (\<lambda>f. convertSystemTime f p))
           (\<lambda>mt. andThen (fs_query (\<lambda>f. if is_dir then Inr 0 else fs_file_size f p))
           (\<lambda>sz. ret (record_local_new
                        (if is_dir then Directory else if isDoc p then Document else File)
                        (lexically_relative p (ls_home w)) sz mt
                        (if is_dir then 0 else computeFileHash xxh64 f p) (getFileId f p)))) w)"

definition local_initialFiles :: "(string \<Rightarrow> u64) \<Rightarrow> ('s lsys_scheme, file_record_dto list) act" where
  "local_initialFiles xxh64 w =
     andThen (fs_query (\<lambda>f. fs_recursive f (ls_home w))) (for_each (initial_file xxh64)) w"

end
