(* ===== verification/ActiveCount.thy ===== *)
theory ActiveCount
  imports Prelude
begin

text \<open>
  \<open>src/active-count.cpp\<close>: the counter of work in progress that \<open>waitUntilIdle\<close> waits on.
  First the atomic operations, then the protocol between a waiter and the threads that
  decrement: the decrement itself is outside the mutex, the notification inside.
\<close>

type_synonym active_count = int

definition ac_increment :: "active_count \<Rightarrow> active_count" where
  "ac_increment n = n + 1"

text \<open>The new value, and whether this decrement notifies the waiters.\<close>

definition ac_decrement :: "active_count \<Rightarrow> active_count \<times> bool" where
  "ac_decrement n = (n - 1, n = 1)"

definition ac_get :: "active_count \<Rightarrow> int" where
  "ac_get n = n"

definition ac_idle :: "active_count \<Rightarrow> bool" where
  "ac_idle n \<longleftrightarrow> ac_get n = 0"

lemma ac_inc_dec: "fst (ac_decrement (ac_increment n)) = n"
  by (simp add: ac_increment_def ac_decrement_def)

lemma ac_notify_iff_idle: "snd (ac_decrement n) \<longleftrightarrow> ac_idle (fst (ac_decrement n))"
  by (auto simp: ac_decrement_def ac_idle_def ac_get_def)

datatype waiter = WRun | WLocked | WTested | WBlocked | WWoken | WDone

datatype holder = Free | HWaiter | HDecrementer

record acproto =
  ap_count :: nat
  ap_mutex :: holder
  ap_waiter :: waiter
  ap_pending :: nat

definition ap_init :: acproto where
  "ap_init = \<lparr>ap_count = 0, ap_mutex = Free, ap_waiter = WRun, ap_pending = 0\<rparr>"

text \<open>
  \<open>ap_pending\<close> counts threads whose \<open>fetch_sub\<close> returned 1 and that have not yet taken the
  mutex. A thread decrements only what was incremented, so the count is a natural number.
\<close>

inductive ap_step :: "acproto \<Rightarrow> acproto \<Rightarrow> bool" where
  ap_inc: "ap_step s (s\<lparr>ap_count := Suc (ap_count s)\<rparr>)"
| ap_dec: "1 < ap_count s \<Longrightarrow> ap_step s (s\<lparr>ap_count := ap_count s - 1\<rparr>)"
| ap_dec_last: "ap_count s = 1 \<Longrightarrow>
     ap_step s (s\<lparr>ap_count := 0, ap_pending := Suc (ap_pending s)\<rparr>)"
| ap_dec_lock: "0 < ap_pending s \<Longrightarrow> ap_mutex s = Free \<Longrightarrow>
     ap_step s (s\<lparr>ap_mutex := HDecrementer, ap_pending := ap_pending s - 1\<rparr>)"
| ap_notify: "ap_mutex s = HDecrementer \<Longrightarrow>
     ap_step s (s\<lparr>ap_mutex := Free,
                  ap_waiter := (if ap_waiter s = WBlocked then WWoken else ap_waiter s)\<rparr>)"
| ap_lock: "ap_waiter s \<in> {WRun, WWoken} \<Longrightarrow> ap_mutex s = Free \<Longrightarrow>
     ap_step s (s\<lparr>ap_mutex := HWaiter, ap_waiter := WLocked\<rparr>)"
| ap_pass: "ap_waiter s = WLocked \<Longrightarrow> ap_count s = 0 \<Longrightarrow>
     ap_step s (s\<lparr>ap_mutex := Free, ap_waiter := WDone\<rparr>)"
| ap_fail: "ap_waiter s = WLocked \<Longrightarrow> ap_count s \<noteq> 0 \<Longrightarrow>
     ap_step s (s\<lparr>ap_waiter := WTested\<rparr>)"
| ap_block: "ap_waiter s = WTested \<Longrightarrow>
     ap_step s (s\<lparr>ap_mutex := Free, ap_waiter := WBlocked\<rparr>)"

inductive ap_reach :: "acproto \<Rightarrow> bool" where
  ap_start: "ap_reach ap_init"
| ap_next: "ap_reach s \<Longrightarrow> ap_step s t \<Longrightarrow> ap_reach t"

definition ap_inv :: "acproto \<Rightarrow> bool" where
  "ap_inv s \<longleftrightarrow>
     (ap_mutex s = HWaiter \<longleftrightarrow> ap_waiter s \<in> {WLocked, WTested}) \<and>
     (ap_waiter s \<in> {WTested, WBlocked} \<and> ap_count s = 0 \<longrightarrow>
        0 < ap_pending s \<or> ap_mutex s = HDecrementer)"

lemma ap_step_inv: "ap_step s t \<Longrightarrow> ap_inv s \<Longrightarrow> ap_inv t"
  by (induction rule: ap_step.induct) (auto simp: ap_inv_def)

lemma ap_reach_inv: "ap_reach s \<Longrightarrow> ap_inv s"
proof (induction rule: ap_reach.induct)
  case ap_start
  show ?case by (simp add: ap_inv_def ap_init_def)
next
  case (ap_next s t)
  then show ?case by (blast intro: ap_step_inv)
qed

text \<open>A waiter that sleeps on an idle counter is woken by steps of the decrementers alone.\<close>

lemma ap_wakes:
  assumes "ap_inv s" and "ap_waiter s = WBlocked" and "ap_count s = 0"
  shows "\<exists>t. ap_step\<^sup>*\<^sup>* s t \<and> ap_waiter t = WWoken \<and> ap_count t = 0"
proof (cases "ap_mutex s = HDecrementer")
  case True
  then show ?thesis using assms(2,3) ap_notify [OF True] by (auto intro!: exI r_into_rtranclp)
next
  case False
  then have p: "0 < ap_pending s" and f: "ap_mutex s = Free"
    using assms by (cases "ap_mutex s"; auto simp: ap_inv_def)+
  let ?u = "s\<lparr>ap_mutex := HDecrementer, ap_pending := ap_pending s - 1\<rparr>"
  have "ap_step s ?u" by (rule ap_dec_lock [OF p f])
  moreover have "ap_step ?u (?u\<lparr>ap_mutex := Free, ap_waiter := WWoken\<rparr>)"
    using ap_notify [of ?u] assms(2) by simp
  ultimately have "ap_step\<^sup>*\<^sup>* s (?u\<lparr>ap_mutex := Free, ap_waiter := WWoken\<rparr>)"
    by (meson converse_rtranclp_into_rtranclp r_into_rtranclp)
  then show ?thesis using assms(3)
    by (intro exI [of _ "?u\<lparr>ap_mutex := Free, ap_waiter := WWoken\<rparr>"] conjI) simp_all
qed

end
