(* ===== verification/Networking.thy ===== *)
theory Networking
  imports LocalStorage ActiveCount
begin

text \<open>
  \<open>src/CallbackDispatcher.cpp\<close> and \<open>src/Networking.cpp\<close>: the two workers that carry the
  commands. \<open>CallbackDispatcher\<close> runs the callbacks one after the other, \<open>HttpClient\<close>
  keeps the running requests. libcurl is a parameter: the answers it reports. The storages
  are a function from cloud ids to their operations; \<open>null_ops\<close> stands for the null pointer
  that \<open>operator[]\<close> makes for an unknown id. An exception in a worker ends the program.
\<close>

subsection \<open>State\<close>

text \<open>\<open>w_h0\<close>: the handle \<open>RequestHandle()\<close> constructs.\<close>

record dsys = lsys +
  w_h0 :: handle
  cb_queue :: "command ts_queue"
  cb_active :: active_count
  cb_running :: bool
  cb_should_stop :: bool
  http_queue :: "command ts_queue"
  http_active :: active_count
  http_running :: bool
  http_should_stop :: bool
  http_inflight :: "command list"
  http_delayed :: "command list"

definition MAX_CONCURRENT :: int where
  "MAX_CONCURRENT = 120"

definition null_ops :: "'w storage_ops" where
  "null_ops =
     \<lparr>so_setup_upload = (\<lambda>_ _. throw NullPointer), so_setup_update = (\<lambda>_ _. throw NullPointer),
      so_setup_download_new = (\<lambda>_ _. throw NullPointer), so_setup_download_updated = (\<lambda>_ _. throw NullPointer),
      so_setup_delete = (\<lambda>_ _. throw NullPointer), so_setup_move = (\<lambda>_ _. throw NullPointer),
      so_proccesUpload = (\<lambda>_ _. throw NullPointer), so_proccesUpdate = (\<lambda>_ _. throw NullPointer),
      so_proccesDelete = (\<lambda>_ _. throw NullPointer), so_proccesMove = (\<lambda>_ _. throw NullPointer),
      so_getHomeDir = (\<lambda>_. [])\<rparr>"

subsection \<open>Submitting\<close>

definition cb_submit :: "command \<Rightarrow> ('s dsys_scheme, unit) act" where
  "cb_submit c =
     andThen (lift_res (getTarget c))
       (\<lambda>_. modify (\<lambda>w. w\<lparr>cb_active := ac_increment (cb_active w), cb_queue := q_push c (cb_queue w)\<rparr>))"

text \<open>A local command has no handle of its own; \<open>getHandle\<close> gives a static one.\<close>

definition has_curl :: "command \<Rightarrow> bool" where
  "has_curl c \<longleftrightarrow> is_local (cmd_kind c) \<or> (case cmd_handle c of None \<Rightarrow> True | Some h \<Rightarrow> h_curl h)"

definition http_submit ::
  "(int \<Rightarrow> ('s dsys_scheme) storage_ops) \<Rightarrow> command \<Rightarrow> ('s dsys_scheme, unit) act" where
  "http_submit stores c =
     andThen (lift_res (getTarget c))
       (\<lambda>_. andThen (\<lambda>w. execute (stores (cmd_id c)) (w_h0 w) c w)
       (\<lambda>c1. if \<not> has_curl c1 then ret ()
             else modify (\<lambda>w. w\<lparr>http_active := ac_increment (http_active w),
                                 http_queue := q_push c1 (http_queue w)\<rparr>)))"

text \<open>\<open>continueChain\<close>: what follows a cloud command is run here, what follows a local one goes out.\<close>

definition continueChain ::
  "(int \<Rightarrow> ('s dsys_scheme) storage_ops) \<Rightarrow> command \<Rightarrow> ('s dsys_scheme, unit) act" where
  "continueChain stores c =
     andThen (for_each (if is_local (cmd_kind c) then http_submit stores else cb_submit) (cmd_next c))
       (\<lambda>_. ret ())"

subsection \<open>\<open>CallbackDispatcher\<close>\<close>

text \<open>
  The end of \<open>completionCallback\<close>: the owner is told, and when this was its last command
  its callback runs at once, in this thread.
\<close>

definition tell_owner ::
  "(path \<Rightarrow> nat list \<Rightarrow> ('s dsys_scheme, unit) act) \<Rightarrow> nat option \<Rightarrow> ('s dsys_scheme, unit) act" where
  "tell_owner on_complete ow w =
     (let (f, hp) = notify_owner ow (w_heap w); w1 = w\<lparr>w_heap := hp\<rparr>
      in case f of
           NotLast \<Rightarrow> ret () w1
         | NoCallback \<Rightarrow> throw BadFunctionCall w1
         | Fire p deps \<Rightarrow> on_complete p deps w1)"

definition completionCallback ::
  "(int \<Rightarrow> ('s dsys_scheme) storage_ops) \<Rightarrow> (path \<Rightarrow> nat list \<Rightarrow> ('s dsys_scheme, unit) act) \<Rightarrow>
   command \<Rightarrow> ('s dsys_scheme, unit) act" where
  "completionCallback stores on_complete c =
     andThen (completion (stores (cmd_id c)) c)
       (\<lambda>c1. andThen (tell_owner on_complete (cmd_owner c1)) (\<lambda>_. continueChain stores c1))"

definition cb_decrement :: "('s dsys_scheme, unit) act" where
  "cb_decrement = modify (\<lambda>w. w\<lparr>cb_active := fst (ac_decrement (cb_active w))\<rparr>)"

text \<open>One turn of the worker; \<open>None\<close> when it waits, \<open>Some False\<close> when the queue is closed.\<close>

definition cb_worker_step ::
  "(int \<Rightarrow> ('s dsys_scheme) storage_ops) \<Rightarrow> (path \<Rightarrow> nat list \<Rightarrow> ('s dsys_scheme, unit) act) \<Rightarrow>
   ('s dsys_scheme, bool option) act" where
  "cb_worker_step stores on_complete w =
     (case q_pop (cb_queue w) of
        (WouldBlock, q) \<Rightarrow> ret None w
      | (PopClosed, q) \<Rightarrow> ret (Some False) w
      | (Got c, q) \<Rightarrow>
          andThen (lift_res (getTarget c))
            (\<lambda>_. andThen (completionCallback stores on_complete c)
            (\<lambda>_. andThen (if needRepeat c then http_submit stores c else ret ())
            (\<lambda>_. andThen cb_decrement (\<lambda>_. ret (Some True))))) (w\<lparr>cb_queue := q\<rparr>))"

definition cb_start :: "'s dsys_scheme \<Rightarrow> 's dsys_scheme" where
  "cb_start w = (if cb_running w then w else w\<lparr>cb_running := True, cb_should_stop := False\<rparr>)"

definition cb_finish :: "'s dsys_scheme \<Rightarrow> 's dsys_scheme" where
  "cb_finish w =
     (if \<not> cb_running w then w
      else w\<lparr>cb_running := False, cb_should_stop := True, cb_queue := q_close (cb_queue w)\<rparr>)"

subsection \<open>\<open>HttpClient\<close>\<close>

text \<open>
  One answer libcurl reports: whether the transfer worked, the HTTP code, the body, with
  the jitter drawn and the time in case of a retry.
\<close>

record answer =
  an_ok :: bool
  an_code :: int
  an_body :: string
  an_jitter :: int
  an_now :: int

lemma writeCallback_retry [simp]: "h_retry (snd (writeCallback s h)) = h_retry h"
  by (simp add: writeCallback_def)

lemma scheduleRetry_Inr:
  "scheduleRetry j t h = (Inr u, h2) \<Longrightarrow> h_retry h < 6 \<and> h_retry h2 = Suc (h_retry h)"
  using scheduleRetry_ok_iff [of j t h] scheduleRetry_fields(1) [of j t h] by simp

text \<open>
  \<open>syncRequest\<close>: the answers are numbered; the result has the number of requests made. The
  loop ends because every turn but the last counts up the retries and the seventh throws.
\<close>

function sync_loop :: "(nat \<Rightarrow> answer) \<Rightarrow> nat \<Rightarrow> handle \<Rightarrow> unit res \<times> handle \<times> nat" where
  "sync_loop env i h =
     (let a = env i; h1 = snd (writeCallback (an_body a) h)
      in if classify (an_ok a) (an_code a) \<noteq> RetryLater then (Inr (), h1, Suc i)
         else (case scheduleRetry (an_jitter a) (an_now a) h1 of
                 (Inl e, h2) \<Rightarrow> (Inl e, h2, Suc i)
               | (Inr _, h2) \<Rightarrow> sync_loop env (Suc i) h2))"
  by pat_completeness auto

termination
  by (relation "measure (\<lambda>(env, i, h). 7 - h_retry h)") (auto dest!: scheduleRetry_Inr sym [of "(_, _)"])

declare sync_loop.simps [simp del]

definition syncRequest :: "(nat \<Rightarrow> answer) \<Rightarrow> handle \<Rightarrow> unit res \<times> handle \<times> nat" where
  "syncRequest env h = (if \<not> h_curl h then (Inr (), h, 0) else sync_loop env 0 h)"

text \<open>\<open>curl_multi_add_handle\<close> for a command taken from the queue.\<close>

definition http_add :: "command \<Rightarrow> 's dsys_scheme \<Rightarrow> 's dsys_scheme" where
  "http_add c w = w\<lparr>http_inflight := http_inflight w @ [c]\<rparr>"

text \<open>
  The inner loop of the worker: \<open>try_pop\<close> comes before the test of the limit, so a command
  popped when the limit is reached is in neither place afterwards.
\<close>

fun http_admit :: "nat \<Rightarrow> 's dsys_scheme \<Rightarrow> 's dsys_scheme" where
  "http_admit 0 w = w"
| "http_admit (Suc n) w =
     (case q_try_pop (http_queue w) of
        (None, q) \<Rightarrow> w
      | (Some c, q) \<Rightarrow>
          (if ac_get (http_active w) < MAX_CONCURRENT
           then http_admit n (http_add c (w\<lparr>http_queue := q\<rparr>))
           else w\<lparr>http_queue := q\<rparr>))"

text \<open>The part of a turn before curl: with nothing active the worker waits for a command.\<close>

definition http_take :: "'s dsys_scheme \<Rightarrow> 's dsys_scheme option" where
  "http_take w =
     (if ac_idle (http_active w)
      then (case q_pop (http_queue w) of
              (WouldBlock, _) \<Rightarrow> None
            | (PopClosed, _) \<Rightarrow> Some w
            | (Got c, q) \<Rightarrow> Some (http_add c (w\<lparr>http_queue := q\<rparr>)))
      else Some (http_admit (Suc (length (q_items (http_queue w)))) w))"

definition http_decrement :: "'s dsys_scheme \<Rightarrow> 's dsys_scheme" where
  "http_decrement w = w\<lparr>http_active := fst (ac_decrement (http_active w))\<rparr>"

fun with_handle :: "handle \<Rightarrow> command \<Rightarrow> command" where
  "with_handle h (Command k i d _ ow ns) = Command k i d (Some h) ow ns"

text \<open>
  What curl delivers into a handle: to the file when the last write option set says so (the
  file on disk then has the bytes of the stream), else to the response.
\<close>

fun writes_file :: "curl_opt list \<Rightarrow> bool" where
  "writes_file [] = False"
| "writes_file (opt # r) =
     (if WriteToFile \<in> set r \<or> WriteToResponse \<in> set r then writes_file r else opt = WriteToFile)"

definition set_file :: "path \<Rightarrow> string \<Rightarrow> fs \<Rightarrow> fs" where
  "set_file p bytes f =
     f\<lparr>fs_nodes := map (\<lambda>(k, n). (k, if k = fs_key f p then n\<lparr>n_data := bytes\<rparr> else n)) (fs_nodes f)\<rparr>"

definition deliver :: "string \<Rightarrow> handle \<Rightarrow> handle \<times> (path \<times> string) option" where
  "deliver body h =
     (case h_stream h of
        Some s \<Rightarrow>
          (if writes_file (h_opts h)
           then (let s1 = snd (writeData body s)
                 in (h\<lparr>h_stream := Some s1\<rparr>, Some (st_path s1, st_data s1)))
           else (snd (writeCallback body h), None))
      | None \<Rightarrow> (snd (writeCallback body h), None))"

text \<open>
  One finished transfer, \<open>i\<close> being its place among the running ones: failed requests are
  dropped with their command, a retry is delayed, a success goes to the dispatcher.
\<close>

definition http_message :: "nat \<Rightarrow> answer \<Rightarrow> ('s dsys_scheme, unit) act" where
  "http_message i a w =
     (if length (http_inflight w) \<le> i then throw NullPointer w
      else
        (let c = http_inflight w ! i;
             h = (case cmd_handle c of Some h \<Rightarrow> h | None \<Rightarrow> w_h0 w);
             (h1, file) = deliver (an_body a) h;
             c1 = with_handle h1 c;
             w1 = w\<lparr>http_inflight := take i (http_inflight w) @ drop (Suc i) (http_inflight w),
                    w_fs := (case file of None \<Rightarrow> w_fs w | Some (p, s) \<Rightarrow> set_file p s (w_fs w))\<rparr>
         in andThen (lift_res (getTarget c1))
              (\<lambda>_. case classify (an_ok a) (an_code a) of
                 CurlFailed \<Rightarrow> modify http_decrement
               | HttpFailed \<Rightarrow> modify http_decrement
               | RetryLater \<Rightarrow>
                   (\<lambda>w. case scheduleRetry (an_jitter a) (an_now a) h1 of
                      (Inl e, h2) \<Rightarrow> throw e w
                    | (Inr _, h2) \<Rightarrow> ret () (w\<lparr>http_delayed := http_delayed w @ [with_handle h2 c1]\<rparr>))
               | Succeeded \<Rightarrow> andThen (cb_submit c1) (\<lambda>_. modify http_decrement)) w1))"

definition is_due :: "int \<Rightarrow> command \<Rightarrow> bool" where
  "is_due now c = (case cmd_handle c of Some h \<Rightarrow> h_timer h \<le> now | None \<Rightarrow> True)"

definition checkDelayedRequests :: "int \<Rightarrow> 's dsys_scheme \<Rightarrow> 's dsys_scheme" where
  "checkDelayedRequests now w =
     w\<lparr>http_queue := q_push_all (filter (is_due now) (http_delayed w)) (http_queue w),
       http_delayed := filter (\<lambda>c. \<not> is_due now c) (http_delayed w)\<rparr>"

text \<open>
  One turn of \<open>largeRequestsWorker\<close> with the messages curl has for it (each names a place
  among the transfers still running). The worker leaves when told to stop with nothing left.
\<close>

definition http_worker_done :: "'s dsys_scheme \<Rightarrow> bool" where
  "http_worker_done w \<longleftrightarrow>
     http_should_stop w \<and> q_empty (http_queue w) \<and> http_inflight w = [] \<and> http_delayed w = []"

definition http_worker_step ::
  "bool \<Rightarrow> (nat \<times> answer) list \<Rightarrow> int \<Rightarrow> ('s dsys_scheme, bool option) act" where
  "http_worker_step curl_ok messages now w =
     (if http_worker_done w then ret (Some False) w
      else (case http_take w of
              None \<Rightarrow> ret None w
            | Some w1 \<Rightarrow>
                (if \<not> curl_ok then ret (Some False) w1
                 else andThen (for_each (\<lambda>(i, a). http_message i a) messages)
                        (\<lambda>_. andThen (modify (checkDelayedRequests now)) (\<lambda>_. ret (Some True))) w1)))"

definition http_start :: "'s dsys_scheme \<Rightarrow> 's dsys_scheme" where
  "http_start w = (if http_running w then w else w\<lparr>http_running := True, http_should_stop := False\<rparr>)"

text \<open>\<open>shutdown\<close>, after the worker has been joined, also stops the dispatcher.\<close>

definition http_shutdown :: "'s dsys_scheme \<Rightarrow> 's dsys_scheme" where
  "http_shutdown w =
     (if \<not> http_running w then w
      else cb_finish (w\<lparr>http_running := False, http_should_stop := True, http_queue := q_close (http_queue w)\<rparr>))"

end
