(* ===== verification/CommandClasses.thy ===== *)
theory CommandClasses
  imports Networking
begin

text \<open>
  The class hierarchy of \<open>include/commands.h\<close>: what each of the ten classes overrides, and
  what it inherits from \<open>ICommand\<close>, \<open>CloudCommand\<close> and \<open>LocalCommand\<close>. A class is the record
  of its methods, a derived class an update of its base. The lemmas show that a virtual call
  on a command reaches what \<open>Commands\<close> and \<open>Networking\<close> define by cases over the kind.
\<close>

subsection \<open>A class and its methods\<close>

text \<open>\<open>cl_completion\<close> is \<open>completionCallback\<close> up to the call of the owner.\<close>

record 'w command_class =
  cl_new :: "int \<Rightarrow> command"
  cl_execute :: "'w storage_ops \<Rightarrow> handle \<Rightarrow> command \<Rightarrow> ('w, command) act"
  cl_completion :: "'w storage_ops \<Rightarrow> command \<Rightarrow> ('w, command) act"
  cl_continueChain :: "(int \<Rightarrow> 'w storage_ops) \<Rightarrow> command \<Rightarrow> ('w, unit) act"
  cl_setRecord :: "file_record_dto \<Rightarrow> command \<Rightarrow> command"
  cl_setUpdated :: "file_updated_dto \<Rightarrow> command \<Rightarrow> command"
  cl_setDeleted :: "file_deleted_dto \<Rightarrow> command \<Rightarrow> command"
  cl_setMoved :: "file_moved_dto \<Rightarrow> command \<Rightarrow> command"
  cl_getHandle :: "handle \<Rightarrow> command \<Rightarrow> handle res"
  cl_getTarget :: "command \<Rightarrow> string res"
  cl_getTargetType :: "command \<Rightarrow> entry_type res"
  cl_needRepeat :: "command \<Rightarrow> bool"

text \<open>
  \<open>ICommand\<close>: the pure virtual functions are arguments; the overloads of \<open>setDTO\<close> drop the
  data; \<open>getHandle\<close> gives the static handle, its argument.
\<close>

definition ICommand ::
  "(int \<Rightarrow> command) \<Rightarrow> ('w storage_ops \<Rightarrow> handle \<Rightarrow> command \<Rightarrow> ('w, command) act) \<Rightarrow>
   ('w storage_ops \<Rightarrow> command \<Rightarrow> ('w, command) act) \<Rightarrow>
   ((int \<Rightarrow> 'w storage_ops) \<Rightarrow> command \<Rightarrow> ('w, unit) act) \<Rightarrow> (command \<Rightarrow> string res) \<Rightarrow> 'w command_class" where
  "ICommand ctor exec completed continue target =
     \<lparr>cl_new = ctor, cl_execute = exec, cl_completion = completed, cl_continueChain = continue,
      cl_setRecord = (\<lambda>_ c. c), cl_setUpdated = (\<lambda>_ c. c), cl_setDeleted = (\<lambda>_ c. c), cl_setMoved = (\<lambda>_ c. c),
      cl_getHandle = (\<lambda>dummy _. Inr dummy), cl_getTarget = target,
      cl_getTargetType = (\<lambda>_. Inr NullEntry), cl_needRepeat = (\<lambda>_. False)\<rparr>"

definition CloudCommand ::
  "(int \<Rightarrow> command) \<Rightarrow> (('s dsys_scheme) storage_ops \<Rightarrow> handle \<Rightarrow> command \<Rightarrow> ('s dsys_scheme, command) act) \<Rightarrow>
   (('s dsys_scheme) storage_ops \<Rightarrow> command \<Rightarrow> ('s dsys_scheme, command) act) \<Rightarrow> (command \<Rightarrow> string res) \<Rightarrow>
   ('s dsys_scheme) command_class" where
  "CloudCommand ctor exec completed target =
     ICommand ctor exec completed (\<lambda>_ c. andThen (for_each cb_submit (cmd_next c)) (\<lambda>_. ret ())) target"

text \<open>No local class has anything to execute.\<close>

definition LocalCommand ::
  "(int \<Rightarrow> command) \<Rightarrow> (('s dsys_scheme) storage_ops \<Rightarrow> command \<Rightarrow> ('s dsys_scheme, command) act) \<Rightarrow>
   (command \<Rightarrow> string res) \<Rightarrow> ('s dsys_scheme) command_class" where
  "LocalCommand ctor completed target =
     ICommand ctor (\<lambda>_ _. ret) completed
       (\<lambda>stores c. andThen (for_each (http_submit stores) (cmd_next c)) (\<lambda>_. ret ())) target"

subsection \<open>The members\<close>

text \<open>\<open>*_dto\<close> in a class with the data of the name, and \<open>*_handle\<close>.\<close>

definition record_of :: "command \<Rightarrow> file_record_dto res" where
  "record_of c = (case cmd_dto c of Some (RecordDTO r) \<Rightarrow> Inr r | _ \<Rightarrow> Inl NullPointer)"

definition updated_of :: "command \<Rightarrow> file_updated_dto res" where
  "updated_of c = (case cmd_dto c of Some (UpdatedDTO u) \<Rightarrow> Inr u | _ \<Rightarrow> Inl NullPointer)"

definition moved_of :: "command \<Rightarrow> file_moved_dto res" where
  "moved_of c = (case cmd_dto c of Some (MovedDTO m) \<Rightarrow> Inr m | _ \<Rightarrow> Inl NullPointer)"

definition deleted_of :: "command \<Rightarrow> file_deleted_dto res" where
  "deleted_of c = (case cmd_dto c of Some (DeletedDTO x) \<Rightarrow> Inr x | _ \<Rightarrow> Inl NullPointer)"

definition handle_of :: "command \<Rightarrow> handle res" where
  "handle_of c = (case cmd_handle c of Some h \<Rightarrow> Inr h | None \<Rightarrow> Inl NullPointer)"

definition set_dto :: "('d \<Rightarrow> dto) \<Rightarrow> 'd \<Rightarrow> command \<Rightarrow> command" where
  "set_dto f d c = with_data (Some (f d)) (cmd_handle c) c"

text \<open>A method that works on data and leaves new data and the commands behind.\<close>

definition with_results :: "command \<Rightarrow> ('w, dto \<times> command list) act \<Rightarrow> ('w, command) act" where
  "with_results c m = andThen m (\<lambda>(d, ns). ret (with_next ns (with_data (Some d) (cmd_handle c) c)))"

definition local_completion ::
  "(command \<Rightarrow> 'd res) \<Rightarrow> ('w storage_ops \<Rightarrow> 'd \<Rightarrow> command list \<Rightarrow> ('w, dto \<times> command list) act) \<Rightarrow>
   'w storage_ops \<Rightarrow> command \<Rightarrow> ('w, command) act" where
  "local_completion data body ops c =
     andThen (lift_res (data c)) (\<lambda>d. with_results c (body ops d (cmd_next c)))"

definition cloud_completion ::
  "(command \<Rightarrow> 'd res) \<Rightarrow> ('w storage_ops \<Rightarrow> 'd \<Rightarrow> string \<Rightarrow> command list \<Rightarrow> ('w, dto \<times> command list) act) \<Rightarrow>
   'w storage_ops \<Rightarrow> command \<Rightarrow> ('w, command) act" where
  "cloud_completion data body ops c =
     andThen (lift_res (data c)) (\<lambda>d. andThen (lift_res (map_sum id h_response (handle_of c)))
       (\<lambda>response. with_results c (body ops d response (cmd_next c))))"

text \<open>\<open>execute\<close> of the cloud classes: the cloud's id goes into the data, the storage fills a new handle.\<close>

definition cloud_execute ::
  "(command \<Rightarrow> 'd res) \<Rightarrow> (int \<Rightarrow> 'd \<Rightarrow> 'd) \<Rightarrow> ('d \<Rightarrow> dto) \<Rightarrow>
   ('w storage_ops \<Rightarrow> 'd \<Rightarrow> handle \<Rightarrow> ('w, handle) act) \<Rightarrow>
   'w storage_ops \<Rightarrow> handle \<Rightarrow> command \<Rightarrow> ('w, command) act" where
  "cloud_execute data set_id f prepare ops h0 c =
     andThen (lift_res (data c))
       (\<lambda>d. let d1 = set_id (cmd_id c) d
            in andThen (prepare ops d1 h0) (\<lambda>h. ret (with_data (Some (f d1)) (Some h) c)))"

subsection \<open>The local classes\<close>

definition LocalUploadCommand :: "('s dsys_scheme) command_class" where
  "LocalUploadCommand =
     (LocalCommand (new_command LocalUpload)
       (local_completion record_of complete_LocalUpload)
       (\<lambda>c. map_sum id (path_string \<circ> fr_rel_path) (record_of c)))
     \<lparr>cl_setRecord := set_dto RecordDTO, cl_getTargetType := (\<lambda>c. map_sum id fr_type (record_of c))\<rparr>"

definition LocalUpdateCommand :: "('s dsys_scheme) command_class" where
  "LocalUpdateCommand =
     (LocalCommand (new_command LocalUpdate)
       (local_completion updated_of complete_LocalUpdate)
       (\<lambda>c. map_sum id (path_string \<circ> fu_rel_path) (updated_of c)))
     \<lparr>cl_setUpdated := set_dto UpdatedDTO, cl_getTargetType := (\<lambda>c. map_sum id fu_type (updated_of c))\<rparr>"

definition LocalMoveCommand :: "('s dsys_scheme) command_class" where
  "LocalMoveCommand =
     (LocalCommand (new_command LocalMove)
       (local_completion moved_of complete_LocalMove)
       (\<lambda>c. map_sum id (path_string \<circ> fm_old_rel_path) (moved_of c)))
     \<lparr>cl_setMoved := set_dto MovedDTO, cl_getTargetType := (\<lambda>c. map_sum id fm_type (moved_of c))\<rparr>"

definition LocalDeleteCommand :: "('s dsys_scheme) command_class" where
  "LocalDeleteCommand =
     (LocalCommand (new_command LocalDelete)
       (local_completion deleted_of complete_LocalDelete)
       (\<lambda>c. map_sum id (path_string \<circ> fd_rel_path) (deleted_of c)))
     \<lparr>cl_setDeleted := set_dto DeletedDTO\<rparr>"

subsection \<open>The cloud classes\<close>

definition CloudUploadCommand :: "('s dsys_scheme) command_class" where
  "CloudUploadCommand =
     (CloudCommand (new_command CloudUpload)
       (cloud_execute record_of (\<lambda>i d. d\<lparr>fr_cloud_id := i\<rparr>) RecordDTO so_setup_upload)
       (cloud_completion record_of complete_CloudUpload)
       (\<lambda>c. map_sum id (path_string \<circ> fr_rel_path) (record_of c)))
     \<lparr>cl_setRecord := set_dto RecordDTO, cl_getHandle := (\<lambda>_. handle_of), cl_getTargetType := (\<lambda>c. map_sum id fr_type (record_of c))\<rparr>"

definition CloudUpdateCommand :: "('s dsys_scheme) command_class" where
  "CloudUpdateCommand =
     (CloudCommand (new_command CloudUpdate)
       (cloud_execute updated_of (\<lambda>i d. d\<lparr>fu_cloud_id := i\<rparr>) UpdatedDTO so_setup_update)
       (cloud_completion updated_of complete_CloudUpdate)
       (\<lambda>c. map_sum id (filename \<circ> fu_rel_path) (updated_of c)))
     \<lparr>cl_setUpdated := set_dto UpdatedDTO, cl_getHandle := (\<lambda>_. handle_of), cl_getTargetType := (\<lambda>c. map_sum id fu_type (updated_of c))\<rparr>"

definition CloudMoveCommand :: "('s dsys_scheme) command_class" where
  "CloudMoveCommand =
     (CloudCommand (new_command CloudMove)
       (cloud_execute moved_of (\<lambda>i d. d\<lparr>fm_cloud_id := i\<rparr>) MovedDTO so_setup_move)
       (cloud_completion moved_of complete_CloudMove)
       (\<lambda>c. map_sum id (filename \<circ> fm_old_rel_path) (moved_of c)))
     \<lparr>cl_setMoved := set_dto MovedDTO, cl_getHandle := (\<lambda>_. handle_of), cl_getTargetType := (\<lambda>c. map_sum id fm_type (moved_of c))\<rparr>"

definition CloudDownloadNewCommand :: "('s dsys_scheme) command_class" where
  "CloudDownloadNewCommand =
     (CloudCommand (new_command CloudDownloadNew)
       (cloud_execute record_of (\<lambda>i d. d\<lparr>fr_cloud_id := i\<rparr>) RecordDTO so_setup_download_new)
       (local_completion record_of (\<lambda>_ d. complete_download (RecordDTO d)))
       (\<lambda>c. map_sum id (filename \<circ> fr_rel_path) (record_of c)))
     \<lparr>cl_setRecord := set_dto RecordDTO, cl_getHandle := (\<lambda>_. handle_of), cl_getTargetType := (\<lambda>c. map_sum id fr_type (record_of c))\<rparr>"

definition CloudDownloadUpdateCommand :: "('s dsys_scheme) command_class" where
  "CloudDownloadUpdateCommand =
     (CloudCommand (new_command CloudDownloadUpdate)
       (cloud_execute updated_of (\<lambda>i d. d\<lparr>fu_cloud_id := i\<rparr>) UpdatedDTO so_setup_download_updated)
       (local_completion updated_of (\<lambda>_ d. complete_download (UpdatedDTO d)))
       (\<lambda>c. map_sum id (filename \<circ> fu_rel_path) (updated_of c)))
     \<lparr>cl_setUpdated := set_dto UpdatedDTO, cl_getHandle := (\<lambda>_. handle_of), cl_getTargetType := (\<lambda>c. map_sum id fu_type (updated_of c))\<rparr>"

definition CloudDeleteCommand :: "('s dsys_scheme) command_class" where
  "CloudDeleteCommand =
     (CloudCommand (new_command CloudDelete)
       (cloud_execute deleted_of (\<lambda>i d. d\<lparr>fd_cloud_id := i\<rparr>) DeletedDTO so_setup_delete)
       (cloud_completion deleted_of complete_CloudDelete)
       (\<lambda>c. map_sum id (path_string \<circ> fd_rel_path) (deleted_of c)))
     \<lparr>cl_setDeleted := set_dto DeletedDTO, cl_getHandle := (\<lambda>_. handle_of)\<rparr>"

fun class_of :: "cmd_kind \<Rightarrow> ('s dsys_scheme) command_class" where
  "class_of LocalUpload = LocalUploadCommand"
| "class_of LocalUpdate = LocalUpdateCommand"
| "class_of LocalMove = LocalMoveCommand"
| "class_of LocalDelete = LocalDeleteCommand"
| "class_of CloudUpload = CloudUploadCommand"
| "class_of CloudUpdate = CloudUpdateCommand"
| "class_of CloudMove = CloudMoveCommand"
| "class_of CloudDownloadNew = CloudDownloadNewCommand"
| "class_of CloudDownloadUpdate = CloudDownloadUpdateCommand"
| "class_of CloudDelete = CloudDeleteCommand"

text \<open>The overload of \<open>setDTO\<close> that a call with the data selects, on the class of the command.\<close>

fun call_setDTO :: "('s dsys_scheme) command_class \<Rightarrow> dto \<Rightarrow> command \<Rightarrow> command" where
  "call_setDTO C (RecordDTO r) = cl_setRecord C r"
| "call_setDTO C (UpdatedDTO u) = cl_setUpdated C u"
| "call_setDTO C (MovedDTO m) = cl_setMoved C m"
| "call_setDTO C (DeletedDTO x) = cl_setDeleted C x"

subsection \<open>Virtual calls\<close>

lemmas class_defs = ICommand_def CloudCommand_def LocalCommand_def
  LocalUploadCommand_def LocalUpdateCommand_def LocalMoveCommand_def LocalDeleteCommand_def CloudUploadCommand_def CloudUpdateCommand_def CloudMoveCommand_def CloudDownloadNewCommand_def CloudDownloadUpdateCommand_def CloudDeleteCommand_def

lemmas member_defs = record_of_def updated_of_def moved_of_def deleted_of_def handle_of_def set_dto_def
  local_completion_def cloud_completion_def cloud_execute_def with_results_def

text \<open>Data of its class, which the types of the members enforce.\<close>

definition typed :: "command \<Rightarrow> bool" where
  "typed c \<longleftrightarrow> (case cmd_dto c of Some d \<Rightarrow> dto_family_of d = kind_family (cmd_kind c) | None \<Rightarrow> True)"

lemma virtual_setDTO: "call_setDTO (class_of (cmd_kind c)) d c = setDTO d c"
  by (cases c; cases d; cases "cmd_kind c") (simp_all add: class_defs set_dto_def)

lemma setDTO_typed: "typed c \<Longrightarrow> typed (setDTO d c)"
  by (auto simp: typed_def split: option.splits)

lemma new_typed: "typed (cl_new (class_of k) i)"
  by (cases k) (simp_all add: class_defs new_command_def typed_def)

lemma typed_cases:
  assumes "typed c"
  obtains k i h ow ns where "c = Command k i None h ow ns"
  | k i r h ow ns where "c = Command k i (Some (RecordDTO r)) h ow ns" "kind_family k = RecordF"
  | k i u h ow ns where "c = Command k i (Some (UpdatedDTO u)) h ow ns" "kind_family k = UpdatedF"
  | k i m h ow ns where "c = Command k i (Some (MovedDTO m)) h ow ns" "kind_family k = MovedF"
  | k i x h ow ns where "c = Command k i (Some (DeletedDTO x)) h ow ns" "kind_family k = DeletedF"
proof -
  obtain k i d h ow ns where c: "c = Command k i d h ow ns" by (cases c)
  show ?thesis using assms that by (cases d; cases "the d") (auto simp: c typed_def)
qed

lemma virtual_getTarget: "typed c \<Longrightarrow> cl_getTarget (class_of (cmd_kind c)) c = getTarget c"
  by (erule typed_cases; cases "cmd_kind c") (simp_all add: class_defs member_defs)

lemma virtual_getTargetType: "typed c \<Longrightarrow> cl_getTargetType (class_of (cmd_kind c)) c = getTargetType c"
  by (erule typed_cases; cases "cmd_kind c") (simp_all add: class_defs member_defs)

lemma virtual_needRepeat: "cl_needRepeat (class_of (cmd_kind c)) c = needRepeat c"
  by (cases "cmd_kind c") (simp_all add: class_defs needRepeat_def)

lemma virtual_continueChain: "cl_continueChain (class_of (cmd_kind c)) stores c = continueChain stores c"
  by (cases "cmd_kind c") (simp_all add: class_defs continueChain_def)

lemma virtual_getHandle:
  assumes "h_curl dummy" and "cl_getHandle (class_of (cmd_kind c)) dummy c = Inr h"
  shows "has_curl c \<longleftrightarrow> h_curl h"
  using assms by (cases "cmd_kind c") (auto simp: class_defs handle_of_def has_curl_def split: option.splits)

lemma virtual_execute: "typed c \<Longrightarrow> cl_execute (class_of (cmd_kind c)) ops h0 c w = execute ops h0 c w"
  by (erule typed_cases; cases "cmd_kind c") (simp_all add: class_defs member_defs andThen_def split: prod.split sum.split)

lemma virtual_completion: "typed c \<Longrightarrow> cl_completion (class_of (cmd_kind c)) ops c w = completion ops c w"
  by (erule typed_cases; cases "cmd_kind c"; cases "cmd_handle c")
     (simp_all add: class_defs member_defs Let_def andThen_def split: prod.split sum.split)

end
