(* ===== verification/LocalProps.thy ===== *)
theory LocalProps
  imports LocalStorage
begin

text \<open>
  What \<open>LocalStorage\<close> guarantees: no change is lost or doubled between the watcher and
  \<open>SyncManager\<close>; echoes of the program's own writes and temporary files never become
  changes; missing directories are made; the database stays sound.
\<close>

subsection \<open>What a handler may do\<close>

text \<open>
  A handler leaves the event queue alone and adds to the change queue exactly the changes
  it creates, in order.
\<close>

definition emits :: "'s lsys_scheme \<Rightarrow> 's lsys_scheme \<Rightarrow> bool" where
  "emits w w1 \<longleftrightarrow>
     ls_events w1 = ls_events w \<and> length (w_heap w) \<le> length (w_heap w1) \<and>
     take (length (w_heap w)) (w_heap w1) = w_heap w \<and>
     q_items (ls_changes w1) = q_items (ls_changes w) @ [length (w_heap w) ..< length (w_heap w1)]"

lemma emits_refl [simp]: "emits w w"
  by (simp add: emits_def)

lemma emits_trans:
  assumes "emits w w1" and "emits w1 w2"
  shows "emits w w2"
proof -
  let ?n = "length (w_heap w)" and ?m = "length (w_heap w1)" and ?k = "length (w_heap w2)"
  have "[?n ..< ?m] @ [?m ..< ?k] = [?n ..< ?k]"
    using assms upt_add_eq_append [of ?n ?m "?k - ?m"] by (simp add: emits_def)
  moreover have "take ?n (w_heap w2) = w_heap w"
    using assms take_take [of ?n ?m "w_heap w2"] by (simp add: emits_def min_absorb1)
  ultimately show ?thesis using assms by (simp add: emits_def)
qed

lemma db_call_emits [simp]: "emits w (snd (db_call f w))"
  by (simp add: db_call_def emits_def split: prod.splits)

lemma fs_query_emits [simp]: "emits w (snd (fs_query f w))"
  by (simp add: fs_query_def)

lemma expected_emits [simp]: "emits w (snd (expected p ct w))"
  by (simp add: expected_def emits_def split: prod.splits)

lemma emit_emits:
  assumes "\<And>clouds hp. \<exists>c. mk clouds hp = (length hp, hp @ [c])"
  shows "emits w (snd (emit mk w))"
proof -
  obtain c where "mk (factory_clouds w) (w_heap w) = (length (w_heap w), w_heap w @ [c])"
    using assms by blast
  then show ?thesis by (simp add: emit_def emits_def q_push_def)
qed

lemma make_allocs: "\<exists>c. make_change clouds ini ks ty tm p d src hp = (length hp, hp @ [c])"
  by (simp add: make_eq Let_def)

lemma emit_make_emits [simp]:
  "emits w (snd (emit (\<lambda>clouds. makeDelete clouds x) w))"
  "emits w (snd (emit (\<lambda>clouds. makeLocalNew clouds r) w))"
  "emits w (snd (emit (\<lambda>clouds. makeLocalMove clouds m) w))"
  "emits w (snd (emit (\<lambda>clouds. makeLocalUpdate clouds u) w))"
  by (simp_all add: emit_emits make_defs make_allocs)

text \<open>
  The handlers respect every such relation that their parts respect. Below it is \<open>emits\<close>;
  the accounts of the commands are another one.
\<close>

locale handler_rel = step_rel R for R :: "'s lsys_scheme \<Rightarrow> 's lsys_scheme \<Rightarrow> bool" +
  assumes R_reads: "R w (snd (db_call (\<lambda>rc. getFileByPath rc p) w))"
      "R w (snd (db_call (\<lambda>rc. getFileByFileId rc i) w))"
    and R_write: "R w (snd (syncDbWrite_updated d w))"
    and R_expected: "R w (snd (expected p ct w))"
    and R_emit: "R w (snd (emit (\<lambda>clouds. makeDelete clouds x) w))"
      "R w (snd (emit (\<lambda>clouds. makeLocalNew clouds r) w))"
      "R w (snd (emit (\<lambda>clouds. makeLocalMove clouds m) w))"
      "R w (snd (emit (\<lambda>clouds. makeLocalUpdate clouds u) w))"
begin

lemmas R_parts = R_refl R_reads R_write R_expected R_emit

lemma handleDeleted_R: "R w (snd (handleDeleted evt w))"
  unfolding handleDeleted_def
  by (auto intro!: R_andThen simp: R_parts Let_def split: option.split)

lemma handleCreated_R: "R w (snd (handleCreated xxh64 evt w))"
  unfolding handleCreated_def
  by (auto intro!: R_andThen simp: R_parts Let_def)

lemma handleUpdated_R: "R w (snd (handleUpdated xxh64 evt w))"
  unfolding handleUpdated_def
  by (auto intro!: R_andThen simp: R_parts Let_def split: option.split)

lemma handleMoved_R: "R w (snd (handleMoved xxh64 evt w))"
  unfolding handleMoved_def
  by (auto intro!: R_andThen simp: R_parts handleUpdated_R handleCreated_R Let_def split: option.split)

lemma handleRenamed_R: "R w (snd (handleRenamed xxh64 evt w))"
  unfolding handleRenamed_def
  by (auto intro!: R_andThen R_for_each
      simp: R_parts handleDeleted_R handleUpdated_R handleCreated_R handleMoved_R Let_def split: option.split)

lemma handle_event_R: "R w (snd (handle_event xxh64 evt w))"
  by (simp add: handle_event_def R_parts handleCreated_R handleDeleted_R handleRenamed_R handleUpdated_R
      split: change_type.split)

end

text \<open>A relation that the queues of the local storage do not matter for is kept by a whole poll of it.\<close>

locale local_poll = handler_rel R for R :: "'s lsys_scheme \<Rightarrow> 's lsys_scheme \<Rightarrow> bool" +
  assumes R_queues: "R w (w\<lparr>ls_events := q\<rparr>)" "R w (w\<lparr>ls_changes := r\<rparr>)"
begin

lemma event_loop_R: "R w (snd (event_loop xxh64 n w))"
proof (induction n arbitrary: w)
  case 0
  show ?case by (simp add: R_refl)
next
  case (Suc n)
  have "R w (snd (andThen (handle_event xxh64 evt) (\<lambda>_. event_loop xxh64 n) (w\<lparr>ls_events := q\<rparr>)))" for evt q
    by (rule R_trans [OF R_queues(1) [of _ q]]) (intro R_andThen handle_event_R Suc)
  then show ?case by (simp add: R_refl R_queues split: prod.split option.split)
qed

lemma change_loop_R: "R w (snd (change_loop n w))"
proof (induction n arbitrary: w)
  case 0
  show ?case by (simp add: R_refl)
next
  case (Suc n)
  have "R w (snd (andThen (change_loop n) (\<lambda>as. ret (a # as)) (w\<lparr>ls_changes := q\<rparr>)))" for a q
    by (rule R_trans [OF R_queues(2) [of _ q]]) (intro R_andThen Suc R_basic)
  then show ?case by (simp add: R_refl R_queues split: prod.split option.split)
qed

lemma local_proccessChanges_R: "R w (snd (local_proccessChanges xxh64 w))"
  unfolding local_proccessChanges_def by (intro R_andThen event_loop_R change_loop_R)

end

lemma syncDbWrite_updated_emits [simp]: "emits w (snd (syncDbWrite_updated d w))"
  by (simp add: syncDbWrite_updated_def)

interpretation em: handler_rel emits
  by unfold_locales (simp_all add: emits_trans [of _ _])

subsection \<open>From events to changes\<close>

definition grows :: "'s lsys_scheme \<Rightarrow> 's lsys_scheme \<Rightarrow> bool" where
  "grows w w1 \<longleftrightarrow>
     length (w_heap w) \<le> length (w_heap w1) \<and> take (length (w_heap w)) (w_heap w1) = w_heap w \<and>
     q_items (ls_changes w1) = q_items (ls_changes w) @ [length (w_heap w) ..< length (w_heap w1)]"

lemma emits_grows: "emits w w1 \<longleftrightarrow> ls_events w1 = ls_events w \<and> grows w w1"
  by (simp add: emits_def grows_def)

lemma grows_trans: "grows w w1 \<Longrightarrow> grows w1 w2 \<Longrightarrow> grows w w2"
  using emits_trans [of w "w1\<lparr>ls_events := ls_events w\<rparr>" "w2\<lparr>ls_events := ls_events w\<rparr>"]
  by (simp add: emits_def grows_def)

lemma q_try_pop_simps [simp]:
  "q_items q = [] \<Longrightarrow> q_try_pop q = (None, q)"
  "q_items q = x # xs \<Longrightarrow> q_try_pop q = (Some x, q\<lparr>q_items := xs\<rparr>)"
  by (simp_all add: q_try_pop_def)

lemma event_loop_spec:
  assumes "event_loop xxh64 n w = (Inr (), w1)" and "length (q_items (ls_events w)) < n"
  shows "q_items (ls_events w1) = [] \<and> grows w w1"
  using assms
proof (induction xxh64 n w arbitrary: w1 rule: event_loop.induct)
  case (1 xxh64 w)
  then show ?case by simp
next
  case (2 xxh64 n w)
  show ?case
  proof (cases "q_items (ls_events w)")
    case Nil
    then show ?thesis using "2.prems" by (auto simp: grows_def)
  next
    case (Cons evt es)
    let ?w = "w\<lparr>ls_events := (ls_events w)\<lparr>q_items := es\<rparr>\<rparr>"
    obtain w2 where h: "handle_event xxh64 evt ?w = (Inr (), w2)" and l: "event_loop xxh64 n w2 = (Inr (), w1)"
      using "2.prems"(1) Cons by (auto simp: andThen_ok)
    have e: "emits ?w w2" using em.handle_event_R [of ?w xxh64 evt] h by simp
    have "length (q_items (ls_events w2)) < n" using e "2.prems"(2) Cons by (simp add: emits_def)
    then have "q_items (ls_events w1) = [] \<and> grows w2 w1"
      using "2.IH" [OF _ refl l] Cons by simp
    moreover have "grows w w2" using e by (simp add: emits_def grows_def)
    ultimately show ?thesis using grows_trans by blast
  qed
qed

lemma change_loop_spec:
  "length (q_items (ls_changes w)) < n \<Longrightarrow>
     change_loop n w = (Inr (q_items (ls_changes w)), w\<lparr>ls_changes := (ls_changes w)\<lparr>q_items := []\<rparr>\<rparr>)"
proof (induction n w rule: change_loop.induct)
  case (1 w)
  then show ?case by simp
next
  case (2 n w)
  show ?case
  proof (cases "q_items (ls_changes w)")
    case Nil
    then have "(ls_changes w)\<lparr>q_items := []\<rparr> = ls_changes w" by (cases "ls_changes w") simp
    then show ?thesis using Nil by simp
  next
    case (Cons a as)
    then show ?thesis using 2 by simp
  qed
qed


subsection \<open>Echoes and temporary files\<close>

lemma expected_hit:
  assumes "ls_expected w (path_string p) = Some ct"
  shows "expected p ct w = (Inr True, w\<lparr>ls_expected := (ls_expected w)(path_string p := None)\<rparr>)"
  using assms by (simp add: expected_def reg_check_path_def reg_check_def)

lemma expected_miss:
  assumes "ls_expected w (path_string p) \<noteq> Some ct"
  shows "expected p ct w = (Inr False, w)"
  using assms by (simp add: expected_def reg_check_path_def reg_check_def)

text \<open>
  A download in progress is invisible: no report of the watcher about the temporary file
  of a download (created, written, deleted, renamed among temporary names) produces a
  change or touches the database.
\<close>

theorem download_tmp_invisible:
  assumes "plain_path p" and "CHR ''/'' \<notin> set (filename p)" and "ev_path evt = tmp_name p"
    and "ev_type evt = Rename \<longrightarrow> (\<exists>a. ev_associated evt = Some a \<and> ignoreTmp (ev_path a))"
  shows "\<exists>m. handle_event xxh64 evt w = (Inr (), w\<lparr>ls_expected := m\<rparr>)"
proof -
  have t: "ignoreTmp (ev_path evt)" using tmp_name_ignored [OF assms(1,2)] assms(3) by simp
  have s: "w = w\<lparr>ls_expected := ls_expected w\<rparr>" by simp
  show ?thesis
  proof (cases "ev_type evt")
    case Delete
    show ?thesis
    proof (cases "ls_expected w (path_string (ev_path evt)) = Some Delete")
      case True
      then show ?thesis using Delete
        by (auto simp: handle_event_def handleDeleted_def expected_hit)
    next
      case False
      then show ?thesis using Delete t
        by (intro exI [of _ "ls_expected w"]) (simp add: handle_event_def handleDeleted_def expected_miss)
    qed
  next
    case Rename
    then show ?thesis using t s assms(4)
      by (auto simp: handle_event_def handleRenamed_def handleMoved_def intro: exI [of _ "ls_expected w"])
  qed (use t s in \<open>auto simp: handle_event_def handleCreated_def handleUpdated_def
         intro: exI [of _ "ls_expected w"]\<close>)
qed

lemma fs_call_expected [simp]: "ls_expected (snd (fs_call f w)) = ls_expected w"
  "ls_home (snd (fs_call f w)) = ls_home w"
  by (simp_all add: fs_call_def split: prod.splits)

lemma db_call_expected [simp]: "ls_expected (snd (db_call f w)) = ls_expected w"
  "ls_home (snd (db_call f w)) = ls_home w"
  by (simp_all add: db_call_def split: prod.splits)

lemma call_expected:
  "db_call f w = (r, w1) \<Longrightarrow> ls_expected w1 = ls_expected w \<and> ls_home w1 = ls_home w"
  "fs_call g w = (r', w1) \<Longrightarrow> ls_expected w1 = ls_expected w \<and> ls_home w1 = ls_home w"
  "fs_query q w = (r'', w1) \<Longrightarrow> w1 = w"
  by (auto simp: db_call_def fs_call_def fs_query_def split: prod.splits)

lemma for_each_frame:
  assumes "\<And>x w. g (snd (f x w)) = g w"
  shows "g (snd (for_each f xs w)) = g w"
  using for_each_keeps [of "\<lambda>w'. g w' = g w" w f xs] assms by simp

lemma move_entry_frame:
  "ls_expected (snd (move_entry p w)) = ls_expected w"
  by (auto simp: move_entry_def andThen_def fs_query_def Let_def split: prod.splits sum.splits option.splits
      dest: call_expected)

lemma local_proccesMove_expects:
  assumes "local_proccesMove dto s w = (Inr d, w1)" and "fm_cloud_id dto \<noteq> 0"
  shows "ls_expected w1 = reg_add_path (path_div (ls_home w) (fm_old_rel_path dto)) Move (ls_expected w)"
proof -
  have f: "for_each move_entry es v = (r, v1) \<Longrightarrow> ls_expected v1 = ls_expected v"
    for es r and v v1 :: "'a lsys_scheme"
    using for_each_frame [of ls_expected move_entry es v] move_entry_frame by (metis snd_conv)
  show ?thesis using assms
    by (auto simp: local_proccesMove_def andThen_ok Let_def expect_def split: if_splits
        dest!: call_expected f)
qed

text \<open>
  C26. A move taken over from a cloud does not come back: after \<open>proccesMove\<close> renamed the
  local file, the watcher's report of this rename is recognised, no change is made, and the
  registry is as it was before the move.
\<close>

theorem cloud_move_not_echoed:
  assumes "local_proccesMove dto s w = (Inr d, w1)" and "fm_cloud_id dto \<noteq> 0"
    and "ev_type evt = Rename" and "ev_path evt = path_div (ls_home w) (fm_old_rel_path dto)"
    and "ev_associated evt = Some a" and "ev_path a = path_div (ls_home w) (fm_new_rel_path dto)"
    and "\<not> ignoreTmp (ev_path evt)" and "\<not> ignoreTmp (ev_path a)"
    and "ls_expected w (path_string (ev_path evt)) = None"
  shows "handle_event xxh64 evt w1 = (Inr (), w1\<lparr>ls_expected := ls_expected w\<rparr>)"
proof -
  have e: "ls_expected w1 = (ls_expected w)(path_string (ev_path evt) \<mapsto> Move)"
    using local_proccesMove_expects [OF assms(1,2)] assms(4,9) by (simp add: reg_add_path_def reg_add_def)
  have r: "(ls_expected w)(path_string (ev_path evt) := None) = ls_expected w"
    using assms(9) by (auto simp: fun_eq_iff)
  have "expected (ev_path evt) Move w1 = (Inr True, w1\<lparr>ls_expected := ls_expected w\<rparr>)"
    using expected_hit [of w1 "ev_path evt" Move] e r by simp
  then show ?thesis using assms(3,5,7,8) by (simp add: handle_event_def handleRenamed_def handleMoved_def)
qed

text \<open>
  A deletion taken over from a cloud does not come back: after \<open>proccesDelete\<close>, the
  watcher's report that the file is gone is recognised and makes no change.
\<close>

theorem cloud_delete_not_echoed:
  assumes "local_proccesDelete dto s w = (Inr (), w1)" and "fd_cloud_id dto \<noteq> 0"
    and "ev_type evt = Delete" and "ev_path evt = path_div (ls_home w) (fd_rel_path dto)"
    and "ls_expected w (path_string (ev_path evt)) = None"
  shows "handle_event xxh64 evt w1 = (Inr (), w)"
proof -
  have w1: "w1 = w\<lparr>ls_expected := (ls_expected w)(path_string (ev_path evt) \<mapsto> Delete)\<rparr>"
    using assms by (auto simp: local_proccesDelete_def expect_def reg_add_path_def reg_add_def)
  have r: "(ls_expected w)(path_string (ev_path evt) := None) = ls_expected w"
    using assms(5) by (auto simp: fun_eq_iff)
  show ?thesis using expected_hit [of w1 "ev_path evt" Delete] assms(3) r
    by (simp add: w1 handle_event_def handleDeleted_def)
qed

subsection \<open>Making missing directories\<close>

abbreviation extend_path :: "path \<Rightarrow> string list \<Rightarrow> path" where
  "extend_path p ss \<equiv> p\<lparr>segs := segs p @ ss\<rparr>"

definition name_ok :: "string \<Rightarrow> bool" where
  "name_ok s \<longleftrightarrow> seg_ok s \<and> s \<noteq> ''.''"

lemma create_directory_ok:
  assumes "fs_create_directory p f = (Inr made, g)"
  shows "fs_is_directory g p" and "fs_is_directory f q \<Longrightarrow> fs_is_directory g q"
    and "made \<longleftrightarrow> \<not> fs_exists f p"
    and "fs_key f q \<noteq> fs_key f p \<Longrightarrow> fs_exists g q \<longleftrightarrow> fs_exists f q"
proof -
  have k: "fs_key g q = fs_key f q" for q
    using assms by (auto simp: fs_create_directory_def Let_def fs_key_def split: option.splits if_splits)
  show "fs_is_directory g p" "fs_is_directory f q \<Longrightarrow> fs_is_directory g q"
    "made \<longleftrightarrow> \<not> fs_exists f p" "fs_key f q \<noteq> fs_key f p \<Longrightarrow> fs_exists g q \<longleftrightarrow> fs_exists f q"
    using assms k
    by (auto simp: fs_create_directory_def fs_is_directory_def fs_exists_def fs_node_def Let_def map_add_def
        split: option.splits if_splits)
qed

lemma path_div_step:
  "plain_path p \<Longrightarrow> seg_ok s \<Longrightarrow> path_div p \<lparr>rooted = False, segs = [s]\<rparr> = extend_path p [s]"
  by (subst path_div_plain) (simp_all add: plain_path_def)

lemma fs_key_extend:
  "list_all name_ok ss \<Longrightarrow> fs_key f (extend_path p ss) = fs_key f p @ ss"
proof -
  assume "list_all name_ok ss"
  then have "filter (\<lambda>s. s \<noteq> [] \<and> s \<noteq> ''.'') ss = ss"
    by (induction ss) (auto simp: name_ok_def seg_ok_def)
  then show ?thesis by (simp add: fs_key_def Let_def)
qed

text \<open>The paths below \<open>accum\<close> that \<open>create_loop\<close> visits.\<close>

fun visited :: "path \<Rightarrow> string list \<Rightarrow> path list" where
  "visited accum [] = []"
| "visited accum (s # ss) = extend_path accum [s] # visited (extend_path accum [s]) ss"

lemma visited_longer: "p \<in> set (visited accum ss) \<Longrightarrow> length (segs accum) < length (segs p)"
  by (induction accum ss rule: visited.induct) fastforce+

lemma visited_key:
  "p \<in> set (visited accum ss) \<Longrightarrow> list_all name_ok ss \<Longrightarrow>
     length (fs_key f accum) < length (fs_key f p)"
proof (induction accum ss rule: visited.induct)
  case (1 accum)
  then show ?case by simp
next
  case (2 accum s ss)
  have "length (fs_key f (extend_path accum [s])) = Suc (length (fs_key f accum))"
    using "2.prems"(2) fs_key_extend [of "[s]" f accum] by simp
  then show ?case using 2 by fastforce
qed

lemma visited_distinct: "distinct (visited accum ss)"
  by (induction accum ss rule: visited.induct) (fastforce dest: visited_longer)+

lemma last_visited: "ss \<noteq> [] \<Longrightarrow> last (visited accum ss) = extend_path accum ss"
proof (induction accum ss rule: visited.induct)
  case (2 accum s ss)
  have "visited (extend_path accum [s]) ss = [] \<longleftrightarrow> ss = []" by (cases ss) simp_all
  then show ?case using 2 by (cases "ss = []") simp_all
qed simp

lemma create_loop_step:
  assumes "create_loop accum (seg # rest) w = (Inr ds, w1)" and "plain_path accum" and "seg_ok seg"
  shows "\<exists>made g. fs_create_directory (extend_path accum [seg]) (w_fs w) = (Inr made, g) \<and>
     (if made then \<exists>dto ds1. ds = dto # ds1 \<and>
           fr_rel_path dto = lexically_relative (extend_path accum [seg]) (ls_home w) \<and>
           create_loop (extend_path accum [seg]) rest
             (w\<lparr>w_fs := g, ls_expected := reg_add (path_string (extend_path accum [seg])) New (ls_expected w)\<rparr>) = (Inr ds1, w1)
      else create_loop (extend_path accum [seg]) rest (w\<lparr>w_fs := g\<rparr>) = (Inr ds, w1))"
proof -
  let ?a = "extend_path accum [seg]"
  have p: "path_div accum \<lparr>rooted = False, segs = [seg]\<rparr> = ?a" using assms(2,3) by (rule path_div_step)
  obtain r g where g: "fs_create_directory ?a (w_fs w) = (r, g)" by (cases "fs_create_directory ?a (w_fs w)")
  show ?thesis
  proof (cases r)
    case (Inl e)
    then show ?thesis using assms(1) p g by (simp add: fs_call_def)
  next
    case (Inr made)
    show ?thesis
    proof (cases made)
      case False
      then show ?thesis using assms(1) p g Inr
        by (intro exI [of _ made] exI [of _ g]) (simp add: fs_call_def)
    next
      case True
      let ?v = "w\<lparr>w_fs := g, ls_expected := reg_add (path_string ?a) New (ls_expected w)\<rparr>"
      show ?thesis
      proof (cases "convertSystemTime g ?a")
        case (Inl e)
        then show ?thesis using assms(1) p g Inr True by (simp add: fs_call_def fs_query_def)
      next
        case mt: (Inr mt)
        let ?d = "record_local_new Directory (lexically_relative ?a (ls_home w)) 0 mt 0 (getFileId g ?a)"
        have "create_loop accum (seg # rest) w = andThen (create_loop ?a rest) (\<lambda>ds. ret (?d # ds)) ?v"
          using p g Inr True mt by (simp add: fs_call_def fs_query_def expect_def reg_add_path_def Let_def)
        then obtain ds1 where "create_loop ?a rest ?v = (Inr ds1, w1)" "ds = ?d # ds1"
          using assms(1) by (auto simp: andThen_ok)
        moreover have "fr_rel_path ?d = lexically_relative ?a (ls_home w)" by (simp add: record_local_new_def)
        ultimately show ?thesis using g Inr True by auto
      qed
    qed
  qed
qed

lemma create_loop_spec:
  assumes "create_loop accum ss w = (Inr ds, w1)" and "plain_path accum" and "list_all name_ok ss"
  shows "ls_home w1 = ls_home w \<and>
    (\<forall>q. fs_is_directory (w_fs w) q \<longrightarrow> fs_is_directory (w_fs w1) q) \<and>
    (\<forall>p \<in> set (visited accum ss). fs_is_directory (w_fs w1) p) \<and>
    (let ps = filter (\<lambda>p. \<not> fs_exists (w_fs w) p) (visited accum ss)
     in map fr_rel_path ds = map (\<lambda>p. lexically_relative p (ls_home w)) ps \<and>
        ls_expected w1 = reg.add_list (map (\<lambda>p. (path_string p, New)) ps) (ls_expected w))"
  using assms
proof (induction ss arbitrary: accum w ds)
  case Nil
  then show ?case by simp
next
  case (Cons seg rest)
  let ?a = "extend_path accum [seg]"
  have ok: "seg_ok seg" "plain_path ?a" "list_all name_ok rest"
    using Cons.prems(2,3) by (simp_all add: name_ok_def [of seg] plain_path_def)
  obtain made g where g: "fs_create_directory ?a (w_fs w) = (Inr made, g)"
    and step: "if made then \<exists>dto ds1. ds = dto # ds1 \<and> fr_rel_path dto = lexically_relative ?a (ls_home w) \<and>
           create_loop ?a rest (w\<lparr>w_fs := g, ls_expected := reg_add (path_string ?a) New (ls_expected w)\<rparr>) = (Inr ds1, w1)
      else create_loop ?a rest (w\<lparr>w_fs := g\<rparr>) = (Inr ds, w1)"
    using create_loop_step [OF Cons.prems(1,2) ok(1)] by blast
  note dir = create_directory_ok [OF g]
  have ex: "fs_exists g p \<longleftrightarrow> fs_exists (w_fs w) p" if "p \<in> set (visited ?a rest)" for p
    using dir(4) [of p] visited_key [OF that ok(3), of "w_fs w"] by (metis less_irrefl)
  then have fl: "filter (\<lambda>p. \<not> fs_exists g p) (visited ?a rest) = filter (\<lambda>p. \<not> fs_exists (w_fs w) p) (visited ?a rest)"
    by (auto intro: filter_cong)
  show ?case
  proof (cases made)
    case True
    then obtain dto ds1 where d: "ds = dto # ds1" "fr_rel_path dto = lexically_relative ?a (ls_home w)"
      "create_loop ?a rest (w\<lparr>w_fs := g, ls_expected := reg_add (path_string ?a) New (ls_expected w)\<rparr>) = (Inr ds1, w1)"
      using step by auto
    from Cons.IH [OF d(3) ok(2,3)] show ?thesis
      using d(1,2) dir(1-3) fl True by (auto simp: Let_def)
  next
    case False
    then have d: "create_loop ?a rest (w\<lparr>w_fs := g\<rparr>) = (Inr ds, w1)" using step by simp
    from Cons.IH [OF d ok(2,3)] show ?thesis
      using dir(1-3) fl False by (auto simp: Let_def)
  qed
qed

lemma report_new:
  assumes "ls_expected v (path_string p) = Some New" and "\<not> ignoreTmp p"
  shows "handle_event xxh64 (file_event_plain p t New) v =
           (Inr (), v\<lparr>ls_expected := (ls_expected v)(path_string p := None)\<rparr>)"
  using assms by (simp add: handle_event_def handleCreated_def file_event_plain_def expected_hit)

lemma report_all_new:
  assumes "distinct (map path_string ps)" and "\<forall>p \<in> set ps. ls_expected v (path_string p) = Some New \<and> \<not> ignoreTmp p"
  shows "snd (for_each (\<lambda>p. handle_event xxh64 (file_event_plain p t New)) ps v) =
           v\<lparr>ls_expected := (\<lambda>k. if k \<in> set (map path_string ps) then None else ls_expected v k)\<rparr>"
  using assms
proof (induction ps arbitrary: v)
  case Nil
  then show ?case by simp
next
  case (Cons p ps)
  let ?v = "v\<lparr>ls_expected := (ls_expected v)(path_string p := None)\<rparr>"
  have h: "handle_event xxh64 (file_event_plain p t New) v = (Inr (), ?v)"
    using Cons.prems by (intro report_new) auto
  have "snd (for_each (\<lambda>p. handle_event xxh64 (file_event_plain p t New)) ps ?v) =
      ?v\<lparr>ls_expected := (\<lambda>k. if k \<in> set (map path_string ps) then None else ls_expected ?v k)\<rparr>"
    using Cons.prems by (intro Cons.IH) (auto simp: image_iff)
  moreover have "snd (for_each f (p # ps) v) = snd (for_each f ps v1)" if "f p v = (Inr y, v1)"
    for f and y :: unit and v1
    using that by (auto simp: andThen_def split: prod.splits sum.splits)
  ultimately show ?case using h by (auto simp: fun_eq_iff)
qed

lemma plain_visited: "plain_path accum \<Longrightarrow> list_all name_ok ss \<Longrightarrow> p \<in> set (visited accum ss) \<Longrightarrow> plain_path p"
  by (induction accum ss rule: visited.induct) (auto simp: plain_path_def name_ok_def)

lemma distinct_strings:
  "distinct ps \<Longrightarrow> \<forall>p \<in> set ps. plain_path p \<Longrightarrow> distinct (map path_string ps)"
  by (induction ps) (auto simp: path_string_inj)

lemma create_loop_base:
  assumes "\<And>s. path_div a \<lparr>rooted = False, segs = [s]\<rparr> = path_div b \<lparr>rooted = False, segs = [s]\<rparr>"
  shows "create_loop a ss w = create_loop b ss w"
  by (cases ss) (simp_all add: assms)

lemma createPath_loop:
  assumes "plain_path p" and "plain_path (ls_home w)"
  shows "local_createPath p missing w =
    create_loop (extend_path (ls_home w) (segs (path_prefix (normalizePath p) missing))) (segs missing) w"
proof -
  let ?pre = "path_prefix (normalizePath p) missing"
  have pre: "plain_path ?pre" "\<not> rooted ?pre"
    using assms(1) by (auto simp: normalizePath_plain path_prefix_def plain_path_def list_all_iff dest: in_set_takeD)
  have "path_div (path_div (ls_home w) ?pre) \<lparr>rooted = False, segs = [s]\<rparr> =
      path_div (extend_path (ls_home w) (segs ?pre)) \<lparr>rooted = False, segs = [s]\<rparr>" for s
  proof (cases "segs ?pre = []")
    case True
    have l: "segs (ls_home w) \<noteq> [] \<longrightarrow> last (segs (ls_home w)) \<noteq> []"
      using assms(2) seg_ok_last_nonempty [of "segs (ls_home w)"] by (simp add: plain_path_def)
    have "path_div (ls_home w) ?pre =
        (if segs (ls_home w) = [] then ls_home w else extend_path (ls_home w) [[]])"
      using True pre(2) l by (simp add: path_div_def Let_def)
    then show ?thesis using True l by (simp add: path_div_def Let_def)
  next
    case False
    then show ?thesis using path_div_plain [OF assms(2) pre False] by simp
  qed
  then show ?thesis unfolding local_createPath_def by (rule create_loop_base)
qed

text \<open>
  C27. Missing directories: when \<open>createPath\<close> returns, every directory of the missing part
  exists, one record was returned for each directory that was not there before, in order
  from the top, and when the watcher then reports exactly these directories, no change is
  made and the registry is as before.
\<close>

theorem createPath_not_echoed:
  assumes "local_createPath p missing w = (Inr ds, w1)" and "plain_path p" and "plain_path (ls_home w)"
    and "list_all name_ok (segs missing)"
    and "dirs = visited (extend_path (ls_home w) (segs (path_prefix (normalizePath p) missing))) (segs missing)"
    and "ps = filter (\<lambda>q. \<not> fs_exists (w_fs w) q) dirs"
    and "\<forall>q \<in> set ps. ls_expected w (path_string q) = None \<and> \<not> ignoreTmp q"
  shows "(\<forall>q \<in> set dirs. fs_is_directory (w_fs w1) q) \<and>
         map fr_rel_path ds = map (\<lambda>q. lexically_relative q (ls_home w)) ps \<and>
         snd (for_each (\<lambda>q. handle_event xxh64 (file_event_plain q t New)) ps w1) =
           w1\<lparr>ls_expected := ls_expected w\<rparr>"
proof -
  let ?pre = "path_prefix (normalizePath p) missing"
  let ?accum = "extend_path (ls_home w) (segs ?pre)"
  have acc: "plain_path ?accum"
    using assms(2,3) by (auto simp: normalizePath_plain path_prefix_def plain_path_def list_all_iff dest: in_set_takeD)
  have c: "create_loop ?accum (segs missing) w = (Inr ds, w1)"
    using assms(1) createPath_loop [OF assms(2,3)] by simp
  note sp = create_loop_spec [OF c acc assms(4), folded assms(5), folded assms(6), unfolded Let_def]
  have pl: "\<forall>q \<in> set ps. plain_path q"
    using assms(5,6) plain_visited [OF acc assms(4)] by auto
  have ds: "distinct (map path_string ps)"
    by (rule distinct_strings) (use assms(5,6) pl visited_distinct in auto)
  let ?es = "map (\<lambda>p. (path_string p, New)) ps"
  have fst_es: "map fst ?es = map path_string ps" by simp
  have e: "ls_expected w1 = ls_expected w ++ map_of ?es"
    using sp reg.add_list_pending [of ?es "ls_expected w"] ds assms(7) by (simp add: o_def)
  have "map_of ?es (path_string q) = Some New" if "q \<in> set ps" for q
    using that by (induction ps) auto
  moreover have n: "map_of ?es k = None" if "k \<notin> set (map path_string ps)" for k
    using that by (auto simp: map_of_eq_None_iff)
  ultimately have "snd (for_each (\<lambda>q. handle_event xxh64 (file_event_plain q t New)) ps w1) =
      w1\<lparr>ls_expected := (\<lambda>k. if k \<in> set (map path_string ps) then None else ls_expected w1 k)\<rparr>"
    using assms(7) e by (intro report_all_new ds) (simp add: map_add_def)
  moreover have "(\<lambda>k. if k \<in> set (map path_string ps) then None else ls_expected w1 k) = ls_expected w"
    using assms(7) n by (auto simp: fun_eq_iff e map_add_def)
  ultimately show ?thesis using sp by simp
qed

subsection \<open>A sample state\<close>

text \<open>A directory \<open>/h\<close> with a file \<open>f\<close> and a finished download of \<open>n\<close>, and the sample database.\<close>

definition sample_fs :: fs where
  "sample_fs =
     \<lparr>fs_nodes = [([], \<lparr>n_dir = True, n_data = [], n_mtime = 0, n_ino = 1\<rparr>),
        ([''h''], \<lparr>n_dir = True, n_data = [], n_mtime = 0, n_ino = 2\<rparr>),
        ([''h'', ''f''], \<lparr>n_dir = False, n_data = ''xy'', n_mtime = 7000000000, n_ino = 3\<rparr>),
        ([''h'', ''.-tmp-SyncHarbor-n''], \<lparr>n_dir = False, n_data = ''abc'', n_mtime = 8000000000, n_ino = 4\<rparr>)],
      fs_cwd = [], fs_dev = 0, fs_next_ino = 5, fs_clock = 9000000000\<rparr>"

definition sample_world :: lsys where
  "sample_world =
     \<lparr>w_fs = sample_fs, w_db = sample_conn, w_rc = (\<lambda>_. rc_ok), w_calls = 0, w_heap = [],
      factory_clouds = [1, 2], ls_home = \<lparr>rooted = True, segs = [''h'']\<rparr>, ls_id = 0, ls_events = q_new,
      ls_changes = q_new, ls_expected = Map.empty, ls_on_change = True, ls_signal = False\<rparr>"

lemma sample_world_simps [simp]:
  "w_fs sample_world = sample_fs" "w_db sample_world = sample_conn" "w_rc sample_world = (\<lambda>_. rc_ok)"
  "w_heap sample_world = []" "ls_home sample_world = \<lparr>rooted = True, segs = [''h'']\<rparr>"
  "ls_expected sample_world = Map.empty" "ls_events sample_world = q_new" "ls_changes sample_world = q_new"
  "factory_clouds sample_world = [1, 2]" "ls_id sample_world = 0"
  by (simp_all add: sample_world_def)

lemma sample_node:
  "fs_node sample_fs \<lparr>rooted = True, segs = [''h'', ''f'']\<rparr> =
     Some \<lparr>n_dir = False, n_data = ''xy'', n_mtime = 7000000000, n_ino = 3\<rparr>"
  by (simp add: fs_node_def fs_key_def sample_fs_def Let_def)

lemma sample_names:
  "\<not> ignoreTmp \<lparr>rooted = True, segs = [''h'', ''f'']\<rparr>" "\<not> ignoreTmp \<lparr>rooted = True, segs = [''h'', ''g'']\<rparr>"
  by (simp_all add: ignoreTmp_def filename_def tmp_prefixes_def tmp_suffixes_def tmp_prefix_def
      starts_with_def ends_with_def)

lemma sample_div [simp]:
  "path_div \<lparr>rooted = True, segs = [''h'']\<rparr> \<lparr>rooted = False, segs = [s]\<rparr> = \<lparr>rooted = True, segs = [''h'', s]\<rparr>"
  by (simp add: path_div_def)

theorem download_tmp_invisible_witness:
  "\<exists>m. handle_event (\<lambda>_. 1) (file_event_plain (tmp_name \<lparr>rooted = True, segs = [''h'', ''a'']\<rparr>) 5 Update) sample_world
     = (Inr (), sample_world\<lparr>ls_expected := m\<rparr>)"
  by (rule download_tmp_invisible [of "\<lparr>rooted = True, segs = [''h'', ''a'']\<rparr>"])
     (simp_all add: plain_path_def seg_ok_def filename_def file_event_plain_def)


theorem cloud_move_not_echoed_witness:
  "\<exists>w1. handle_event (\<lambda>_. 7) (file_event_assoc \<lparr>rooted = True, segs = [''h'', ''f'']\<rparr> 5 Rename
      (Some (core_event \<lparr>rooted = True, segs = [''h'', ''g'']\<rparr> 5 Rename))) w1 = (Inr (), w1\<lparr>ls_expected := Map.empty\<rparr>) \<and>
     w1 = snd (local_proccesMove (moved_cloud File 1 1 ''x'' 9 \<lparr>rooted = False, segs = [''f'']\<rparr>
        \<lparr>rooted = False, segs = [''g'']\<rparr> ''r'' ''r'') ''{}'' sample_world)"
proof -
  let ?m = "moved_cloud File 1 1 ''x'' 9 \<lparr>rooted = False, segs = [''f'']\<rparr> \<lparr>rooted = False, segs = [''g'']\<rparr> ''r'' ''r''"
  have "\<exists>d w1. local_proccesMove ?m ''{}'' sample_world = (Inr d, w1)"
    by (simp add: local_proccesMove_def moved_cloud_def path_string_def Let_def expect_def fs_call_def fs_rename_def fs_key_def
        sample_fs_def below_def rekey_def db_call_def update_file_link_moved_def run_write_eq
        stmt_update_file_link_moved_def fs_query_def convertSystemTime_def fs_node_def
        update_file_moved_def stmt_update_file_moved_def fs_is_directory_def andThen_def)
  then obtain d w1 where "local_proccesMove ?m ''{}'' sample_world = (Inr d, w1)" by blast
  from cloud_move_not_echoed [OF this, where evt = "file_event_assoc \<lparr>rooted = True, segs = [''h'', ''f'']\<rparr> 5 Rename
      (Some (core_event \<lparr>rooted = True, segs = [''h'', ''g'']\<rparr> 5 Rename))"] this
  show ?thesis using sample_names by (simp add: moved_cloud_def file_event_assoc_def core_event_def)
qed

theorem cloud_delete_not_echoed_witness:
  "fst (handle_event (\<lambda>_. 7) (file_event_plain \<lparr>rooted = True, segs = [''h'', ''f'']\<rparr> 5 Delete)
     (snd (local_proccesDelete (deleted_cloud \<lparr>rooted = False, segs = [''f'']\<rparr> 1 1 ''x'' 9) ''{}'' sample_world))) = Inr ()"
  using cloud_delete_not_echoed [of "deleted_cloud \<lparr>rooted = False, segs = [''f'']\<rparr> 1 1 ''x'' 9" "''{}''" sample_world
      "snd (local_proccesDelete (deleted_cloud \<lparr>rooted = False, segs = [''f'']\<rparr> 1 1 ''x'' 9) ''{}'' sample_world)"
      "file_event_plain \<lparr>rooted = True, segs = [''h'', ''f'']\<rparr> 5 Delete" "\<lambda>_. 7"]
  by (simp add: local_proccesDelete_def deleted_cloud_def expect_def file_event_plain_def)

theorem createPath_not_echoed_witness:
  "\<exists>ds w1. local_createPath \<lparr>rooted = False, segs = [''d'', ''e'']\<rparr> \<lparr>rooted = False, segs = [''d'', ''e'']\<rparr> sample_world
       = (Inr ds, w1) \<and> fs_is_directory (w_fs w1) \<lparr>rooted = True, segs = [''h'', ''d'', ''e'']\<rparr> \<and> length ds = 2"
proof -
  let ?p = "\<lparr>rooted = False, segs = [''d'', ''e'']\<rparr>"
  have pp: "plain_path ?p" "plain_path (ls_home sample_world)" by (simp_all add: plain_path_def seg_ok_def)
  have n: "normalizePath ?p = ?p" using pp(1) by (simp add: normalizePath_plain)
  have "\<exists>ds w1. create_loop (ls_home sample_world) [''d'', ''e''] sample_world = (Inr ds, w1)"
    by (simp add: Let_def path_div_def fs_call_def fs_create_directory_def fs_key_def sample_fs_def fs_query_def
        convertSystemTime_def fs_node_def expect_def andThen_def)
  then obtain ds w1 where c: "local_createPath ?p ?p sample_world = (Inr ds, w1)"
    using createPath_loop [OF pp, of ?p] by (auto simp: n path_prefix_def)
  have ex: "\<not> fs_exists sample_fs \<lparr>rooted = True, segs = [''h'', ''d'']\<rparr>"
    "\<not> fs_exists sample_fs \<lparr>rooted = True, segs = [''h'', ''d'', ''e'']\<rparr>"
    by (simp_all add: fs_exists_def fs_node_def fs_key_def sample_fs_def Let_def)
  have t: "\<not> ignoreTmp \<lparr>rooted = True, segs = [''h'', ''d'']\<rparr>" "\<not> ignoreTmp \<lparr>rooted = True, segs = [''h'', ''d'', ''e'']\<rparr>"
    by (simp_all add: ignoreTmp_def filename_def tmp_prefixes_def tmp_suffixes_def tmp_prefix_def
        starts_with_def ends_with_def)
  from createPath_not_echoed [OF c pp _ refl refl, of "\<lambda>_. 0" 0]
  have "fs_is_directory (w_fs w1) \<lparr>rooted = True, segs = [''h'', ''d'', ''e'']\<rparr> \<and>
      length (map fr_rel_path ds) = 2"
    using ex t by (simp add: n path_prefix_def name_ok_def seg_ok_def)
  with c show ?thesis by simp
qed

end
