(* ===== verification/SyncManager.thy ===== *)
theory SyncManager
  imports Networking
begin

text \<open>
  \<open>src/sync-manager.cpp\<close>, the daemon: from incoming changes to running ones. At most one
  change runs per path; others for the same path wait as its dependents. Parameters: the
  operations of the storages (\<open>stores\<close>), \<open>createPath\<close> of the clouds (\<open>create_in\<close>), and
  \<open>wait\<close>, what happens while \<open>CallbackDispatcher::waitUntilIdle\<close> blocks the caller. In the
  callback worker itself that call never returns, because the command being completed is
  still counted and the worker holds the mutex: there \<open>wait\<close> is \<open>worker_wait\<close>.
\<close>

subsection \<open>State\<close>

text \<open>\<open>sm_clouds\<close>: the keys of \<open>_clouds\<close> in the order of the map.\<close>

record ssys = dsys +
  sm_clouds :: "int list"
  sm_num_clouds :: int
  sm_current :: "(path \<times> nat) list"
  sm_buff :: "nat ts_queue"

definition worker_wait :: "('w, unit) act" where
  "worker_wait = throw SelfDeadlock"

subsection \<open>\<open>createPath\<close>\<close>

definition getMissing :: "path \<Rightarrow> ('s ssys_scheme, path) act" where
  "getMissing p w =
     db_call_seq (\<lambda>rcs. getMissingPathPart rcs p (sm_num_clouds w)) (2 * length (segs p)) w"

text \<open>The global id of a new cloud directory: of the record just written, else of the row of the path.\<close>

definition link_global_id :: "(path \<times> int) list \<Rightarrow> file_record_dto \<Rightarrow> ('s sys_scheme, file_record_dto) act" where
  "link_global_id ids e =
     (case map_of ids (fr_rel_path e) of
        Some gid \<Rightarrow> ret (e\<lparr>fr_global_id := gid\<rparr>)
      | None \<Rightarrow> andThen (db_call (\<lambda>rc. getGlobalIdByPath rc (fr_rel_path e)))
                  (\<lambda>gid. ret (e\<lparr>fr_global_id := gid\<rparr>)))"

definition sm_createPath ::
  "('s ssys_scheme, unit) act \<Rightarrow> (int \<Rightarrow> path \<Rightarrow> path \<Rightarrow> ('s ssys_scheme, file_record_dto list) act) \<Rightarrow>
   path \<Rightarrow> path \<Rightarrow> ('s ssys_scheme, unit) act" where
  "sm_createPath wait create_in p missing =
     andThen (local_createPath p missing)
       (\<lambda>made. andThen wait
       (\<lambda>_. andThen (syncDbWrite_records made)
       (\<lambda>entries. let ids = map (\<lambda>e. (fr_rel_path e, fr_global_id e)) entries
          in andThen (query (\<lambda>w. filter (\<lambda>cid. cid \<noteq> 0) (sm_clouds w)))
       (\<lambda>cids. andThen (for_each (\<lambda>cid. andThen (create_in cid p missing) (for_each (link_global_id ids))) cids)
       (\<lambda>tmps. andThen wait
       (\<lambda>_. andThen (syncDbWrite_records (concat tmps))
       (\<lambda>_. ret ())))))))"

subsection \<open>Running changes\<close>

definition deref_change :: "nat \<Rightarrow> ('s lsys_scheme, change) act" where
  "deref_change a w = (case deref (w_heap w) a of None \<Rightarrow> throw NullPointer w | Some c \<Rightarrow> ret c w)"

definition modify_change :: "nat \<Rightarrow> (change \<Rightarrow> change) \<Rightarrow> ('s lsys_scheme, unit) act" where
  "modify_change a g = modify (\<lambda>w. w\<lparr>w_heap := update_at a g (w_heap w)\<rparr>)"

definition dispatch_change ::
  "(int \<Rightarrow> ('s dsys_scheme) storage_ops) \<Rightarrow> nat \<Rightarrow> ('s dsys_scheme, unit) act" where
  "dispatch_change stores a =
     andThen (deref_change a)
       (\<lambda>c. let (r, c1) = dispatch c
            in andThen (modify_change a (\<lambda>_. c1))
       (\<lambda>_. andThen (lift_res r)
       (\<lambda>to. andThen (case to of Inl cmds \<Rightarrow> for_each cb_submit cmds
                                | Inr cmds \<Rightarrow> for_each (http_submit stores) cmds)
       (\<lambda>_. ret ()))))"

text \<open>\<open>_current_changes[path] = change\<close>.\<close>

definition set_current :: "path \<Rightarrow> nat \<Rightarrow> (path \<times> nat) list \<Rightarrow> (path \<times> nat) list" where
  "set_current p a cur = (p, a) # filter (\<lambda>e. fst e \<noteq> p) cur"

definition startChange ::
  "(int \<Rightarrow> ('s ssys_scheme) storage_ops) \<Rightarrow> path \<Rightarrow> nat \<Rightarrow> ('s ssys_scheme, unit) act" where
  "startChange stores p a =
     andThen (modify_change a (setOnComplete p))
       (\<lambda>_. andThen (modify (\<lambda>w. w\<lparr>sm_current := set_current p a (sm_current w)\<rparr>))
       (\<lambda>_. dispatch_change stores a))"

definition ensure_path ::
  "('s ssys_scheme, unit) act \<Rightarrow> (int \<Rightarrow> path \<Rightarrow> path \<Rightarrow> ('s ssys_scheme, file_record_dto list) act) \<Rightarrow>
   path \<Rightarrow> ('s ssys_scheme, unit) act" where
  "ensure_path wait create_in p =
     andThen (getMissing p)
       (\<lambda>missing. if \<not> path_empty missing then sm_createPath wait create_in p missing else ret ())"

text \<open>A new directory is made everywhere at once; the change itself is dropped.\<close>

definition handleChange ::
  "(int \<Rightarrow> ('s ssys_scheme) storage_ops) \<Rightarrow> ('s ssys_scheme, unit) act \<Rightarrow>
   (int \<Rightarrow> path \<Rightarrow> path \<Rightarrow> ('s ssys_scheme, file_record_dto list) act) \<Rightarrow>
   nat \<Rightarrow> ('s ssys_scheme, unit) act" where
  "handleChange stores wait create_in a =
     andThen (deref_change a)
       (\<lambda>c. let p = ch_path c
            in andThen (lift_res (change_getTargetType c))
       (\<lambda>et. if et = Directory \<and> ch_type c = New then ensure_path wait create_in p
             else andThen (query (\<lambda>w. map_of (sm_current w) p))
               (\<lambda>cur. case cur of
                  None \<Rightarrow>
                    andThen (if ch_type c = New then ensure_path wait create_in (parent_path p) else ret ())
                      (\<lambda>_. startChange stores p a)
                | Some b \<Rightarrow> modify_change b (addDependent a))))"

definition onChangeCompleted ::
  "(int \<Rightarrow> ('s ssys_scheme) storage_ops) \<Rightarrow> ('s ssys_scheme, unit) act \<Rightarrow>
   (int \<Rightarrow> path \<Rightarrow> path \<Rightarrow> ('s ssys_scheme, file_record_dto list) act) \<Rightarrow>
   path \<Rightarrow> nat list \<Rightarrow> ('s ssys_scheme, unit) act" where
  "onChangeCompleted stores wait create_in p dependents =
     andThen (modify (\<lambda>w. w\<lparr>sm_current := filter (\<lambda>e. fst e \<noteq> p) (sm_current w)\<rparr>))
       (\<lambda>_. andThen (for_each (handleChange stores wait create_in) dependents) (\<lambda>_. ret ()))"

subsection \<open>The threads\<close>

text \<open>One turn of \<open>proccessLoop\<close>.\<close>

definition process_step ::
  "(int \<Rightarrow> ('s ssys_scheme) storage_ops) \<Rightarrow> ('s ssys_scheme, unit) act \<Rightarrow>
   (int \<Rightarrow> path \<Rightarrow> path \<Rightarrow> ('s ssys_scheme, file_record_dto list) act) \<Rightarrow>
   ('s ssys_scheme, bool option) act" where
  "process_step stores wait create_in w =
     (case q_pop (sm_buff w) of
        (WouldBlock, q) \<Rightarrow> ret None w
      | (PopClosed, q) \<Rightarrow> ret (Some False) w
      | (Got a, q) \<Rightarrow>
          andThen (handleChange stores wait create_in a) (\<lambda>_. ret (Some True)) (w\<lparr>sm_buff := q\<rparr>))"

text \<open>
  The second half of one turn of \<open>pollingLoop\<close>: every storage with reports has them turned
  into changes, which are queued.
\<close>

definition collect_changes ::
  "(int \<Rightarrow> 's ssys_scheme \<Rightarrow> bool) \<Rightarrow> (int \<Rightarrow> ('s ssys_scheme, nat list) act) \<Rightarrow> ('s ssys_scheme, unit) act" where
  "collect_changes has_changes process w =
     andThen (for_each (\<lambda>cid w.
        if has_changes cid w
        then andThen (process cid) (\<lambda>as. modify (\<lambda>w. w\<lparr>sm_buff := q_push_all as (sm_buff w)\<rparr>)) w
        else ret () w) (sm_clouds w)) (\<lambda>_. ret ()) w"

text \<open>The first half: when it is time, every cloud but the local storage is asked for changes.\<close>

definition poll_clouds :: "(int \<Rightarrow> ('s ssys_scheme, unit) act) \<Rightarrow> ('s ssys_scheme, unit) act" where
  "poll_clouds get_changes w =
     andThen (for_each get_changes (filter (\<lambda>cid. cid \<noteq> 0) (sm_clouds w))) (\<lambda>_. ret ()) w"

definition polling_step ::
  "bool \<Rightarrow> (int \<Rightarrow> ('s ssys_scheme, unit) act) \<Rightarrow> (int \<Rightarrow> 's ssys_scheme \<Rightarrow> bool) \<Rightarrow>
   (int \<Rightarrow> ('s ssys_scheme, nat list) act) \<Rightarrow> ('s ssys_scheme, unit) act" where
  "polling_step due get_changes has_changes process =
     andThen (modify (\<lambda>w. w\<lparr>ls_signal := False\<rparr>))
       (\<lambda>_. andThen (if due then poll_clouds get_changes else ret ())
       (\<lambda>_. collect_changes has_changes process))"

definition anyStorageHasRaw :: "(int \<Rightarrow> 's ssys_scheme \<Rightarrow> bool) \<Rightarrow> 's ssys_scheme \<Rightarrow> bool" where
  "anyStorageHasRaw has_changes w \<longleftrightarrow> list_ex (\<lambda>cid. has_changes cid w) (sm_clouds w)"

end
