(* ===== verification/CloudTime.thy ===== *)
theory CloudTime
  imports Prelude
begin

text \<open>
  \<open>convertCloudTime\<close> of \<open>src/utils.cpp\<close>: the timestamps of the clouds as seconds since 1970,
  with \<open>std::get_time\<close> for the one format that is used and \<open>timegm\<close>. A field that does not
  match stops the parser and leaves the later fields zero. The proleptic Gregorian calendar
  is reckoned with integers; \<open>std::stoull\<close>, with which sizes are read, is here too.
\<close>

subsection \<open>Numbers in texts\<close>

definition is_digit :: "char \<Rightarrow> bool" where
  "is_digit c \<longleftrightarrow> c \<in> set ''0123456789''"

definition digit_val :: "char \<Rightarrow> int" where
  "digit_val c = int (of_char c) - 48"

definition digits_val :: "string \<Rightarrow> int" where
  "digits_val s = foldl (\<lambda>n c. 10 * n + digit_val c) 0 s"

text \<open>
  One numeric field: exactly \<open>len\<close> digits with a value between the bounds. (A year written
  with two digits, which some libraries expand, counts as no match.)
\<close>

definition get_num :: "nat \<Rightarrow> int \<Rightarrow> int \<Rightarrow> string \<Rightarrow> (int \<times> string) option" where
  "get_num len lo hi s =
     (let d = take len s; v = digits_val d
      in if length d = len \<and> list_all is_digit d \<and> lo \<le> v \<and> v \<le> hi then Some (v, drop len s) else None)"

text \<open>Letters in the format match in either case; the format has only the letter T.\<close>

definition get_lit :: "char \<Rightarrow> string \<Rightarrow> string option" where
  "get_lit c s =
     (case s of [] \<Rightarrow> None
      | x # r \<Rightarrow> (if x = c \<or> (c = CHR ''T'' \<and> x = CHR ''t'') then Some r else None))"

subsection \<open>The broken-down time\<close>

record tm =
  tm_year :: int
  tm_mon :: int
  tm_mday :: int
  tm_hour :: int
  tm_min :: int
  tm_sec :: int

definition tm_zero :: tm where
  "tm_zero = \<lparr>tm_year = 1900, tm_mon = 0, tm_mday = 0, tm_hour = 0, tm_min = 0, tm_sec = 0\<rparr>"

text \<open>The format as a list of fields and literals; \<open>tm_year\<close> is the full year here.\<close>

datatype time_field = FYear | FMonth | FDay | FHour | FMinute | FSecond | FLit char

definition iso_format :: "time_field list" where
  "iso_format =
     [FYear, FLit (CHR ''-''), FMonth, FLit (CHR ''-''), FDay, FLit (CHR ''T''),
      FHour, FLit (CHR '':''), FMinute, FLit (CHR '':''), FSecond]"

fun get_field :: "time_field \<Rightarrow> string \<Rightarrow> tm \<Rightarrow> (tm \<times> string) option" where
  "get_field FYear s t = map_option (\<lambda>(v, r). (t\<lparr>tm_year := v\<rparr>, r)) (get_num 4 0 9999 s)"
| "get_field FMonth s t = map_option (\<lambda>(v, r). (t\<lparr>tm_mon := v - 1\<rparr>, r)) (get_num 2 1 12 s)"
| "get_field FDay s t = map_option (\<lambda>(v, r). (t\<lparr>tm_mday := v\<rparr>, r)) (get_num 2 1 31 s)"
| "get_field FHour s t = map_option (\<lambda>(v, r). (t\<lparr>tm_hour := v\<rparr>, r)) (get_num 2 0 23 s)"
| "get_field FMinute s t = map_option (\<lambda>(v, r). (t\<lparr>tm_min := v\<rparr>, r)) (get_num 2 0 59 s)"
| "get_field FSecond s t = map_option (\<lambda>(v, r). (t\<lparr>tm_sec := v\<rparr>, r)) (get_num 2 0 60 s)"
| "get_field (FLit c) s t = map_option (\<lambda>r. (t, r)) (get_lit c s)"

fun get_time :: "time_field list \<Rightarrow> string \<Rightarrow> tm \<Rightarrow> tm" where
  "get_time [] s t = t"
| "get_time (f # fs) s t =
     (case get_field f s t of None \<Rightarrow> t | Some (t1, r) \<Rightarrow> get_time fs r t1)"

subsection \<open>The calendar\<close>

definition leap :: "int \<Rightarrow> bool" where
  "leap y \<longleftrightarrow> (y mod 4 = 0 \<and> y mod 100 \<noteq> 0) \<or> y mod 400 = 0"

definition leaps_before :: "int \<Rightarrow> int" where
  "leaps_before y = (y + 3) div 4 - (y + 99) div 100 + (y + 399) div 400"

definition days_before_month :: "bool \<Rightarrow> int \<Rightarrow> int" where
  "days_before_month lp m =
     [0, 31, 59, 90, 120, 151, 181, 212, 243, 273, 304, 334, 365] ! nat m + (if lp \<and> 2 \<le> m then 1 else 0)"

definition epoch_days :: "int \<Rightarrow> int \<Rightarrow> int \<Rightarrow> int" where
  "epoch_days y m d =
     365 * (y - 1970) + leaps_before y - leaps_before 1970 + days_before_month (leap y) m + d - 1"

definition timegm :: "tm \<Rightarrow> int" where
  "timegm t =
     ((epoch_days (tm_year t) (tm_mon t) (tm_mday t) * 24 + tm_hour t) * 60 + tm_min t) * 60 + tm_sec t"

definition convertCloudTime :: "string \<Rightarrow> int" where
  "convertCloudTime datetime =
     (let d1 = (if datetime \<noteq> [] \<and> last datetime = CHR ''Z'' then butlast datetime else datetime);
          d2 = takeWhile (\<lambda>c. c \<noteq> CHR ''.'') d1
      in timegm (get_time iso_format d2 tm_zero))"

subsection \<open>\<open>std::stoull\<close>\<close>

text \<open>White space, a sign and the longest run of digits; a minus sign negates modulo 2^64.\<close>

definition stoull :: "string \<Rightarrow> u64 res" where
  "stoull s =
     (let s1 = dropWhile (\<lambda>c. c \<in> set [CHR '' '', CHR 0x09, CHR 0x0A, CHR 0x0B, CHR 0x0C, CHR 0x0D]) s;
          neg = (s1 \<noteq> [] \<and> hd s1 = CHR ''-'');
          s2 = (if s1 \<noteq> [] \<and> hd s1 \<in> {CHR ''-'', CHR ''+''} then tl s1 else s1);
          ds = takeWhile is_digit s2; v = digits_val ds
      in if ds = [] then Inl (InvalidArgument ''stoull'')
         else if 2 ^ 64 \<le> v then Inl OutOfRange
         else Inr (of_int (if neg then - v else v)))"


subsection \<open>Well-formed timestamps\<close>

fun pad :: "nat \<Rightarrow> int \<Rightarrow> string" where
  "pad 0 v = []"
| "pad (Suc n) v = pad n (v div 10) @ [''0123456789'' ! nat (v mod 10)]"

definition iso_string :: "tm \<Rightarrow> string" where
  "iso_string t =
     pad 4 (tm_year t) @ ''-'' @ pad 2 (tm_mon t + 1) @ ''-'' @ pad 2 (tm_mday t) @ ''T'' @
     pad 2 (tm_hour t) @ '':'' @ pad 2 (tm_min t) @ '':'' @ pad 2 (tm_sec t)"

definition tm_ok :: "tm \<Rightarrow> bool" where
  "tm_ok t \<longleftrightarrow>
     0 \<le> tm_year t \<and> tm_year t \<le> 9999 \<and> 0 \<le> tm_mon t \<and> tm_mon t \<le> 11 \<and> 1 \<le> tm_mday t \<and>
     tm_mday t \<le> days_before_month (leap (tm_year t)) (tm_mon t + 1) - days_before_month (leap (tm_year t)) (tm_mon t) \<and>
     0 \<le> tm_hour t \<and> tm_hour t \<le> 23 \<and> 0 \<le> tm_min t \<and> tm_min t \<le> 59 \<and> 0 \<le> tm_sec t \<and> tm_sec t \<le> 59"

text \<open>What may follow the seconds: the zone letter, with a fraction of a second before it.\<close>

definition stamp_end :: "string \<Rightarrow> bool" where
  "stamp_end f \<longleftrightarrow> f = ''Z'' \<or> (\<exists>g. f = CHR ''.'' # g @ ''Z'')"

fun earlier :: "int list \<Rightarrow> int list \<Rightarrow> bool" where
  "earlier (x # xs) (y # ys) \<longleftrightarrow> x < y \<or> (x = y \<and> earlier xs ys)"
| "earlier _ _ \<longleftrightarrow> False"

definition tm_list :: "tm \<Rightarrow> int list" where
  "tm_list t = [tm_year t, tm_mon t, tm_mday t, tm_hour t, tm_min t, tm_sec t]"

lemma digit_char:
  assumes "0 \<le> k" "k < 10"
  shows "is_digit (''0123456789'' ! nat k)" "digit_val (''0123456789'' ! nat k) = k"
proof -
  have "k = 0 \<or> k = 1 \<or> k = 2 \<or> k = 3 \<or> k = 4 \<or> k = 5 \<or> k = 6 \<or> k = 7 \<or> k = 8 \<or> k = 9"
    using assms by presburger
  then have "is_digit (''0123456789'' ! nat k) \<and> digit_val (''0123456789'' ! nat k) = k"
    by (elim disjE) (simp_all add: is_digit_def digit_val_def)
  then show "is_digit (''0123456789'' ! nat k)" "digit_val (''0123456789'' ! nat k) = k" by simp_all
qed

lemma div_ten_less: "(v :: int) < 10 * b \<Longrightarrow> v div 10 < b"
  by presburger

lemma pad_props:
  "0 \<le> v \<Longrightarrow> v < 10 ^ n \<Longrightarrow> length (pad n v) = n \<and> list_all is_digit (pad n v) \<and> digits_val (pad n v) = v"
proof (induction n arbitrary: v)
  case 0
  then show ?case by (simp add: digits_val_def)
next
  case (Suc n)
  have "0 \<le> v div 10" "v div 10 < 10 ^ n"
    using Suc.prems by (simp_all add: div_ten_less)
  with Suc.IH show ?case using digit_char [of "v mod 10"] by (simp add: digits_val_def)
qed

lemma get_num_pad:
  assumes "0 \<le> v" "v < 10 ^ n" "lo \<le> v" "v \<le> hi"
  shows "get_num n lo hi (pad n v @ r) = Some (v, r)"
  using pad_props [OF assms(1,2)] assms(3,4) by (simp add: get_num_def Let_def)

lemma pad_no_dot: "0 \<le> v \<Longrightarrow> v < 10 ^ n \<Longrightarrow> CHR ''.'' \<notin> set (pad n v)"
proof -
  assume "0 \<le> v" "v < 10 ^ n"
  then have "\<forall>c \<in> set (pad n v). is_digit c" using pad_props [of v n] by (simp add: list_all_iff)
  moreover have "\<not> is_digit (CHR ''.'')" by (simp add: is_digit_def)
  ultimately show ?thesis by metis
qed

lemma months: "0 \<le> (m :: int) \<Longrightarrow> m \<le> 11 \<Longrightarrow>
    m = 0 \<or> m = 1 \<or> m = 2 \<or> m = 3 \<or> m = 4 \<or> m = 5 \<or> m = 6 \<or> m = 7 \<or> m = 8 \<or> m = 9 \<or> m = 10 \<or> m = 11"
proof -
  assume m: "0 \<le> m" "m \<le> 11"
  have step: "m \<le> k \<longleftrightarrow> m \<le> k - 1 \<or> m = k" for k by auto
  show ?thesis
    using m step [of 11] step [of 10] step [of 9] step [of 8] step [of 7] step [of 6] step [of 5]
      step [of 4] step [of 3] step [of 2] step [of 1] by simp
qed

lemma month_length:
  assumes "0 \<le> m" "m \<le> 11"
  shows "days_before_month lp (m + 1) - days_before_month lp m \<le> 31"
  using months [OF assms] by (elim disjE) (simp_all add: days_before_month_def)

lemma tm_day_31: "tm_ok t \<Longrightarrow> tm_mday t \<le> 31"
  using month_length [of "tm_mon t" "leap (tm_year t)"] by (simp add: tm_ok_def)

lemma iso_no_dot: "tm_ok t \<Longrightarrow> CHR ''.'' \<notin> set (iso_string t)"
  using tm_day_31 [of t]
  by (simp add: iso_string_def tm_ok_def pad_no_dot del: pad.simps)

lemma get_time_iso:
  assumes "tm_ok t"
  shows "get_time iso_format (iso_string t) tm_zero = t"
  using assms tm_day_31 [OF assms]
  by (simp add: iso_string_def iso_format_def tm_ok_def get_num_pad get_num_pad [where r = "[]", simplified] get_lit_def tm_zero_def del: pad.simps)

lemma takeWhile_up_to: "c \<notin> set xs \<Longrightarrow> takeWhile (\<lambda>x. x \<noteq> c) (xs @ c # ys) = xs"
  by (induction xs) auto

lemma convert_iso:
  assumes "tm_ok t" "stamp_end f"
  shows "convertCloudTime (iso_string t @ f) = timegm t"
proof -
  have nd: "CHR ''.'' \<notin> set (iso_string t)" by (rule iso_no_dot [OF assms(1)])
  have "takeWhile (\<lambda>c. c \<noteq> CHR ''.'') (butlast (iso_string t @ f)) = iso_string t"
    using assms(2) nd by (auto simp: stamp_end_def butlast_append takeWhile_up_to takeWhile_eq_all_conv)
  moreover have "iso_string t @ f \<noteq> [] \<and> last (iso_string t @ f) = CHR ''Z''"
    using assms(2) by (auto simp: stamp_end_def)
  ultimately show ?thesis
    by (simp add: convertCloudTime_def get_time_iso [OF assms(1)] Let_def)
qed

subsection \<open>The order of the calendar\<close>

lemma ceil_div_Suc:
  assumes "0 < (n :: int)"
  shows "(y + 1 + (n - 1)) div n = (y + (n - 1)) div n + (if y mod n = 0 then 1 else 0)"
proof -
  define q r where "q = y div n" and "r = y mod n"
  have y: "y = r + q * n" by (simp add: q_def r_def)
  have r: "0 \<le> r" "r < n" using assms by (simp_all add: r_def)
  have "y + 1 + (n - 1) = r + (q + 1) * n" by (simp add: y algebra_simps)
  then have "(y + 1 + (n - 1)) div n = q + 1 + r div n"
    using assms by (simp only: div_mult_self1)
  moreover have "(y + (n - 1)) div n = q + (r + (n - 1)) div n"
  proof -
    have "y + (n - 1) = (r + (n - 1)) + q * n" by (simp add: y)
    then show ?thesis using assms by (simp only: div_mult_self1)
  qed
  moreover have "(r + (n - 1)) div n = (if r = 0 then 0 else 1)"
  proof (cases "r = 0")
    case False
    have "r + (n - 1) = (r - 1) + 1 * n" by simp
    then have "(r + (n - 1)) div n = 1 + (r - 1) div n"
      using assms by (simp only: div_mult_self1)
    then show ?thesis using False r by (simp add: div_pos_pos_trivial)
  qed (simp add: assms div_pos_pos_trivial)
  moreover have "r div n = 0" using r by (simp add: div_pos_pos_trivial)
  ultimately show ?thesis using r by (simp add: r_def)
qed

lemma leap_split:
  fixes A B C :: int
  shows "(c \<longrightarrow> b) \<Longrightarrow> (b \<longrightarrow> a) \<Longrightarrow>
     A + (if a then 1 else 0) - (B + (if b then 1 else 0)) + (C + (if c then 1 else 0)) =
     A - B + C + (if a \<and> \<not> b \<or> c then 1 else 0)"
  by auto

lemma leaps_before_Suc: "leaps_before (y + 1) = leaps_before y + (if leap y then 1 else 0)"
proof -
  have alt: "leaps_before x = (x + (4 - 1)) div 4 - (x + (100 - 1)) div 100 + (x + (400 - 1)) div 400" for x
    by (simp add: leaps_before_def)
  have c: "0 < (4 :: int)" "0 < (100 :: int)" "0 < (400 :: int)" by simp_all
  have "y mod 400 = 0 \<longrightarrow> y mod 100 = 0" "y mod 100 = 0 \<longrightarrow> y mod 4 = 0"
    using dvd_trans [of 100 400 y] dvd_trans [of 4 100 y] by (simp_all only: mod_eq_0_iff_dvd) simp_all
  then show ?thesis
    unfolding alt leap_def ceil_div_Suc [OF c(1)] ceil_div_Suc [OF c(2)] ceil_div_Suc [OF c(3)]
    by (rule leap_split)
qed

lemma leaps_before_mono: "x \<le> y \<Longrightarrow> leaps_before x \<le> leaps_before y"
  by (induction y rule: int_ge_induct) (simp_all add: leaps_before_Suc)

lemma days_before_month_step:
  assumes "0 \<le> m" "m \<le> 11"
  shows "days_before_month lp m \<le> days_before_month lp (m + 1)"
  using months [OF assms] by (elim disjE) (simp_all add: days_before_month_def)

lemma days_before_month_mono: "j \<le> k \<Longrightarrow> 0 \<le> j \<Longrightarrow> k \<le> 12 \<Longrightarrow> days_before_month lp j \<le> days_before_month lp k"
proof (induction k rule: int_ge_induct)
  case base
  then show ?case by simp
next
  case (step k)
  then show ?case using days_before_month_step [of k lp] by simp
qed

lemma days_before_month_ends: "days_before_month lp 0 = 0" "days_before_month lp 12 = 365 + (if lp then 1 else 0)"
  by (simp_all add: days_before_month_def)

text \<open>A day lies inside its month, a month inside its year.\<close>

lemma day_in_year:
  assumes "tm_ok t"
  shows "0 \<le> days_before_month (leap (tm_year t)) (tm_mon t) + tm_mday t - 1"
    "days_before_month (leap (tm_year t)) (tm_mon t) + tm_mday t \<le> 365 + (if leap (tm_year t) then 1 else 0)"
  using assms days_before_month_mono [of 0 "tm_mon t" "leap (tm_year t)"]
    days_before_month_mono [of "tm_mon t + 1" 12 "leap (tm_year t)"]
  by (simp_all add: tm_ok_def days_before_month_ends)

definition day_of :: "tm \<Rightarrow> int" where
  "day_of t = epoch_days (tm_year t) (tm_mon t) (tm_mday t)"

lemma day_year_less:
  assumes "tm_ok a" "tm_ok b" "tm_year a < tm_year b"
  shows "day_of a < day_of b"
  using day_in_year(2) [OF assms(1)] day_in_year(1) [OF assms(2)] assms(3)
    leaps_before_mono [of "tm_year a + 1" "tm_year b"]
  by (simp add: day_of_def epoch_days_def leaps_before_Suc)

lemma day_month_less:
  assumes "tm_ok a" "tm_ok b" "tm_year a = tm_year b" "tm_mon a < tm_mon b"
  shows "day_of a < day_of b"
  using assms days_before_month_mono [of "tm_mon a + 1" "tm_mon b" "leap (tm_year b)"]
  by (simp add: day_of_def epoch_days_def tm_ok_def)

lemma timegm_day: "timegm t = 86400 * day_of t + (3600 * tm_hour t + 60 * tm_min t + tm_sec t)"
  by (simp add: timegm_def day_of_def)

lemma timegm_day_less:
  assumes "tm_ok a" "tm_ok b" "day_of a < day_of b"
  shows "timegm a < timegm b"
  using assms by (simp add: timegm_day tm_ok_def)

lemma earlier_timegm:
  assumes "tm_ok a" "tm_ok b" "earlier (tm_list a) (tm_list b)"
  shows "timegm a < timegm b"
proof (cases "day_of a < day_of b")
  case True
  then show ?thesis by (rule timegm_day_less [OF assms(1,2)])
next
  case False
  then have same: "tm_year a = tm_year b" "tm_mon a = tm_mon b" "tm_mday a = tm_mday b"
    using assms(3) day_year_less [OF assms(1,2)] day_month_less [OF assms(1,2)]
    by (auto simp: tm_list_def day_of_def epoch_days_def)
  then have "day_of a = day_of b" by (simp add: day_of_def)
  then show ?thesis using assms same by (auto simp: timegm_day tm_list_def tm_ok_def)
qed

lemma earlier_total: "tm_list a = tm_list b \<or> earlier (tm_list a) (tm_list b) \<or> earlier (tm_list b) (tm_list a)"
  by (auto simp: tm_list_def)

lemma timegm_order:
  assumes "tm_ok a" "tm_ok b"
  shows "timegm a < timegm b \<longleftrightarrow> earlier (tm_list a) (tm_list b)"
  using earlier_total [of a b] earlier_timegm [OF assms] earlier_timegm [OF assms(2,1)]
  by (auto simp: timegm_def tm_list_def)

text \<open>
  C13. Timestamps order as the calendar does. For two well-formed timestamps, however the
  clouds write the end of them (with or without a fraction of a second), \<open>convertCloudTime\<close>
  gives the seconds of the date they name, and the first is smaller exactly when its date and
  time of day come first: the comparisons of modification times compare the instants (to the
  second; fractions are dropped).
\<close>

theorem cloud_time_order:
  assumes "tm_ok a" "tm_ok b" "stamp_end fa" "stamp_end fb"
  shows "(convertCloudTime (iso_string a @ fa) < convertCloudTime (iso_string b @ fb) \<longleftrightarrow>
      earlier (tm_list a) (tm_list b)) \<and>
    convertCloudTime (iso_string a @ fa) = timegm a"
  by (simp_all add: convert_iso assms timegm_order)

definition sample_stamp :: tm where
  "sample_stamp = \<lparr>tm_year = 2024, tm_mon = 1, tm_mday = 29, tm_hour = 12, tm_min = 34, tm_sec = 56\<rparr>"

lemma sample_stamp_ok: "tm_ok sample_stamp" "tm_ok (sample_stamp\<lparr>tm_mon := 2, tm_mday := 1\<rparr>)"
  by code_simp+

theorem cloud_time_order_witness:
  "convertCloudTime ''2024-02-29T12:34:56.789Z'' < convertCloudTime ''2024-03-01T12:34:56Z'' \<and>
   convertCloudTime ''2024-02-29T12:34:56.789Z'' = 1709210096"
proof -
  have e: "stamp_end ''.789Z''" "stamp_end ''Z''" by (simp_all add: stamp_end_def)
  have t: "iso_string sample_stamp @ ''.789Z'' = ''2024-02-29T12:34:56.789Z''"
    "iso_string (sample_stamp\<lparr>tm_mon := 2, tm_mday := 1\<rparr>) @ ''Z'' = ''2024-03-01T12:34:56Z''"
    "earlier (tm_list sample_stamp) (tm_list (sample_stamp\<lparr>tm_mon := 2, tm_mday := 1\<rparr>))"
    "timegm sample_stamp = 1709210096"
    by code_simp+
  show ?thesis using cloud_time_order [OF sample_stamp_ok e, unfolded t(1,2,4)] t(3) by blast
qed

end
