(* ===== verification/CloudSys.thy ===== *)
theory CloudSys
  imports SyncManager CloudTime
begin

text \<open>
  What the two clouds share: the third-party libraries they call, as a record of functions
  (\<open>nlohmann::json\<close>, \<open>curl_easy_escape\<close>); the world they work in, with the answers of the
  servers still to come; synchronous requests; and the states of the clouds.
\<close>

subsection \<open>Third-party functions\<close>

text \<open>
  The operations of \<open>nlohmann::json\<close> that the sources use; those that may throw return a sum.
  \<open>js_at\<close> and \<open>js_elem\<close> are the two operators \<open>[]\<close>, \<open>js_elems\<close> is iteration, \<open>js_is\<close> the
  comparison with a text, \<open>js_get_*\<close> the conversions, \<open>js_value_*\<close> is \<open>value(key, default)\<close>.
  \<open>js_set\<close> is the assignment to a member, \<open>js_read\<close> the operator \<open>>>\<close> on a stream.
\<close>

record 'j lib =
  js_parse :: "string \<Rightarrow> 'j res"
  js_read :: "string \<Rightarrow> 'j res"
  js_dump :: "'j \<Rightarrow> string res"
  js_text :: "string \<Rightarrow> 'j"
  js_flag :: "bool \<Rightarrow> 'j"
  js_list :: "'j list \<Rightarrow> 'j"
  js_object :: "(string \<times> 'j) list \<Rightarrow> 'j"
  js_null :: 'j
  js_contains :: "'j \<Rightarrow> string \<Rightarrow> bool"
  js_empty :: "'j \<Rightarrow> bool"
  js_at :: "'j \<Rightarrow> string \<Rightarrow> 'j res"
  js_set :: "'j \<Rightarrow> string \<Rightarrow> 'j \<Rightarrow> 'j res"
  js_elem :: "'j \<Rightarrow> nat \<Rightarrow> 'j res"
  js_elems :: "'j \<Rightarrow> 'j list"
  js_is :: "'j \<Rightarrow> string \<Rightarrow> bool"
  js_get_text :: "'j \<Rightarrow> string res"
  js_get_int :: "'j \<Rightarrow> int res"
  js_value_text :: "'j \<Rightarrow> string \<Rightarrow> string \<Rightarrow> string res"
  js_value_flag :: "'j \<Rightarrow> string \<Rightarrow> bool \<Rightarrow> bool res"
  js_value_u64 :: "'j \<Rightarrow> string \<Rightarrow> u64 \<Rightarrow> u64 res"
  js_value_json :: "'j \<Rightarrow> string \<Rightarrow> 'j \<Rightarrow> 'j res"
  url_escape :: "string \<Rightarrow> string"

text \<open>\<open>j[key].get<std::string>()\<close>.\<close>

definition js_text_at :: "'j lib \<Rightarrow> 'j \<Rightarrow> string \<Rightarrow> string res" where
  "js_text_at J j k = res_bind (js_at J j k) (js_get_text J)"

subsection \<open>The states of the clouds\<close>

record 'j google =
  gd_local_home :: path
  gd_home :: path
  gd_client_id :: string
  gd_client_secret :: string
  gd_refresh_token :: string
  gd_access_token :: string
  gd_home_dir_id :: string
  gd_page_token :: string
  gd_api_base :: string
  gd_auth_base :: string
  gd_acc_base :: string
  gd_events :: "'j list ts_queue"
  gd_expected :: registry
  gd_on_change :: bool
  gd_expires :: int
  gd_id :: int

record dropbox =
  dx_home :: path
  dx_local_home :: path
  dx_client_id :: string
  dx_client_secret :: string
  dx_refresh_token :: string
  dx_access_token :: string
  dx_page_token :: string
  dx_events :: "string list ts_queue"
  dx_expected :: registry
  dx_on_change :: bool
  dx_expires :: int
  dx_id :: int

text \<open>
  The objects behind \<open>_clouds\<close> are addressed by cloud id. \<open>w_answers\<close>: what the servers will
  answer, \<open>w_requests\<close>: how many answers have been used. \<open>w_clock\<close> is the system clock.
\<close>

record 'j csys = ssys +
  w_answers :: "nat \<Rightarrow> answer"
  w_requests :: nat
  w_clock :: int
  w_google :: "int \<Rightarrow> 'j google"
  w_dropbox :: "int \<Rightarrow> dropbox"

definition upd_google :: "int \<Rightarrow> ('j google \<Rightarrow> 'j google) \<Rightarrow> (('j, 's) csys_scheme, unit) act" where
  "upd_google i g = modify (\<lambda>w. w\<lparr>w_google := (w_google w)(i := g (w_google w i))\<rparr>)"

definition upd_dropbox :: "int \<Rightarrow> (dropbox \<Rightarrow> dropbox) \<Rightarrow> (('j, 's) csys_scheme, unit) act" where
  "upd_dropbox i g = modify (\<lambda>w. w\<lparr>w_dropbox := (w_dropbox w)(i := g (w_dropbox w i))\<rparr>)"

subsection \<open>Requests\<close>

text \<open>\<open>HttpClient::get().syncRequest(handle)\<close> takes the next answers.\<close>

definition http_sync :: "handle \<Rightarrow> (('j, 's) csys_scheme, handle) act" where
  "http_sync h w =
     (let (r, h1, n) = syncRequest (\<lambda>i. w_answers w (w_requests w + i)) h
      in (case r of Inl e \<Rightarrow> Inl e | Inr _ \<Rightarrow> Inr h1, w\<lparr>w_requests := w_requests w + n\<rparr>))"

definition clear_response :: "handle \<Rightarrow> handle" where
  "clear_response h = h\<lparr>h_response := []\<rparr>"

definition set_mime :: "mime_part list \<Rightarrow> handle \<Rightarrow> handle" where
  "set_mime ps h = setopt (MimePost ps) (h\<lparr>h_mime := True\<rparr>)"

text \<open>\<open>handle->setFileStream\<close> with the file system of the world.\<close>

definition open_stream :: "path \<Rightarrow> open_mode \<Rightarrow> handle \<Rightarrow> ('s sys_scheme, handle) act" where
  "open_stream p m h w =
     (case m of
        ModeIn \<Rightarrow> (setFileStream p ModeIn (fs_read (w_fs w) p) h, w)
      | ModeOut \<Rightarrow> (let (r, f) = fs_open_out p (w_fs w)
                    in (setFileStream p ModeOut r h, w\<lparr>w_fs := f\<rparr>)))"

text \<open>A request whose answer is parsed.\<close>

definition ask :: "'j lib \<Rightarrow> handle \<Rightarrow> (('j, 's) csys_scheme, handle \<times> 'j) act" where
  "ask J h = andThen (http_sync h) (\<lambda>h1. andThen (lift_res (js_parse J (h_response h1))) (\<lambda>j. ret (h1, j)))"

text \<open>A new change of the factory.\<close>

definition new_change :: "(int list \<Rightarrow> heap \<Rightarrow> nat \<times> heap) \<Rightarrow> ('s lsys_scheme, nat) act" where
  "new_change mk w = (let (a, hp) = mk (factory_clouds w) (w_heap w) in (Inr a, w\<lparr>w_heap := hp\<rparr>))"

text \<open>The temporary file of a download.\<close>

definition download_tmp :: "path \<Rightarrow> path \<Rightarrow> path" where
  "download_tmp home rel =
     path_div (path_div home (parent_path rel)) (path_of_string (tmp_prefix @ filename rel))"

subsection \<open>Judging reports\<close>

text \<open>The four questions both clouds ask about a reported file.\<close>

record needs =
  nd_new :: bool
  nd_del :: bool
  nd_move :: bool
  nd_update :: bool

text \<open>A check against the expectations, made only when it is needed.\<close>

definition check_if :: "bool \<Rightarrow> string \<Rightarrow> change_type \<Rightarrow> registry \<Rightarrow> bool \<times> registry" where
  "check_if need k ct m = (if need then prev_check k ct m else (False, m))"

definition json_time :: "'j lib \<Rightarrow> 'j \<Rightarrow> string \<Rightarrow> int res" where
  "json_time J j k = res_bind (js_text_at J j k) (\<lambda>t. Inr (convertCloudTime t))"

end
