(* ===== verification/GoogleDrive.thy ===== *)
theory GoogleDrive
  imports CloudSys
begin

text \<open>
  \<open>src/google.cpp\<close>: Google Drive as a storage. Requests of commands (\<open>setup*Handle\<close>), their
  answers (\<open>procces*\<close>), authorisation, folders, the initial listing, and the two halves of
  polling: \<open>getChanges\<close> fetches pages, \<open>proccessChanges\<close> turns them into changes. The loops
  whose end the server decides have a number of turns as fuel.
\<close>

subsection \<open>Small parts\<close>

abbreviation folder_mime :: string where
  "folder_mime \<equiv> ''application/vnd.google-apps.folder''"

definition gd_bearer :: "'j google \<Rightarrow> string" where
  "gd_bearer g = ''Authorization: Bearer '' @ gd_access_token g"

definition gd_expect :: "int \<Rightarrow> string \<Rightarrow> change_type \<Rightarrow> (('j, 's) csys_scheme, unit) act" where
  "gd_expect i k ct = upd_google i (\<lambda>g. g\<lparr>gd_expected := reg_add k ct (gd_expected g)\<rparr>)"

definition gd_expect_path :: "int \<Rightarrow> path \<Rightarrow> change_type \<Rightarrow> (('j, 's) csys_scheme, unit) act" where
  "gd_expect_path i p ct = upd_google i (\<lambda>g. g\<lparr>gd_expected := reg_add_path p ct (gd_expected g)\<rparr>)"

record mime_info =
  cloud_mime_type :: string
  export_mime_type :: string

definition getGoogleDocMimeByExtension :: "path \<Rightarrow> mime_info option" where
  "getGoogleDocMimeByExtension p =
     (let ext = extension p
      in if ext \<in> {''.docx'', ''.doc'', ''.odt'', ''.rtf'', ''.txt''}
         then Some \<lparr>cloud_mime_type = ''application/vnd.google-apps.document'',
                    export_mime_type = ''application/vnd.openxmlformats-officedocument.wordprocessingml.document''\<rparr>
         else if ext \<in> {''.xlsx'', ''.xls'', ''.ods'', ''.csv'', ''.tsv''}
         then Some \<lparr>cloud_mime_type = ''application/vnd.google-apps.spreadsheet'',
                    export_mime_type = ''application/vnd.openxmlformats-officedocument.spreadsheetml.sheet''\<rparr>
         else if ext \<in> {''.pptx'', ''.ppt'', ''.odp''}
         then Some \<lparr>cloud_mime_type = ''application/vnd.google-apps.presentation'',
                    export_mime_type = ''application/vnd.openxmlformats-officedocument.presentationml.presentation''\<rparr>
         else None)"

definition google_type :: "'j lib \<Rightarrow> 'j \<Rightarrow> entry_type res" where
  "google_type J f =
     res_bind (js_at J f ''mimeType'')
       (\<lambda>m. res_bind (js_get_text J m)
       (\<lambda>t. Inr (if js_is J m folder_mime then Directory
                 else if starts_with ''application/vnd.google-apps.'' t then Document else File)))"

subsection \<open>Authorisation\<close>

definition gd_proccessAuth :: "'j lib \<Rightarrow> int \<Rightarrow> string \<Rightarrow> (('j, 's) csys_scheme, unit) act" where
  "gd_proccessAuth J i response =
     andThen (lift_res (js_parse J response))
       (\<lambda>j. andThen (lift_res (js_text_at J j ''access_token''))
       (\<lambda>t. andThen (upd_google i (\<lambda>g. g\<lparr>gd_access_token := t\<rparr>))
       (\<lambda>_. andThen (if js_contains J j ''refresh_token''
                      then andThen (lift_res (js_text_at J j ''refresh_token''))
                             (\<lambda>r. upd_google i (\<lambda>g. g\<lparr>gd_refresh_token := r\<rparr>))
                      else ret ())
       (\<lambda>_. andThen (lift_res (res_bind (js_at J j ''expires_in'') (js_get_int J)))
       (\<lambda>n. andThen (query w_clock)
       (\<lambda>now. upd_google i (\<lambda>g. g\<lparr>gd_expires := now + n\<rparr>)))))))"

definition gd_refreshAccessToken :: "'j lib \<Rightarrow> int \<Rightarrow> (('j, 's) csys_scheme, unit) act" where
  "gd_refreshAccessToken J i w =
     (let g = w_google w i;
          post = ''client_id='' @ gd_client_id g @ ''&client_secret='' @ gd_client_secret g @
                 ''&refresh_token='' @ gd_refresh_token g @ ''&grant_type=refresh_token'';
          h = setCommonCURLOpt (setopt (Post True) (setopt (PostFields (c_str post))
                (setopt (Url (c_str (gd_auth_base g @ ''/token''))) (w_h0 w))))
      in andThen (http_sync h) (\<lambda>h1. gd_proccessAuth J i (h_response h1)) w)"

definition gd_getRefreshToken :: "'j lib \<Rightarrow> int \<Rightarrow> string \<Rightarrow> int \<Rightarrow> (('j, 's) csys_scheme, string) act" where
  "gd_getRefreshToken J i code local_port w =
     (let g = w_google w i;
          post = ''code='' @ code @ ''&client_id='' @ gd_client_id g @ ''&client_secret='' @ gd_client_secret g @
                 ''&redirect_uri=http://localhost:'' @ int_string local_port @ ''/oauth2callback'' @
                 ''&grant_type=authorization_code'';
          h = setCommonCURLOpt (setopt (Post True) (setopt (PostFields (c_str post))
                (setopt (Url (c_str (gd_auth_base g @ ''/token''))) (w_h0 w))))
      in andThen (http_sync h)
           (\<lambda>h1. andThen (gd_proccessAuth J i (h_response h1))
           (\<lambda>_. query (\<lambda>w. gd_refresh_token (w_google w i)))) w)"

definition gd_buildAuthURL :: "'j lib \<Rightarrow> 'j google \<Rightarrow> int \<Rightarrow> string" where
  "gd_buildAuthURL J g local_port =
     gd_acc_base g @ ''/o/oauth2/v2/auth?'' @ ''client_id='' @ gd_client_id g @
     ''&redirect_uri='' @ url_escape J (c_str (''http://localhost:'' @ int_string local_port @ ''/oauth2callback'')) @
     ''&response_type=code'' @ ''&scope='' @ url_escape J (c_str (gd_api_base g @ ''/auth/drive'')) @
     ''&access_type=offline'' @ ''&prompt=consent''"

subsection \<open>Requests of the commands\<close>

definition gd_setupUpdateHandle :: "int \<Rightarrow> file_updated_dto \<Rightarrow> handle \<Rightarrow> (('j, 's) csys_scheme, handle) act" where
  "gd_setupUpdateHandle i dto h w =
     (let g = w_google w i;
          url = gd_api_base g @ ''/upload/drive/v3/files/'' @ fu_cloud_file_id dto @
                ''?uploadType=media&fields=id,modifiedTime,md5Checksum,parents,size'';
          h1 = setopt (Upload True) (setopt (CustomRequest ''PATCH'') (setopt (Url (c_str url)) h))
      in andThen (open_stream (path_div (gd_local_home g) (fu_rel_path dto)) ModeIn h1)
           (\<lambda>h2. andThen (gd_expect i (fu_cloud_file_id dto) Update)
           (\<lambda>_. ret (setCommonCURLOpt (addHeaders ''Content-Type: application/octet-stream''
                      (addHeaders (gd_bearer g) h2))))) w)"

definition gd_setupMoveHandle :: "'j lib \<Rightarrow> int \<Rightarrow> file_moved_dto \<Rightarrow> handle \<Rightarrow> (('j, 's) csys_scheme, handle) act" where
  "gd_setupMoveHandle J i dto h w =
     (let g = w_google w i;
          parent_changed = (fm_new_cloud_parent_id dto \<noteq> [] \<and> fm_new_cloud_parent_id dto \<noteq> fm_old_cloud_parent_id dto);
          url = gd_api_base g @ ''/drive/v3/files/'' @ fm_cloud_file_id dto @
                (if parent_changed then ''?addParents='' @ fm_new_cloud_parent_id dto @
                                        ''&removeParents='' @ fm_old_cloud_parent_id dto else []) @
                (if parent_changed then ''&'' else ''?'') @
                ''fields=id,name,parents,modifiedTime,md5Checksum,size'';
          h1 = setopt (CustomRequest ''PATCH'') (setopt (Url (c_str url)) h);
          renamed = (filename (fm_old_rel_path dto) \<noteq> filename (fm_new_rel_path dto));
          body = (if renamed then js_object J [(''name'', js_text J (filename (fm_new_rel_path dto)))] else js_null J)
      in andThen (lift_res (js_dump J body))
           (\<lambda>s. andThen (gd_expect i (fm_cloud_file_id dto) Move)
           (\<lambda>_. ret (setCommonCURLOpt (addHeaders (gd_bearer g)
                      (if renamed then addHeaders ''Content-Type: application/json'' (setopt (CopyPostFields (c_str s)) h1)
                       else h1))))) w)"

definition gd_setupDeleteHandle :: "'j lib \<Rightarrow> int \<Rightarrow> file_deleted_dto \<Rightarrow> handle \<Rightarrow> (('j, 's) csys_scheme, handle) act" where
  "gd_setupDeleteHandle J i dto h w =
     (let g = w_google w i;
          h1 = setopt (CustomRequest ''PATCH'')
                 (setopt (Url (c_str (gd_api_base g @ ''/drive/v3/files/'' @ fd_cloud_file_id dto))) h)
      in andThen (lift_res (js_dump J (js_object J [(''trashed'', js_flag J True)])))
           (\<lambda>s. andThen (gd_expect i (fd_cloud_file_id dto) Delete)
           (\<lambda>_. ret (setCommonCURLOpt (addHeaders (gd_bearer g) (addHeaders ''Content-Type: application/json''
                      (setopt (CopyPostFields (c_str s)) h1)))))) w)"

text \<open>The folder an upload goes to: the one of the data, the home folder, or the one of the parent path.\<close>

definition gd_upload_parent :: "int \<Rightarrow> file_record_dto \<Rightarrow> (('j, 's) csys_scheme, string) act" where
  "gd_upload_parent i dto w =
     (let g = w_google w i
      in if fr_cloud_parent_id dto \<noteq> [] then ret (fr_cloud_parent_id dto) w
         else if path_empty (parent_path (fr_rel_path dto)) then ret (gd_home_dir_id g) w
         else db_call2 (\<lambda>rc1 rc2. getCloudFileIdByPath rc1 rc2 (parent_path (fr_rel_path dto)) (gd_id g)) w)"

definition gd_setupUploadHandle :: "'j lib \<Rightarrow> int \<Rightarrow> file_record_dto \<Rightarrow> handle \<Rightarrow> (('j, 's) csys_scheme, handle) act" where
  "gd_setupUploadHandle J i dto h w =
     (let g = w_google w i;
          mime = (if fr_type dto = Document then getGoogleDocMimeByExtension (fr_rel_path dto) else None);
          content_mime = (case mime of Some m \<Rightarrow> export_mime_type m | None \<Rightarrow> ''application/octet-stream'')
      in andThen (gd_upload_parent i dto)
           (\<lambda>parent_id. andThen (lift_res (js_dump J (js_object J
                ([(''name'', js_text J (filename (fr_rel_path dto))), (''parents'', js_list J [js_text J parent_id])] @
                 (case mime of Some m \<Rightarrow> [(''mimeType'', js_text J (cloud_mime_type m))] | None \<Rightarrow> [])))))
           (\<lambda>metadata. andThen (gd_expect_path i (fr_rel_path dto) New)
           (\<lambda>_. ret (setCommonCURLOpt (setopt (Url (c_str (gd_api_base g @
                     ''/upload/drive/v3/files?uploadType=multipart&fields=id,modifiedTime,md5Checksum,parents'')))
                  (set_mime
                     [MimeData ''metadata'' (c_str metadata) ''application/json; charset=UTF-8'',
                      MimeFile ''media'' (c_str (path_string (gd_local_home g) @ ''/'' @ path_string (fr_rel_path dto))) content_mime]
                     (addHeaders (gd_bearer g) h))))))) w)"

text \<open>Both overloads of \<open>setupDownloadHandle\<close>, which use the same three fields.\<close>

definition gd_setupDownload ::
  "'j lib \<Rightarrow> int \<Rightarrow> entry_type \<Rightarrow> path \<Rightarrow> string \<Rightarrow> handle \<Rightarrow> (('j, 's) csys_scheme, handle) act" where
  "gd_setupDownload J i t rel cfid h w =
     (let g = w_google w i;
          export_mime = (case getGoogleDocMimeByExtension rel of
             Some m \<Rightarrow> export_mime_type m
           | None \<Rightarrow> ''application/vnd.openxmlformats-officedocument.wordprocessingml.document'');
          url = gd_api_base g @ ''/drive/v3/files/'' @ cfid @
                (if t = Document then ''/export?mimeType='' @ url_escape J export_mime else ''?alt=media'')
      in open_stream (download_tmp (gd_local_home g) rel) ModeOut
           (setCommonCURLOpt (setopt (Url (c_str url)) (addHeaders (gd_bearer g) h))) w)"

definition gd_setupDownload_record :: "'j lib \<Rightarrow> int \<Rightarrow> file_record_dto \<Rightarrow> handle \<Rightarrow> (('j, 's) csys_scheme, handle) act" where
  "gd_setupDownload_record J i dto = gd_setupDownload J i (fr_type dto) (fr_rel_path dto) (fr_cloud_file_id dto)"

definition gd_setupDownload_updated :: "'j lib \<Rightarrow> int \<Rightarrow> file_updated_dto \<Rightarrow> handle \<Rightarrow> (('j, 's) csys_scheme, handle) act" where
  "gd_setupDownload_updated J i dto = gd_setupDownload J i (fu_type dto) (fu_rel_path dto) (fu_cloud_file_id dto)"

subsection \<open>Answers to the commands\<close>

definition first_parent :: "'j lib \<Rightarrow> 'j \<Rightarrow> string res" where
  "first_parent J j = res_bind (js_at J j ''parents'') (\<lambda>ps. res_bind (js_elem J ps 0) (js_get_text J))"

definition gd_proccesUpload :: "'j lib \<Rightarrow> int \<Rightarrow> file_record_dto \<Rightarrow> string \<Rightarrow> (('j, 's) csys_scheme, file_record_dto) act" where
  "gd_proccesUpload J i dto response w =
     (let g = w_google w i
      in andThen (lift_res (js_parse J response))
           (\<lambda>j. andThen (lift_res (json_time J j ''modifiedTime''))
           (\<lambda>mt. andThen (lift_res (first_parent J j))
           (\<lambda>pid. andThen (lift_res (js_text_at J j ''id''))
           (\<lambda>fid. andThen (if js_contains J j ''size'' then lift_res (res_bind (js_text_at J j ''size'') stoull)
                            else ret (fr_size dto))
           (\<lambda>sz. andThen (if js_contains J j ''md5Checksum'' then lift_res (js_text_at J j ''md5Checksum'') else ret [])
           (\<lambda>hash. ret (dto\<lparr>fr_mtime := mt, fr_cloud_id := gd_id g, fr_cloud_parent_id := pid,
                             fr_cloud_file_id := fid, fr_size := sz, fr_hash := HashStr hash\<rparr>))))))) w)"

definition gd_proccesMove :: "'j lib \<Rightarrow> int \<Rightarrow> file_moved_dto \<Rightarrow> string \<Rightarrow> (('j, 's) csys_scheme, file_moved_dto) act" where
  "gd_proccesMove J i dto response w =
     (let g = w_google w i
      in andThen (lift_res (js_parse J response))
           (\<lambda>j. andThen (lift_res (json_time J j ''modifiedTime''))
           (\<lambda>mt. andThen (lift_res (first_parent J j))
           (\<lambda>pid. ret (dto\<lparr>fm_mtime := mt, fm_cloud_id := gd_id g, fm_new_cloud_parent_id := pid\<rparr>)))) w)"

definition gd_proccesUpdate :: "'j lib \<Rightarrow> file_updated_dto \<Rightarrow> string \<Rightarrow> (('j, 's) csys_scheme, file_updated_dto) act" where
  "gd_proccesUpdate J dto response =
     andThen (lift_res (js_parse J response))
       (\<lambda>j. andThen (lift_res (json_time J j ''modifiedTime''))
       (\<lambda>mt. andThen (if js_contains J j ''md5Checksum'' then lift_res (js_text_at J j ''md5Checksum'') else ret [])
       (\<lambda>hash. andThen (if js_contains J j ''size'' then lift_res (res_bind (js_text_at J j ''size'') stoull)
                         else ret (fu_size dto))
       (\<lambda>sz. ret (dto\<lparr>fu_mtime := mt, fu_hash := HashStr hash, fu_size := sz\<rparr>)))))"

definition gd_proccesDelete :: "file_deleted_dto \<Rightarrow> string \<Rightarrow> (('j, 's) csys_scheme, unit) act" where
  "gd_proccesDelete dto response = ret ()"

definition gd_ignoreTmp :: "string \<Rightarrow> bool" where
  "gd_ignoreTmp name \<longleftrightarrow> length tmp_prefix \<le> length name \<and> starts_with tmp_prefix name"

subsection \<open>Folders\<close>

abbreviation quote :: string where
  "quote \<equiv> [CHR 0x27]"

text \<open>The search for a folder by name and parent; the query is escaped as a C string.\<close>

definition gd_folder_query :: "string \<Rightarrow> string \<Rightarrow> string" where
  "gd_folder_query name parent_id =
     ''name='' @ quote @ name @ quote @ '' and mimeType='' @ quote @ folder_mime @ quote @
     '' and '' @ quote @ parent_id @ quote @ '' in parents and trashed=false''"

definition gd_find_folder ::
  "'j lib \<Rightarrow> 'j google \<Rightarrow> string \<Rightarrow> string \<Rightarrow> handle \<Rightarrow> (('j, 's) csys_scheme, handle \<times> 'j option) act" where
  "gd_find_folder J g escaped flds h =
     (let url = gd_api_base g @ ''/drive/v3/files'' @ ''?q='' @ escaped @ flds
      in andThen (ask J (clear_response (setopt (Url (c_str url)) (setopt (HttpGet True) h))))
           (\<lambda>(h1, j). if js_contains J j ''files''
              then andThen (lift_res (js_at J j ''files''))
                     (\<lambda>fs. if js_empty J fs then ret (h1, None)
                            else andThen (lift_res (js_elem J fs 0)) (\<lambda>f. ret (h1, Some f)))
              else ret (h1, None)))"

definition gd_folder_body :: "'j lib \<Rightarrow> string \<Rightarrow> string \<Rightarrow> 'j" where
  "gd_folder_body J name parent_id =
     js_object J [(''name'', js_text J name), (''mimeType'', js_text J folder_mime),
                  (''parents'', js_list J [js_text J parent_id])]"

text \<open>
  The loop of \<open>createPath\<close>. A missing element is looked for until the first one that has to
  be made; from then on every element is made. The handle is used again.
\<close>

definition gd_make_folder ::
  "'j lib \<Rightarrow> int \<Rightarrow> string \<Rightarrow> path \<Rightarrow> string \<Rightarrow> handle \<Rightarrow> (('j, 's) csys_scheme, handle \<times> file_record_dto) act" where
  "gd_make_folder J i seg accum parent_id h w =
     (let g = w_google w i;
          h1 = addHeaders ''Accept: application/json'' (addHeaders ''Content-Type: application/json; charset=UTF-8''
                 (addHeaders (gd_bearer g) (clearHeaders h)))
      in andThen (lift_res (js_dump J (gd_folder_body J seg parent_id)))
           (\<lambda>payload. andThen (gd_expect_path i accum New)
           (\<lambda>_. andThen (ask J (clear_response (setCommonCURLOpt (setopt (PostFields (c_str payload))
                    (setopt (Url (c_str (gd_api_base g @ ''/drive/v3/files?fields=id,modifiedTime'')))
                    (setopt (Post True) (setopt (HttpGet False) h1)))))))
           (\<lambda>(h2, j). andThen (lift_res (js_text_at J j ''id''))
           (\<lambda>fid. andThen (lift_res (json_time J j ''modifiedTime''))
           (\<lambda>mt. ret (h2, record_google_new Directory parent_id accum fid 0 mt [] (gd_id g))))))) w)"

fun gd_create_loop ::
  "'j lib \<Rightarrow> int \<Rightarrow> bool \<Rightarrow> path \<Rightarrow> string \<Rightarrow> handle \<Rightarrow> string list \<Rightarrow> (('j, 's) csys_scheme, file_record_dto list) act" where
  "gd_create_loop J i creating accum parent_id h [] w = ret [] w"
| "gd_create_loop J i creating accum parent_id h (seg # rest) w =
     (let g = w_google w i;
          accum1 = path_div accum \<lparr>rooted = False, segs = [seg]\<rparr>;
          make = (\<lambda>h. andThen (gd_make_folder J i seg accum1 parent_id h)
                   (\<lambda>(h1, d). andThen (gd_create_loop J i True accum1 (fr_cloud_file_id d) h1 rest)
                   (\<lambda>ds. ret (d # ds))))
      in if creating then make h w
         else andThen (gd_find_folder J g (url_escape J (c_str (gd_folder_query seg parent_id)))
                         ''&fields=files(id,name,mimeType,modifiedTime)'' h)
           (\<lambda>(h1, found). case found of
              None \<Rightarrow> make h1
            | Some f \<Rightarrow>
                andThen (lift_res (js_text_at J f ''id''))
                  (\<lambda>fid. andThen (lift_res (json_time J f ''modifiedTime''))
                  (\<lambda>mt. andThen (gd_create_loop J i False accum1 fid h1 rest)
                  (\<lambda>ds. ret (record_google_new Directory parent_id accum1 fid 0 mt [] (gd_id g) # ds))))) w)"

definition gd_createPath :: "'j lib \<Rightarrow> int \<Rightarrow> path \<Rightarrow> path \<Rightarrow> (('j, 's) csys_scheme, file_record_dto list) act" where
  "gd_createPath J i p missing w =
     (let g = w_google w i; prefix = path_prefix (normalizePath p) missing;
          h = setCommonCURLOpt (addHeaders ''Accept: application/json'' (addHeaders (gd_bearer g) (w_h0 w)))
      in andThen (if path_empty prefix then ret (gd_home_dir_id g)
                  else db_call2 (\<lambda>rc1 rc2. getCloudFileIdByPath rc1 rc2 prefix (gd_id g)))
           (\<lambda>parent_id. gd_create_loop J i False prefix parent_id h (segs missing)) w)"

text \<open>\<open>ensureRootExists\<close>: the same search along the home path, without records.\<close>

definition gd_make_root ::
  "'j lib \<Rightarrow> 'j google \<Rightarrow> string \<Rightarrow> string \<Rightarrow> handle \<Rightarrow> (('j, 's) csys_scheme, handle \<times> string) act" where
  "gd_make_root J g name parent_id h =
     andThen (lift_res (js_dump J (gd_folder_body J name parent_id)))
       (\<lambda>payload. let h1 = clear_response (setopt (PostFields (c_str payload))
                       (setopt (Url (c_str (gd_api_base g @ ''/drive/v3/files'')))
                       (setopt (Post True) (setopt (HttpGet False) (clearHeaders h)))));
                      h2 = addHeaders ''Content-Type: application/json; charset=UTF-8'' (addHeaders (gd_bearer g) h1)
          in andThen (ask J (setopt (HttpHeader (h_headers h2)) h2))
               (\<lambda>(h3, j). andThen (lift_res (js_text_at J j ''id'')) (\<lambda>fid. ret (h3, fid))))"

fun gd_root_loop ::
  "'j lib \<Rightarrow> 'j google \<Rightarrow> bool \<Rightarrow> string \<Rightarrow> handle \<Rightarrow> string list \<Rightarrow> (('j, 's) csys_scheme, string) act" where
  "gd_root_loop J g found_all parent_id h [] = ret parent_id"
| "gd_root_loop J g found_all parent_id h (name # rest) =
     (let make = (\<lambda>h. andThen (gd_make_root J g name parent_id h)
                   (\<lambda>(h1, fid). gd_root_loop J g False fid h1 rest))
      in if \<not> found_all then make h
         else andThen (gd_find_folder J g (url_escape J (gd_folder_query name parent_id)) ''&fields=files(id)'' h)
           (\<lambda>(h1, found). case found of
              None \<Rightarrow> make h1
            | Some f \<Rightarrow> andThen (lift_res (js_text_at J f ''id''))
                          (\<lambda>fid. gd_root_loop J g True fid h1 rest)))"

definition gd_ensureRootExists :: "'j lib \<Rightarrow> int \<Rightarrow> (('j, 's) csys_scheme, unit) act" where
  "gd_ensureRootExists J i w =
     (let g = w_google w i
      in andThen (gd_root_loop J g True ''root''
                    (setCommonCURLOpt (setopt (HttpGet True) (addHeaders (gd_bearer g) (w_h0 w))))
                    (segs (normalizePath (gd_home g))))
           (\<lambda>fid. upd_google i (\<lambda>g. g\<lparr>gd_home_dir_id := fid\<rparr>)) w)"

subsection \<open>Constructors\<close>

text \<open>
  The members as every constructor initialises them (\<open>_access_token_expires\<close>, which has no
  initialiser, as 0); three of the four constructors take a refresh token, two a page token.
  Two of them go on to connect.
\<close>

definition google_new :: "string \<Rightarrow> string \<Rightarrow> string \<Rightarrow> path \<Rightarrow> path \<Rightarrow> int \<Rightarrow> string \<Rightarrow> 'j google" where
  "google_new client_id client_secret refresh_token home local_home cloud_id page_token =
     \<lparr>gd_local_home = local_home, gd_home = home, gd_client_id = client_id, gd_client_secret = client_secret,
      gd_refresh_token = refresh_token, gd_access_token = [], gd_home_dir_id = [], gd_page_token = page_token,
      gd_api_base = ''https://www.googleapis.com'', gd_auth_base = ''https://oauth2.googleapis.com'',
      gd_acc_base = ''https://accounts.google.com'', gd_events = q_new, gd_expected = Map.empty,
      gd_on_change = False, gd_expires = 0, gd_id = cloud_id\<rparr>"

text \<open>The constructor for tests does not connect; the servers are then replaced by one of its own.\<close>

definition google_test :: "string \<Rightarrow> string \<Rightarrow> string \<Rightarrow> path \<Rightarrow> path \<Rightarrow> int \<Rightarrow> string \<Rightarrow> bool \<Rightarrow> 'j google" where
  "google_test client_id client_secret refresh_token home local_home cloud_id page_token test =
     google_new client_id client_secret refresh_token home local_home cloud_id page_token"

definition setTestApiBaseUrl :: "string \<Rightarrow> 'j google \<Rightarrow> 'j google" where
  "setTestApiBaseUrl url g = g\<lparr>gd_api_base := url, gd_auth_base := url, gd_acc_base := url\<rparr>"

definition gd_connect :: "'j lib \<Rightarrow> int \<Rightarrow> 'j google \<Rightarrow> (('j, 's) csys_scheme, unit) act" where
  "gd_connect J i g =
     andThen (upd_google i (\<lambda>_. g)) (\<lambda>_. andThen (gd_refreshAccessToken J i) (\<lambda>_. gd_ensureRootExists J i))"

subsection \<open>The initial listing\<close>

definition gd_entry :: "'j lib \<Rightarrow> 'j google \<Rightarrow> string \<Rightarrow> path \<Rightarrow> 'j \<Rightarrow> file_record_dto res" where
  "gd_entry J g parent_id rel f =
     res_bind (google_type J f)
       (\<lambda>t. res_bind (js_text_at J f ''id'')
       (\<lambda>fid. res_bind (js_text_at J f ''name'')
       (\<lambda>name. res_bind (if t \<noteq> Directory \<and> js_contains J f ''size''
                          then res_bind (js_text_at J f ''size'') stoull else Inr 0)
       (\<lambda>sz. res_bind (json_time J f ''modifiedTime'')
       (\<lambda>mt. res_bind (js_value_text J f ''md5Checksum'' [])
       (\<lambda>hash. Inr (record_google_new t parent_id (path_div rel (path_of_string name)) fid sz mt hash (gd_id g))))))))"

definition gd_page_url :: "'j google \<Rightarrow> string \<Rightarrow> string \<Rightarrow> string" where
  "gd_page_url g parent_id token =
     gd_api_base g @ ''/drive/v3/files'' @ ''?q='' @ ''%27'' @ parent_id @ ''%27%20in%20parents%20and%20trashed%3Dfalse'' @
     ''&fields=nextPageToken,files(id,name,mimeType,modifiedTime,size,md5Checksum,parents)'' @ ''&pageSize=1000'' @
     (if token \<noteq> [] then ''&pageToken='' @ token else [])"

text \<open>The pages of one folder, then the queue of folders; both with a number of turns.\<close>

fun gd_pages ::
  "nat \<Rightarrow> 'j lib \<Rightarrow> 'j google \<Rightarrow> string \<Rightarrow> path \<Rightarrow> string \<Rightarrow> handle \<Rightarrow> (('j, 's) csys_scheme, handle \<times> file_record_dto list) act" where
  "gd_pages 0 J g parent_id rel token h = throw Diverges"
| "gd_pages (Suc n) J g parent_id rel token h =
     andThen (ask J (clear_response (setopt (Url (c_str (gd_page_url g parent_id token))) h)))
       (\<lambda>(h1, rsp). andThen (lift_res (js_at J rsp ''files''))
       (\<lambda>files. andThen (for_each (\<lambda>f. lift_res (gd_entry J g parent_id rel f)) (js_elems J files))
       (\<lambda>ds. andThen (lift_res (js_value_text J rsp ''nextPageToken'' []))
       (\<lambda>next. if next = [] then ret (h1, ds)
                else andThen (gd_pages n J g parent_id rel next h1) (\<lambda>(h2, ds2). ret (h2, ds @ ds2))))))"

fun gd_scan ::
  "nat \<Rightarrow> 'j lib \<Rightarrow> 'j google \<Rightarrow> (string \<times> path) list \<Rightarrow> handle \<Rightarrow> (('j, 's) csys_scheme, file_record_dto list) act" where
  "gd_scan n J g [] h = ret []"
| "gd_scan 0 J g (d # ds) h = throw Diverges"
| "gd_scan (Suc n) J g ((parent_id, rel) # ds) h =
     andThen (gd_pages n J g parent_id rel [] h)
       (\<lambda>(h1, es). let sub = map (\<lambda>e. (fr_cloud_file_id e, fr_rel_path e)) (filter (\<lambda>e. fr_type e = Directory) es)
          in andThen (gd_scan n J g (ds @ sub) h1) (\<lambda>r. ret (es @ r)))"

definition gd_initialFiles :: "nat \<Rightarrow> 'j lib \<Rightarrow> int \<Rightarrow> (('j, 's) csys_scheme, file_record_dto list) act" where
  "gd_initialFiles n J i w =
     (let g = w_google w i
      in gd_scan n J g [(gd_home_dir_id g, empty_path)]
           (setCommonCURLOpt (addHeaders ''Accept: application/json'' (addHeaders (gd_bearer g)
              (setopt (HttpGet True) (w_h0 w))))) w)"

text \<open>Google Drive as the storage of commands.\<close>

definition google_ops :: "'j lib \<Rightarrow> int \<Rightarrow> (('j, 's) csys_scheme) storage_ops" where
  "google_ops J i =
     \<lparr>so_setup_upload = gd_setupUploadHandle J i, so_setup_update = gd_setupUpdateHandle i,
      so_setup_download_new = gd_setupDownload_record J i,
      so_setup_download_updated = gd_setupDownload_updated J i,
      so_setup_delete = gd_setupDeleteHandle J i, so_setup_move = gd_setupMoveHandle J i,
      so_proccesUpload = gd_proccesUpload J i, so_proccesUpdate = gd_proccesUpdate J,
      so_proccesDelete = gd_proccesDelete, so_proccesMove = gd_proccesMove J i,
      so_getHomeDir = (\<lambda>w. gd_home_dir_id (w_google w i))\<rparr>"

end
