(* ===== verification/GoogleChanges.thy ===== *)
theory GoogleChanges
  imports GoogleDrive
begin

text \<open>
  Polling of Google Drive (\<open>src/google.cpp\<close>, \<open>getDeltaToken\<close> to \<open>hasChanges\<close>): the pages of
  reported changes, and how a reported file is judged: new, deleted, moved, updated, or the
  echo of a change the program made itself.
\<close>

subsection \<open>Fetching\<close>

definition gd_getDeltaToken :: "'j lib \<Rightarrow> int \<Rightarrow> (('j, 's) csys_scheme, string) act" where
  "gd_getDeltaToken J i w =
     (let g = w_google w i;
          h = setCommonCURLOpt (setopt (Url (c_str (gd_api_base g @ ''/drive/v3/changes/startPageToken'')))
                (addHeaders (gd_bearer g) (w_h0 w)))
      in andThen (ask J h)
           (\<lambda>(h1, j). andThen (lift_res (js_text_at J j ''startPageToken''))
           (\<lambda>t. andThen (upd_google i (\<lambda>g. g\<lparr>gd_page_token := t\<rparr>)) (\<lambda>_. ret t))) w)"

definition gd_changes_url :: "'j google \<Rightarrow> string \<Rightarrow> string" where
  "gd_changes_url g token =
     gd_api_base g @ ''/drive/v3/changes?'' @ ''pageToken='' @ token @ ''&fields=newStartPageToken%2CnextPageToken%2C'' @
     ''changes%28file%28id%2Ctrashed%2Cname%2CmodifiedTime%2CmimeType%2Cparents%2Cmd5Checksum%29%29'' @
     ''&includeItemsFromAllDrives=false'' @ ''&includeRemoved=false'' @ ''&restrictToMyDrive=false'' @
     ''&supportsAllDrives=false''"

text \<open>
  The loop over the pages, with a number of turns. The response of the handle is not cleared
  between turns, and the next token is looked up under a misspelled name, as in the source.
\<close>

fun gd_change_pages ::
  "nat \<Rightarrow> 'j lib \<Rightarrow> 'j google \<Rightarrow> string \<Rightarrow> handle \<Rightarrow> 'j list \<Rightarrow> 'j \<Rightarrow> (('j, 's) csys_scheme, 'j list \<times> 'j) act" where
  "gd_change_pages n J g [] h pages changes = ret (pages, changes)"
| "gd_change_pages 0 J g (c # cs) h pages changes = throw Diverges"
| "gd_change_pages (Suc n) J g (c # cs) h pages changes =
     andThen (ask J (setopt (Url (c_str (gd_changes_url g (c # cs)))) h))
       (\<lambda>(h1, changes1). andThen (lift_res (js_value_text J changes1 ''nexPageToken'' []))
       (\<lambda>next. gd_change_pages n J g next h1 (pages @ [changes1]) changes1))"

definition gd_onChange :: "int \<Rightarrow> (('j, 's) csys_scheme, unit) act" where
  "gd_onChange i w =
     (if gd_on_change (w_google w i) then (Inr (), w\<lparr>ls_signal := True\<rparr>) else (Inl BadFunctionCall, w))"

definition gd_getChanges :: "nat \<Rightarrow> 'j lib \<Rightarrow> int \<Rightarrow> (('j, 's) csys_scheme, unit) act" where
  "gd_getChanges n J i w =
     (let g = w_google w i; h = setCommonCURLOpt (addHeaders (gd_bearer g) (w_h0 w))
      in andThen (gd_change_pages n J g (gd_page_token g) h [] (js_null J))
           (\<lambda>(pages, changes). andThen (lift_res (js_text_at J changes ''newStartPageToken''))
           (\<lambda>t. andThen (upd_google i (\<lambda>g. g\<lparr>gd_page_token := t\<rparr>))
           (\<lambda>_. andThen (lift_res (js_at J changes ''changes''))
           (\<lambda>cs. if js_empty J cs then ret ()
                  else andThen (upd_google i (\<lambda>g. g\<lparr>gd_events := q_push pages (gd_events g)\<rparr>))
                         (\<lambda>_. gd_onChange i))))) w)"

definition gd_hasChanges :: "int \<Rightarrow> ('j, 's) csys_scheme \<Rightarrow> bool" where
  "gd_hasChanges i w \<longleftrightarrow> \<not> q_empty (gd_events (w_google w i))"

definition gd_setOnChange :: "int \<Rightarrow> (('j, 's) csys_scheme, unit) act" where
  "gd_setOnChange i = upd_google i (\<lambda>g. g\<lparr>gd_on_change := True\<rparr>)"

subsection \<open>Reading one reported file\<close>

record report =
  rp_id :: string
  rp_name :: string
  rp_parent :: string
  rp_trashed :: bool
  rp_type :: entry_type
  rp_mtime :: int
  rp_size :: u64

definition gd_read_file :: "'j lib \<Rightarrow> 'j \<Rightarrow> report res" where
  "gd_read_file J f =
     res_bind (js_value_flag J f ''trashed'' False)
       (\<lambda>tr. res_bind (google_type J f)
       (\<lambda>t. res_bind (js_text_at J f ''id'')
       (\<lambda>fid. res_bind (json_time J f ''modifiedTime'')
       (\<lambda>mt. res_bind (js_value_u64 J f ''size'' 0)
       (\<lambda>sz. res_bind (js_value_text J f ''name'' [])
       (\<lambda>name. res_bind (if js_contains J f ''parents'' then first_parent J f else Inr [])
       (\<lambda>pid. Inr \<lparr>rp_id = fid, rp_name = name, rp_parent = pid, rp_trashed = tr, rp_type = t,
                   rp_mtime = mt, rp_size = sz\<rparr>)))))))"

subsection \<open>Where the file is and was\<close>

text \<open>
  A file without a link: \<open>None\<close> when it is skipped, an empty path when its folder is not known
  yet (the source keeps such a file in \<open>maybe_new\<close>, which nothing reads).
\<close>

definition gd_place_new ::
  "'j google \<Rightarrow> (string \<times> path) list \<Rightarrow> report \<Rightarrow> (('j, 's) csys_scheme, path option) act" where
  "gd_place_new g path_map r =
     (if rp_trashed r \<or> rp_parent r = [] then ret None
      else andThen (db_call (\<lambda>rc. getFileByCloudIdAndCloudFileId rc (gd_id g) (rp_parent r)))
        (\<lambda>pl. case pl of
           Some p \<Rightarrow> andThen (db_call (\<lambda>rc. getPathByGlobalId rc (fr_global_id p)))
                       (\<lambda>q. ret (Some (path_div q (path_of_string (rp_name r)))))
         | None \<Rightarrow>
             ret (Some (if rp_parent r = gd_home_dir_id g then path_of_string (rp_name r)
                        else (case map_of path_map (rp_parent r) of
                                Some q \<Rightarrow> path_div q (path_of_string (rp_name r))
                              | None \<Rightarrow> empty_path)))))"

text \<open>A file with a link: its new path and whether it is gone (trashed, or moved out of the home folder).\<close>

definition gd_place_linked ::
  "'j google \<Rightarrow> report \<Rightarrow> file_record_dto \<Rightarrow> path \<Rightarrow> (('j, 's) csys_scheme, path \<times> bool) act" where
  "gd_place_linked g r link old_path =
     (if rp_trashed r then ret (old_path, True)
      else
        (let name = path_of_string (rp_name r);
             p1 = (if name \<noteq> path_of_string (filename old_path) then path_div (parent_path old_path) name else old_path)
         in if fr_cloud_parent_id link = rp_parent r then ret (p1, False)
            else andThen (db_call (\<lambda>rc. getFileByCloudIdAndCloudFileId rc (gd_id g) (rp_parent r)))
              (\<lambda>pl. case pl of
                 Some p \<Rightarrow> andThen (db_call (\<lambda>rc. getPathByGlobalId rc (fr_global_id p)))
                             (\<lambda>q. ret (path_div q name, False))
               | None \<Rightarrow> ret (if rp_parent r = gd_home_dir_id g then (name, False) else (p1, True)))))"

subsection \<open>What has to be done\<close>

definition gd_needs ::
  "report \<Rightarrow> string \<Rightarrow> file_record_dto option \<Rightarrow> bool \<Rightarrow> path \<Rightarrow> path \<Rightarrow> needs res" where
  "gd_needs r hash link trashed old_path new_path =
     (case link of
        None \<Rightarrow> Inr \<lparr>nd_new = \<not> trashed, nd_del = False, nd_move = False, nd_update = False\<rparr>
      | Some l \<Rightarrow>
          res_bind (if \<not> trashed \<and> rp_type r \<noteq> Directory \<and> rp_mtime r > fr_mtime l
                    then res_bind (get_hash_str (fr_hash l)) (\<lambda>h. Inr (hash \<noteq> h)) else Inr False)
            (\<lambda>upd. Inr \<lparr>nd_new = False, nd_del = trashed,
                        nd_move = (\<not> trashed \<and> new_path \<noteq> old_path), nd_update = upd\<rparr>))"

text \<open>The checks against the expectations, in order; the first that matches ends the turn.\<close>

definition gd_own :: "needs \<Rightarrow> path \<Rightarrow> string \<Rightarrow> registry \<Rightarrow> bool \<times> registry" where
  "gd_own nd rel cfid m =
     (let (b1, m1) = check_if (nd_new nd) (path_string rel) New m
      in if b1 then (True, m1)
         else let (b2, m2) = check_if (nd_del nd) cfid Delete m1
      in if b2 then (True, m2)
         else let (b3, m3) = check_if (nd_move nd) cfid Move m2
      in if b3 then (True, m3)
         else check_if (nd_update nd) cfid Update m3)"

definition gd_emit ::
  "int \<Rightarrow> report \<Rightarrow> string \<Rightarrow> needs \<Rightarrow> int \<Rightarrow> path \<Rightarrow> path \<Rightarrow> path \<Rightarrow> string \<Rightarrow> string \<Rightarrow> (('j, 's) csys_scheme, nat list) act" where
  "gd_emit cid r hash nd global_id rel old_path new_path old_parent new_parent =
     (let m = moved_cloud (rp_type r) global_id cid (rp_id r) (rp_mtime r) old_path new_path old_parent new_parent;
          u = updated_cloud (rp_type r) global_id cid (rp_id r) hash (rp_mtime r) new_path new_parent (rp_size r)
      in if nd_move nd \<and> nd_update nd
         then andThen (new_change (\<lambda>cl. makeCloudMove cl m))
                (\<lambda>a. andThen (new_change (\<lambda>cl. makeCloudUpdate cl u))
                (\<lambda>b. andThen (modify_change a (addDependent b)) (\<lambda>_. ret [a])))
         else if nd_new nd
         then andThen (new_change (\<lambda>cl. makeCloudNew cl
                (record_google_new (rp_type r) (rp_parent r) rel (rp_id r) (rp_size r) (rp_mtime r) hash cid))) (\<lambda>a. ret [a])
         else if nd_del nd
         then andThen (new_change (\<lambda>cl. makeDelete cl (deleted_cloud rel global_id cid (rp_id r) (rp_mtime r)))) (\<lambda>a. ret [a])
         else if nd_move nd then andThen (new_change (\<lambda>cl. makeCloudMove cl m)) (\<lambda>a. ret [a])
         else if nd_update nd then andThen (new_change (\<lambda>cl. makeCloudUpdate cl u)) (\<lambda>a. ret [a])
         else ret [])"

subsection \<open>\<open>proccessChanges\<close>\<close>

text \<open>What the loop carries: the paths of new folders and the expectations taken over.\<close>

record turn_state =
  ts_paths :: "(string \<times> path) list"
  ts_expected :: registry

text \<open>The second half of a turn, once the paths are known.\<close>

definition gd_judge ::
  "'j google \<Rightarrow> report \<Rightarrow> string \<Rightarrow> file_record_dto option \<Rightarrow> bool \<Rightarrow> path \<Rightarrow> path \<Rightarrow> path \<Rightarrow> turn_state \<Rightarrow>
   (('j, 's) csys_scheme, nat list \<times> turn_state) act" where
  "gd_judge g r hash link trashed rel old_path new_path st =
     (if path_empty rel \<or> is_dot rel then ret ([], st)
      else andThen (lift_res (gd_needs r hash link trashed old_path new_path))
        (\<lambda>nd. let (own, reg) = gd_own nd rel (rp_id r) (ts_expected st); st1 = st\<lparr>ts_expected := reg\<rparr>
              in if own then ret ([], st1)
                 else andThen (gd_emit (gd_id g) r hash nd (case link of Some l \<Rightarrow> fr_global_id l | None \<Rightarrow> 0)
                                 rel old_path new_path (case link of Some l \<Rightarrow> fr_cloud_parent_id l | None \<Rightarrow> [])
                                 (case link of Some _ \<Rightarrow> rp_parent r | None \<Rightarrow> []))
                        (\<lambda>as. ret (as, st1))))"

definition gd_change ::
  "'j lib \<Rightarrow> 'j google \<Rightarrow> 'j \<Rightarrow> turn_state \<Rightarrow> (('j, 's) csys_scheme, nat list \<times> turn_state) act" where
  "gd_change J g jchange st =
     (if \<not> js_contains J jchange ''file'' then ret ([], st)
      else andThen (lift_res (js_at J jchange ''file''))
        (\<lambda>f. andThen (lift_res (gd_read_file J f))
        (\<lambda>r. andThen (db_call (\<lambda>rc. getFileByCloudIdAndCloudFileId rc (gd_id g) (rp_id r)))
        (\<lambda>link. andThen (lift_res (js_value_text J f ''md5Checksum'' []))
        (\<lambda>hash. case link of
             None \<Rightarrow>
               andThen (gd_place_new g (ts_paths st) r)
                 (\<lambda>place. case place of
                    None \<Rightarrow> ret ([], st)
                  | Some rel \<Rightarrow>
                      gd_judge g r hash None (rp_trashed r) rel empty_path empty_path
                        (if rp_type r = Directory then st\<lparr>ts_paths := (rp_id r, rel) # ts_paths st\<rparr> else st))
           | Some l \<Rightarrow>
               andThen (db_call (\<lambda>rc. getPathByGlobalId rc (fr_global_id l)))
                 (\<lambda>old_path. andThen (gd_place_linked g r l old_path)
                 (\<lambda>(new_path, gone). gd_judge g r hash link gone
                      (if rp_trashed r then old_path else new_path) old_path new_path st)))))))"

fun gd_change_loop ::
  "'j lib \<Rightarrow> 'j google \<Rightarrow> 'j list \<Rightarrow> turn_state \<Rightarrow> (('j, 's) csys_scheme, nat list \<times> turn_state) act" where
  "gd_change_loop J g [] st = ret ([], st)"
| "gd_change_loop J g (jc # jcs) st =
     andThen (gd_change J g jc st)
       (\<lambda>(as, st1). andThen (gd_change_loop J g jcs st1) (\<lambda>(bs, st2). ret (as @ bs, st2)))"

fun gd_page_loop ::
  "'j lib \<Rightarrow> 'j google \<Rightarrow> 'j list \<Rightarrow> turn_state \<Rightarrow> (('j, 's) csys_scheme, nat list) act" where
  "gd_page_loop J g [] st = ret []"
| "gd_page_loop J g (page # pages) st =
     andThen (lift_res (js_at J page ''changes''))
       (\<lambda>cs. andThen (gd_change_loop J g (js_elems J cs) st)
       (\<lambda>(as, st1). andThen (gd_page_loop J g pages st1) (\<lambda>bs. ret (as @ bs))))"

definition gd_proccessChanges :: "'j lib \<Rightarrow> int \<Rightarrow> (('j, 's) csys_scheme, nat list) act" where
  "gd_proccessChanges J i w =
     (let g = w_google w i
      in case q_try_pop (gd_events g) of
           (None, q) \<Rightarrow> ret [] w
         | (Some pages, q) \<Rightarrow>
             andThen (upd_google i (\<lambda>g. g\<lparr>gd_events := q, gd_expected := snd (reg_copy_map (gd_expected g))\<rparr>))
               (\<lambda>_. gd_page_loop J g pages
                      \<lparr>ts_paths = [], ts_expected = prev_new (fst (reg_copy_map (gd_expected g)))\<rparr>) w)"

end
