(* ===== verification/Dropbox.thy ===== *)
theory Dropbox
  imports CloudSys
begin

text \<open>
  \<open>src/dropbox.cpp\<close>: Dropbox as a storage, with the same parts as Google Drive. A file is named
  by its path below the home folder. The loops whose end the server decides have a number of
  turns as fuel. \<open>std::filesystem::relative\<close> looks at the local file system, as in the source.
\<close>

subsection \<open>Small parts\<close>

definition dx_bearer :: "dropbox \<Rightarrow> string" where
  "dx_bearer g = ''Authorization: Bearer '' @ dx_access_token g"

definition dx_expect :: "int \<Rightarrow> string \<Rightarrow> change_type \<Rightarrow> (('j, 's) csys_scheme, unit) act" where
  "dx_expect i k ct = upd_dropbox i (\<lambda>g. g\<lparr>dx_expected := reg_add k ct (dx_expected g)\<rparr>)"

definition dx_expect_path :: "int \<Rightarrow> path \<Rightarrow> change_type \<Rightarrow> (('j, 's) csys_scheme, unit) act" where
  "dx_expect_path i p ct = upd_dropbox i (\<lambda>g. g\<lparr>dx_expected := reg_add_path p ct (dx_expected g)\<rparr>)"

definition isDropboxShortcutJsonFile :: "path \<Rightarrow> bool" where
  "isDropboxShortcutJsonFile p \<longleftrightarrow>
     extension p \<in> {''.gdoc'', ''.gsheet'', ''.gslide'', ''.gdraw'', ''.gform'', ''.gsite'', ''.jam'', ''.paper''}"

text \<open>A remote path always starts with a separator.\<close>

definition dx_remote :: "path \<Rightarrow> path \<Rightarrow> string" where
  "dx_remote home rel =
     (let s = path_string (path_div home rel) in if s = [] \<or> hd s \<noteq> CHR ''/'' then CHR ''/'' # s else s)"

definition dx_content_type :: "entry_type \<Rightarrow> path \<Rightarrow> string" where
  "dx_content_type t rel =
     (if t = Document \<and> isDropboxShortcutJsonFile rel then ''Content-Type: application/json''
      else ''Content-Type: application/octet-stream'')"

definition dx_upload_arg :: "'j lib \<Rightarrow> string \<Rightarrow> 'j" where
  "dx_upload_arg J p =
     js_object J [(''path'', js_text J p), (''mode'', js_text J ''overwrite''), (''mute'', js_flag J True),
                  (''strict_conflict'', js_flag J False)]"

subsection \<open>Requests of the commands\<close>

definition dx_setupUploadHandle :: "'j lib \<Rightarrow> int \<Rightarrow> file_record_dto \<Rightarrow> handle \<Rightarrow> (('j, 's) csys_scheme, handle) act" where
  "dx_setupUploadHandle J i dto h w =
     (let g = w_dropbox w i; rel = fr_rel_path dto
      in andThen (lift_res (js_dump J (dx_upload_arg J (path_string (dx_home g) @ ''/'' @ path_string rel))))
           (\<lambda>arg. andThen (open_stream (path_of_string (path_string (dx_local_home g) @ ''/'' @ path_string rel)) ModeIn
                     (addHeaders (dx_content_type (fr_type dto) rel) (addHeaders (''Dropbox-API-Arg: '' @ arg)
                        (addHeaders (dx_bearer g) h))))
           (\<lambda>h1. andThen (dx_expect_path i rel New)
           (\<lambda>_. ret (setCommonCURLOpt (setopt (Post True)
                      (setopt (Url ''https://content.dropboxapi.com/2/files/upload'') h1)))))) w)"

text \<open>Both overloads of \<open>setupDownloadHandle\<close>, which use the same two fields.\<close>

definition dx_setupDownload :: "int \<Rightarrow> entry_type \<Rightarrow> path \<Rightarrow> handle \<Rightarrow> (('j, 's) csys_scheme, handle) act" where
  "dx_setupDownload i t rel h w =
     (let g = w_dropbox w i;
          url = (if t = Document \<and> isDropboxShortcutJsonFile rel then ''https://content.dropboxapi.com/2/files/export''
                 else ''https://content.dropboxapi.com/2/files/download'');
          arg = ''Dropbox-API-Arg: {\"path\": \"'' @ path_string (path_div (dx_home g) rel) @ ''\"}''
      in open_stream (download_tmp (dx_local_home g) rel) ModeOut
           (setCommonCURLOpt (setopt (Url url) (addHeaders arg (addHeaders (dx_bearer g) h)))) w)"

definition dx_setupDownload_record :: "int \<Rightarrow> file_record_dto \<Rightarrow> handle \<Rightarrow> (('j, 's) csys_scheme, handle) act" where
  "dx_setupDownload_record i dto = dx_setupDownload i (fr_type dto) (fr_rel_path dto)"

definition dx_setupDownload_updated :: "int \<Rightarrow> file_updated_dto \<Rightarrow> handle \<Rightarrow> (('j, 's) csys_scheme, handle) act" where
  "dx_setupDownload_updated i dto = dx_setupDownload i (fu_type dto) (fu_rel_path dto)"

text \<open>The remote path of an update has no home folder in front, unlike that of the upload.\<close>

definition dx_setupUpdateHandle :: "'j lib \<Rightarrow> int \<Rightarrow> file_updated_dto \<Rightarrow> handle \<Rightarrow> (('j, 's) csys_scheme, handle) act" where
  "dx_setupUpdateHandle J i dto h w =
     (let g = w_dropbox w i; rel = fu_rel_path dto;
          h1 = setopt (Post True) (setopt (Url ''https://content.dropboxapi.com/2/files/upload'') h)
      in andThen (lift_res (js_dump J (dx_upload_arg J (''/'' @ path_string rel))))
           (\<lambda>arg. andThen (open_stream (path_of_string (path_string (path_div (dx_local_home g) rel))) ModeIn
                     (addHeaders (''Dropbox-API-Arg: '' @ arg) (addHeaders (dx_bearer g)
                        (addHeaders (dx_content_type (fu_type dto) rel) h1))))
           (\<lambda>h2. andThen (dx_expect i (fu_cloud_file_id dto) Update)
           (\<lambda>_. ret (setCommonCURLOpt h2)))) w)"

definition dx_json_request :: "string \<Rightarrow> string \<Rightarrow> dropbox \<Rightarrow> handle \<Rightarrow> handle" where
  "dx_json_request url body g h =
     setCommonCURLOpt (addHeaders ''Content-Type: application/json'' (addHeaders (dx_bearer g)
       (setopt (CopyPostFields (c_str body)) (setopt (Post True) (setopt (Url url) h)))))"

definition dx_setupMoveHandle :: "'j lib \<Rightarrow> int \<Rightarrow> file_moved_dto \<Rightarrow> handle \<Rightarrow> (('j, 's) csys_scheme, handle) act" where
  "dx_setupMoveHandle J i dto h w =
     (let g = w_dropbox w i
      in andThen (lift_res (js_dump J (js_object J
              [(''from_path'', js_text J (dx_remote (dx_home g) (fm_old_rel_path dto))),
               (''to_path'', js_text J (dx_remote (dx_home g) (fm_new_rel_path dto))),
               (''allow_shared_folder'', js_flag J True), (''autorename'', js_flag J False),
               (''allow_ownership_transfer'', js_flag J False)])))
           (\<lambda>body. andThen (dx_expect_path i (fm_old_rel_path dto) Delete)
           (\<lambda>_. andThen (dx_expect i (fm_cloud_file_id dto) Move)
           (\<lambda>_. ret (dx_json_request ''https://api.dropboxapi.com/2/files/move_v2'' body g h)))) w)"

definition dx_setupDeleteHandle :: "'j lib \<Rightarrow> int \<Rightarrow> file_deleted_dto \<Rightarrow> handle \<Rightarrow> (('j, 's) csys_scheme, handle) act" where
  "dx_setupDeleteHandle J i dto h w =
     (let g = w_dropbox w i
      in andThen (lift_res (js_dump J (js_object J [(''path'', js_text J (dx_remote (dx_home g) (fd_rel_path dto)))])))
           (\<lambda>body. andThen (dx_expect_path i (fd_rel_path dto) Delete)
           (\<lambda>_. ret (dx_json_request ''https://api.dropboxapi.com/2/files/delete_v2'' body g h))) w)"

subsection \<open>Answers to the commands\<close>

definition dx_proccesUpload :: "'j lib \<Rightarrow> file_record_dto \<Rightarrow> string \<Rightarrow> (('j, 's) csys_scheme, file_record_dto) act" where
  "dx_proccesUpload J dto response =
     andThen (lift_res (js_parse J response))
       (\<lambda>j. if fr_type dto = Directory
            then andThen (lift_res (res_bind (js_at J j ''metadata'') (\<lambda>m. js_text_at J m ''id'')))
                   (\<lambda>fid. ret (dto\<lparr>fr_cloud_file_id := fid\<rparr>))
            else andThen (lift_res (js_text_at J j ''id''))
                   (\<lambda>fid. andThen (lift_res (json_time J j ''server_modified''))
                   (\<lambda>mt. andThen (lift_res (js_text_at J j ''content_hash''))
                   (\<lambda>hash. ret (dto\<lparr>fr_cloud_file_id := fid, fr_mtime := mt, fr_hash := HashStr hash\<rparr>)))))"

definition dx_proccesUpdate :: "'j lib \<Rightarrow> file_updated_dto \<Rightarrow> string \<Rightarrow> (('j, 's) csys_scheme, file_updated_dto) act" where
  "dx_proccesUpdate J dto response =
     andThen (lift_res (js_parse J response))
       (\<lambda>j0. andThen (if js_contains J j0 ''metadata'' then lift_res (js_at J j0 ''metadata'') else ret j0)
       (\<lambda>j. andThen (lift_res (js_value_text J j ''id'' []))
       (\<lambda>fid. let d1 = dto\<lparr>fu_cloud_file_id := fid\<rparr>; other = ret (d1\<lparr>fu_hash := HashStr []\<rparr>)
              in if fu_type dto = Directory then other
                 else andThen (lift_res (js_value_text J j ''.tag'' []))
                   (\<lambda>tag. if tag \<noteq> ''file'' then other
                     else andThen (lift_res (json_time J j ''server_modified''))
                       (\<lambda>mt. andThen (lift_res (js_value_text J j ''content_hash'' []))
                       (\<lambda>hash. andThen (lift_res (js_value_u64 J j ''size'' 0))
                       (\<lambda>sz. ret (d1\<lparr>fu_mtime := mt, fu_hash := HashStr hash, fu_size := sz\<rparr>))))))))"

definition dx_proccesMove :: "'j lib \<Rightarrow> file_moved_dto \<Rightarrow> string \<Rightarrow> (('j, 's) csys_scheme, file_moved_dto) act" where
  "dx_proccesMove J dto response =
     andThen (lift_res (js_parse J response))
       (\<lambda>j. if \<not> js_contains J j ''metadata'' then ret dto
            else andThen (lift_res (js_at J j ''metadata''))
              (\<lambda>meta. if fm_type dto = Directory \<or> \<not> js_contains J meta ''.tag'' then ret dto
                else andThen (lift_res (js_at J meta ''.tag''))
                  (\<lambda>tag. if js_is J tag ''file'' \<and> js_contains J meta ''server_modified''
                         then andThen (lift_res (json_time J meta ''server_modified''))
                                (\<lambda>mt. ret (dto\<lparr>fm_mtime := mt\<rparr>))
                         else ret dto)))"

definition dx_proccesDelete :: "file_deleted_dto \<Rightarrow> string \<Rightarrow> (('j, 's) csys_scheme, unit) act" where
  "dx_proccesDelete dto response = ret ()"

definition dx_getHomeDir :: "dropbox \<Rightarrow> string" where
  "dx_getHomeDir g = path_string (dx_home g)"

text \<open>Dropbox as the storage of commands.\<close>

definition dropbox_ops :: "'j lib \<Rightarrow> int \<Rightarrow> (('j, 's) csys_scheme) storage_ops" where
  "dropbox_ops J i =
     \<lparr>so_setup_upload = dx_setupUploadHandle J i, so_setup_update = dx_setupUpdateHandle J i,
      so_setup_download_new = dx_setupDownload_record i, so_setup_download_updated = dx_setupDownload_updated i,
      so_setup_delete = dx_setupDeleteHandle J i, so_setup_move = dx_setupMoveHandle J i,
      so_proccesUpload = dx_proccesUpload J, so_proccesUpdate = dx_proccesUpdate J,
      so_proccesDelete = dx_proccesDelete, so_proccesMove = dx_proccesMove J,
      so_getHomeDir = (\<lambda>w. dx_getHomeDir (w_dropbox w i))\<rparr>"

subsection \<open>Authorisation\<close>

definition dx_proccessAuth :: "'j lib \<Rightarrow> int \<Rightarrow> string \<Rightarrow> (('j, 's) csys_scheme, unit) act" where
  "dx_proccessAuth J i response =
     andThen (lift_res (js_parse J response))
       (\<lambda>j. andThen (lift_res (js_text_at J j ''access_token''))
       (\<lambda>t. andThen (upd_dropbox i (\<lambda>g. g\<lparr>dx_access_token := t\<rparr>))
       (\<lambda>_. andThen (if js_contains J j ''refresh_token''
                      then andThen (lift_res (js_text_at J j ''refresh_token''))
                             (\<lambda>r. upd_dropbox i (\<lambda>g. g\<lparr>dx_refresh_token := r\<rparr>))
                      else ret ())
       (\<lambda>_. andThen (lift_res (res_bind (js_at J j ''expires_in'') (js_get_int J)))
       (\<lambda>n. andThen (query w_clock)
       (\<lambda>now. upd_dropbox i (\<lambda>g. g\<lparr>dx_expires := now + n\<rparr>)))))))"

definition dx_token_request :: "string \<Rightarrow> handle \<Rightarrow> handle" where
  "dx_token_request post h =
     setCommonCURLOpt (setopt (Post True) (setopt (PostFields (c_str post))
       (setopt (Url ''https://api.dropboxapi.com/oauth2/token'') h)))"

definition dx_refreshAccessToken :: "'j lib \<Rightarrow> int \<Rightarrow> (('j, 's) csys_scheme, unit) act" where
  "dx_refreshAccessToken J i w =
     (let g = w_dropbox w i;
          post = ''grant_type=refresh_token'' @ ''&refresh_token='' @ dx_refresh_token g @
                 ''&client_id='' @ dx_client_id g @ ''&client_secret='' @ dx_client_secret g
      in andThen (http_sync (dx_token_request post (w_h0 w))) (\<lambda>h1. dx_proccessAuth J i (h_response h1)) w)"

definition dx_getRefreshToken :: "'j lib \<Rightarrow> int \<Rightarrow> string \<Rightarrow> int \<Rightarrow> (('j, 's) csys_scheme, string) act" where
  "dx_getRefreshToken J i code local_port w =
     (let g = w_dropbox w i;
          post = ''code='' @ code @ ''&grant_type=authorization_code'' @ ''&client_id='' @ dx_client_id g @
                 ''&client_secret='' @ dx_client_secret g @
                 ''&redirect_uri=http://localhost:'' @ int_string local_port @ ''/oauth2callback''
      in andThen (http_sync (dx_token_request post (w_h0 w)))
           (\<lambda>h1. andThen (dx_proccessAuth J i (h_response h1))
           (\<lambda>_. query (\<lambda>w. dx_refresh_token (w_dropbox w i)))) w)"

definition dx_buildAuthURL :: "'j lib \<Rightarrow> dropbox \<Rightarrow> int \<Rightarrow> string" where
  "dx_buildAuthURL J g local_port =
     ''https://www.dropbox.com/oauth2/authorize?'' @ ''client_id='' @ dx_client_id g @
     ''&redirect_uri='' @ url_escape J (c_str (''http://localhost:'' @ int_string local_port @ ''/oauth2callback'')) @
     ''&response_type=code'' @ ''&token_access_type=offline''"

subsection \<open>Folders\<close>

text \<open>The answer to \<open>create_folder_v2\<close>: a folder that is there already is looked up.\<close>

definition dx_folder_id ::
  "'j lib \<Rightarrow> int \<Rightarrow> path \<Rightarrow> path \<Rightarrow> handle \<Rightarrow> 'j \<Rightarrow> (('j, 's) csys_scheme, handle \<times> string) act" where
  "dx_folder_id J i accum rel h j =
     (if js_contains J j ''error_summary''
      then andThen (lift_res (js_text_at J j ''error_summary''))
        (\<lambda>summary. if starts_with ''path/conflict/folder'' summary
           then andThen (lift_res (js_dump J (js_object J [(''path'', js_text J (path_string accum))])))
             (\<lambda>body. andThen (ask J (clear_response (setopt (CopyPostFields (c_str body))
                        (setopt (Url ''https://api.dropboxapi.com/2/files/get_metadata'') (setopt (Post True) h)))))
             (\<lambda>(h1, md). andThen (lift_res (js_text_at J md ''id''))
             (\<lambda>fid. andThen (upd_dropbox i (\<lambda>g. g\<lparr>dx_expected := snd (reg_check_path rel New (dx_expected g))\<rparr>))
             (\<lambda>_. ret (h1, fid)))))
           else throw (RuntimeError (''Dropbox create_folder_v2 error: '' @ summary)))
      else andThen (lift_res (res_bind (js_at J j ''metadata'') (\<lambda>m. js_text_at J m ''id'')))
        (\<lambda>fid. ret (h, fid)))"

fun dx_create_loop ::
  "'j lib \<Rightarrow> int \<Rightarrow> path \<Rightarrow> handle \<Rightarrow> string list \<Rightarrow> (('j, 's) csys_scheme, file_record_dto list) act" where
  "dx_create_loop J i accum h [] w = ret [] w"
| "dx_create_loop J i accum h (seg # rest) w =
     (let g = w_dropbox w i;
          accum1 = path_div accum \<lparr>rooted = False, segs = [seg]\<rparr>;
          rel = fs_relative (w_fs w) accum1 (dx_home g)
      in andThen (lift_res (js_dump J (js_object J [(''path'', js_text J (path_string accum1)), (''autorename'', js_flag J False)])))
           (\<lambda>body. andThen (dx_expect_path i rel New)
           (\<lambda>_. andThen (ask J (clear_response (setopt (CopyPostFields (c_str body)) (setopt (Post True)
                     (setopt (Url ''https://api.dropboxapi.com/2/files/create_folder_v2'') h)))))
           (\<lambda>(h1, j). andThen (dx_folder_id J i accum1 rel h1 j)
           (\<lambda>(h2, fid). andThen (dx_create_loop J i accum1 h2 rest)
           (\<lambda>ds. ret (record_cloud_new Directory rel fid 0 0 [] (dx_id g) # ds)))))) w)"

definition dx_createPath :: "'j lib \<Rightarrow> int \<Rightarrow> path \<Rightarrow> path \<Rightarrow> (('j, 's) csys_scheme, file_record_dto list) act" where
  "dx_createPath J i p missing w =
     (let g = w_dropbox w i;
          h = setCommonCURLOpt (addHeaders ''Content-Type: application/json'' (addHeaders (dx_bearer g) (w_h0 w)))
      in dx_create_loop J i (path_div (dx_home g) (path_prefix (normalizePath p) missing)) h (segs missing) w)"

definition dx_ensureRootExists :: "'j lib \<Rightarrow> int \<Rightarrow> (('j, 's) csys_scheme, unit) act" where
  "dx_ensureRootExists J i w =
     (let g = w_dropbox w i;
          h = setCommonCURLOpt (addHeaders ''Content-Type: application/json'' (addHeaders (dx_bearer g) (w_h0 w)))
      in andThen (lift_res (js_dump J (js_object J [(''path'', js_text J (path_string (dx_home g))), (''autorename'', js_flag J False)])))
           (\<lambda>payload. andThen (http_sync (setopt (PostFields (c_str payload)) (setopt (Post True)
                        (setopt (Url ''https://api.dropboxapi.com/2/files/create_folder_v2'') h))))
           (\<lambda>_. ret ())) w)"

subsection \<open>Constructors\<close>

definition dropbox_new :: "string \<Rightarrow> string \<Rightarrow> string \<Rightarrow> path \<Rightarrow> path \<Rightarrow> int \<Rightarrow> string \<Rightarrow> dropbox" where
  "dropbox_new client_id client_secret refresh_token home local_home cloud_id page_token =
     \<lparr>dx_home = home, dx_local_home = local_home, dx_client_id = client_id, dx_client_secret = client_secret,
      dx_refresh_token = refresh_token, dx_access_token = [], dx_page_token = page_token, dx_events = q_new,
      dx_expected = Map.empty, dx_on_change = False, dx_expires = 0, dx_id = cloud_id\<rparr>"

definition dx_connect :: "'j lib \<Rightarrow> int \<Rightarrow> dropbox \<Rightarrow> (('j, 's) csys_scheme, unit) act" where
  "dx_connect J i g =
     andThen (upd_dropbox i (\<lambda>_. g)) (\<lambda>_. andThen (dx_refreshAccessToken J i) (\<lambda>_. dx_ensureRootExists J i))"

subsection \<open>The initial listing\<close>

text \<open>\<open>None\<close>: the entry is the home folder itself, or not below it.\<close>

definition dx_entry :: "'j lib \<Rightarrow> dropbox \<Rightarrow> fs \<Rightarrow> 'j \<Rightarrow> file_record_dto option res" where
  "dx_entry J g f e =
     res_bind (js_at J e ''.tag'')
       (\<lambda>tag. let is_folder = js_is J tag ''folder''
        in res_bind (js_value_flag J e ''is_downloadable'' True)
       (\<lambda>dl. res_bind (js_text_at J e ''id'')
       (\<lambda>fid. res_bind (js_text_at J e ''path_display'')
       (\<lambda>ps. let rel = fs_relative f (path_of_string ps) (dx_home g)
        in if path_empty rel \<or> is_dot rel then Inr None
           else res_bind (if is_folder then Inr 0 else json_time J e ''server_modified'')
       (\<lambda>mt. res_bind (if is_folder then Inr [] else js_text_at J e ''content_hash'')
       (\<lambda>hash. res_bind (if is_folder then Inr 0 else js_value_u64 J e ''size'' 0)
       (\<lambda>sz. Inr (Some (record_cloud_new (if is_folder then Directory else if \<not> dl then Document else File)
                          rel fid sz mt hash (dx_id g))))))))))"

definition dx_entries :: "'j lib \<Rightarrow> dropbox \<Rightarrow> 'j \<Rightarrow> (('j, 's) csys_scheme, file_record_dto list) act" where
  "dx_entries J g rsp =
     andThen (lift_res (js_at J rsp ''entries''))
       (\<lambda>es. andThen (for_each (\<lambda>e w. lift_res (dx_entry J g (w_fs w) e) w) (js_elems J es))
       (\<lambda>ds. ret (concat (map (case_option [] (\<lambda>d. [d])) ds))))"

fun dx_listing ::
  "nat \<Rightarrow> 'j lib \<Rightarrow> dropbox \<Rightarrow> handle \<Rightarrow> 'j \<Rightarrow> (('j, 's) csys_scheme, file_record_dto list) act" where
  "dx_listing 0 J g h rsp = throw Diverges"
| "dx_listing (Suc n) J g h rsp =
     andThen (dx_entries J g rsp)
       (\<lambda>ds. andThen (lift_res (js_value_flag J rsp ''has_more'' False))
       (\<lambda>more. andThen (lift_res (js_value_text J rsp ''cursor'' []))
       (\<lambda>cursor. if \<not> more then ret ds
          else andThen (lift_res (js_dump J (js_object J [(''cursor'', js_text J cursor)])))
            (\<lambda>body. andThen (ask J (clear_response (setopt (CopyPostFields (c_str body))
                       (setopt (Url ''https://api.dropboxapi.com/2/files/list_folder/continue'') h))))
            (\<lambda>(h1, rsp1). andThen (dx_listing n J g h1 rsp1) (\<lambda>ds2. ret (ds @ ds2)))))))"

definition dx_initialFiles :: "nat \<Rightarrow> 'j lib \<Rightarrow> int \<Rightarrow> (('j, 's) csys_scheme, file_record_dto list) act" where
  "dx_initialFiles n J i w =
     (let g = w_dropbox w i;
          h = setCommonCURLOpt (addHeaders ''Content-Type: application/json'' (addHeaders (dx_bearer g)
                (setopt (Url ''https://api.dropboxapi.com/2/files/list_folder'') (setopt (Post True) (w_h0 w)))))
      in andThen (lift_res (js_dump J (js_object J
              [(''path'', js_text J (path_string (dx_home g))), (''recursive'', js_flag J True),
               (''include_media_info'', js_flag J False), (''include_deleted'', js_flag J False),
               (''include_non_downloadable_files'', js_flag J True)])))
           (\<lambda>body. andThen (ask J (setopt (CopyPostFields (c_str body)) h))
           (\<lambda>(h1, rsp). dx_listing n J g h1 rsp)) w)"

end
