(* ===== verification/DropboxChanges.thy ===== *)
theory DropboxChanges
  imports Dropbox
begin

text \<open>
  Polling of Dropbox (\<open>src/dropbox.cpp\<close>, \<open>getDeltaToken\<close> to \<open>proccessChanges\<close>). A move reaches
  the program as a deletion of the old path and an entry for the new one, so deletions wait
  until all pages have been seen.
\<close>

subsection \<open>Fetching\<close>

definition dx_getDeltaToken :: "'j lib \<Rightarrow> int \<Rightarrow> (('j, 's) csys_scheme, string) act" where
  "dx_getDeltaToken J i w =
     (let g = w_dropbox w i
      in andThen (lift_res (js_dump J (js_object J
              [(''path'', js_text J (path_string (dx_home g))), (''recursive'', js_flag J True),
               (''include_media_info'', js_flag J False), (''include_deleted'', js_flag J True),
               (''include_has_explicit_shared_members'', js_flag J False)])))
           (\<lambda>body. andThen (ask J (setCommonCURLOpt (setopt (Post True) (setopt (PostFields (c_str body))
                      (setopt (Url ''https://api.dropboxapi.com/2/files/list_folder/get_latest_cursor'')
                      (addHeaders ''Content-Type: application/json'' (addHeaders (dx_bearer g) (w_h0 w))))))))
           (\<lambda>(h1, j). andThen (lift_res (js_text_at J j ''cursor''))
           (\<lambda>t. andThen (upd_dropbox i (\<lambda>g. g\<lparr>dx_page_token := t\<rparr>)) (\<lambda>_. ret t)))) w)"

definition dx_cursor_body :: "'j lib \<Rightarrow> string \<Rightarrow> 'j" where
  "dx_cursor_body J cursor = js_object J [(''cursor'', js_text J cursor)]"

text \<open>
  The loop over the pages, with a number of turns. The response of the handle is not cleared
  between the turns: the text of a page starts with the texts of the pages before it.
\<close>

fun dx_change_pages ::
  "nat \<Rightarrow> 'j lib \<Rightarrow> string \<Rightarrow> string \<Rightarrow> handle \<Rightarrow> string list \<Rightarrow> (('j, 's) csys_scheme, string list \<times> string) act" where
  "dx_change_pages 0 J body cursor h pages = throw Diverges"
| "dx_change_pages (Suc n) J body cursor h pages =
     andThen (ask J (setopt (PostFields (c_str body)) h))
       (\<lambda>(h1, j). andThen (lift_res (js_value_flag J j ''has_more'' False))
       (\<lambda>more. andThen (lift_res (js_value_text J j ''cursor'' cursor))
       (\<lambda>cursor1. let pages1 = pages @ [h_response h1]
          in if \<not> more then ret (pages1, cursor1)
             else andThen (lift_res (js_dump J (dx_cursor_body J cursor1)))
               (\<lambda>body1. dx_change_pages n J body1 cursor1 h1 pages1))))"

text \<open>Whether some page has entries; the pages are parsed again until one has.\<close>

fun dx_any_entries :: "'j lib \<Rightarrow> string list \<Rightarrow> bool res" where
  "dx_any_entries J [] = Inr False"
| "dx_any_entries J (raw # pages) =
     res_bind (js_parse J raw)
       (\<lambda>j. res_bind (js_value_json J j ''entries'' (js_list J []))
       (\<lambda>es. if \<not> js_empty J es then Inr True else dx_any_entries J pages))"

definition dx_onChange :: "int \<Rightarrow> (('j, 's) csys_scheme, unit) act" where
  "dx_onChange i w =
     (if dx_on_change (w_dropbox w i) then (Inr (), w\<lparr>ls_signal := True\<rparr>) else (Inl BadFunctionCall, w))"

definition dx_getChanges :: "nat \<Rightarrow> 'j lib \<Rightarrow> int \<Rightarrow> (('j, 's) csys_scheme, unit) act" where
  "dx_getChanges n J i w =
     andThen (if dx_page_token (w_dropbox w i) = [] then dx_getDeltaToken J i else ret [])
       (\<lambda>_ w. let g = w_dropbox w i; cursor = dx_page_token g;
                  h = setCommonCURLOpt (setopt (Url ''https://api.dropboxapi.com/2/files/list_folder/continue'')
                        (setopt (Post True) (addHeaders ''Content-Type: application/json'' (addHeaders (dx_bearer g) (w_h0 w)))))
          in andThen (lift_res (js_dump J (dx_cursor_body J cursor)))
               (\<lambda>body. andThen (dx_change_pages n J body cursor h [])
               (\<lambda>(pages, cursor1). andThen (upd_dropbox i (\<lambda>g. g\<lparr>dx_page_token := cursor1\<rparr>))
               (\<lambda>_. andThen (lift_res (dx_any_entries J pages))
               (\<lambda>any. if \<not> any then ret ()
                       else andThen (upd_dropbox i (\<lambda>g. g\<lparr>dx_events := q_push pages (dx_events g)\<rparr>))
                              (\<lambda>_. dx_onChange i))))) w) w"

definition dx_hasChanges :: "int \<Rightarrow> ('j, 's) csys_scheme \<Rightarrow> bool" where
  "dx_hasChanges i w \<longleftrightarrow> \<not> q_empty (dx_events (w_dropbox w i))"

definition dx_setOnChange :: "int \<Rightarrow> (('j, 's) csys_scheme, unit) act" where
  "dx_setOnChange i = upd_dropbox i (\<lambda>g. g\<lparr>dx_on_change := True\<rparr>)"

subsection \<open>Reading one entry\<close>

record dx_report =
  dr_tag :: string
  dr_doc :: bool
  dr_id :: string
  dr_rel :: path

definition dx_read_entry :: "'j lib \<Rightarrow> dropbox \<Rightarrow> 'j \<Rightarrow> dx_report res" where
  "dx_read_entry J g e =
     res_bind (js_text_at J e ''.tag'')
       (\<lambda>tag. res_bind (js_value_flag J e ''is_downloadable'' True)
       (\<lambda>dl. res_bind (js_value_text J e ''id'' [])
       (\<lambda>fid. res_bind (js_value_text J e ''path_display'' [])
       (\<lambda>ps. Inr \<lparr>dr_tag = tag, dr_doc = (\<not> dl), dr_id = fid,
                  dr_rel = lexically_relative (path_of_string ps) (dx_home g)\<rparr>))))"

text \<open>Time, size and hash, which only files that are there have.\<close>

definition dx_file_data :: "'j lib \<Rightarrow> 'j \<Rightarrow> dx_report \<Rightarrow> (int \<times> u64 \<times> string) res" where
  "dx_file_data J e r =
     (if dr_tag r \<in> {''deleted'', ''folder''} then Inr (0, 0, [])
      else res_bind (js_value_text J e ''server_modified'' [])
        (\<lambda>t. res_bind (js_value_u64 J e ''size'' 0)
        (\<lambda>sz. res_bind (js_value_text J e ''content_hash'' [])
        (\<lambda>hash. Inr (convertCloudTime t, sz, hash)))))"

definition dx_needs :: "dx_report \<Rightarrow> int \<Rightarrow> string \<Rightarrow> file_record_dto option \<Rightarrow> path \<Rightarrow> needs res" where
  "dx_needs r mtime hash link old_path =
     (let deleted = (dr_tag r = ''deleted'')
      in case link of
           None \<Rightarrow> Inr \<lparr>nd_new = \<not> deleted, nd_del = False, nd_move = False, nd_update = False\<rparr>
         | Some l \<Rightarrow>
             res_bind (if dr_tag r \<noteq> ''folder'' \<and> \<not> deleted \<and> mtime > fr_mtime l
                       then res_bind (get_hash_str (fr_hash l)) (\<lambda>h. Inr (hash \<noteq> h)) else Inr False)
               (\<lambda>upd. Inr \<lparr>nd_new = False, nd_del = deleted,
                           nd_move = (\<not> deleted \<and> dr_rel r \<noteq> old_path), nd_update = upd\<rparr>))"

definition dx_own :: "needs \<Rightarrow> path \<Rightarrow> string \<Rightarrow> registry \<Rightarrow> bool \<times> registry" where
  "dx_own nd rel cfid m =
     (let (b1, m1) = check_if (nd_new nd) (path_string rel) New m
      in if b1 then (True, m1)
         else let (b2, m2) = check_if (nd_del nd) (path_string rel) Delete m1
      in if b2 then (True, m2)
         else let (b3, m3) = check_if (nd_move nd) cfid Move m2
      in if b3 then (True, m3)
         else check_if (nd_update nd) cfid Update m3)"

subsection \<open>\<open>proccessChanges\<close>\<close>

text \<open>
  What the loop carries: the expectations taken over and \<open>pending_deletes\<close>, in the order in
  which they were put there (the order of the source's hash map is open).
\<close>

record dx_turn =
  dt_expected :: registry
  dt_deletes :: "(string \<times> nat) list"

definition pending_put :: "string \<Rightarrow> nat \<Rightarrow> (string \<times> nat) list \<Rightarrow> (string \<times> nat) list" where
  "pending_put k a ds = (if map_of ds k = None then ds @ [(k, a)] else ds)"

definition pending_drop :: "string \<Rightarrow> (string \<times> nat) list \<Rightarrow> (string \<times> nat) list" where
  "pending_drop k ds = filter (\<lambda>d. fst d \<noteq> k) ds"

definition dx_emit ::
  "int \<Rightarrow> dx_report \<Rightarrow> string \<Rightarrow> int \<times> u64 \<times> string \<Rightarrow> needs \<Rightarrow> int \<Rightarrow> path \<Rightarrow> dx_turn \<Rightarrow>
   (('j, 's) csys_scheme, nat list \<times> dx_turn) act" where
  "dx_emit cid r cfid data nd global_id old_path st =
     (let (mtime, sz, hash) = data;
          t = (if dr_tag r = ''folder'' then Directory else if dr_doc r then Document else File);
          rel = dr_rel r; key = path_string rel;
          m = moved_cloud t global_id cid cfid mtime old_path rel [] [];
          u = updated_cloud t global_id cid cfid hash mtime rel [] sz;
          st_moved = st\<lparr>dt_deletes := pending_drop key (dt_deletes st)\<rparr>
      in if nd_move nd \<and> nd_update nd
         then andThen (new_change (\<lambda>cl. makeCloudMove cl m))
                (\<lambda>a. andThen (new_change (\<lambda>cl. makeCloudUpdate cl u))
                (\<lambda>b. andThen (modify_change a (addDependent b)) (\<lambda>_. ret ([a], st_moved))))
         else if nd_new nd
         then andThen (new_change (\<lambda>cl. makeCloudNew cl (record_cloud_new t rel cfid sz mtime hash cid))) (\<lambda>a. ret ([a], st))
         else if nd_del nd
         then andThen (new_change (\<lambda>cl. makeDelete cl (deleted_cloud rel global_id cid cfid mtime)))
                (\<lambda>a. ret ([], st\<lparr>dt_deletes := pending_put key a (dt_deletes st)\<rparr>))
         else if nd_move nd then andThen (new_change (\<lambda>cl. makeCloudMove cl m)) (\<lambda>a. ret ([a], st_moved))
         else if nd_update nd then andThen (new_change (\<lambda>cl. makeCloudUpdate cl u)) (\<lambda>a. ret ([a], st))
         else ret ([], st))"

definition dx_change ::
  "'j lib \<Rightarrow> dropbox \<Rightarrow> 'j \<Rightarrow> dx_turn \<Rightarrow> (('j, 's) csys_scheme, nat list \<times> dx_turn) act" where
  "dx_change J g e st =
     andThen (lift_res (dx_read_entry J g e))
       (\<lambda>r. if path_empty (dr_rel r) \<or> is_dot (dr_rel r) then ret ([], st)
        else andThen (if dr_id r = [] then db_call2 (\<lambda>rc1 rc2. getCloudFileIdByPath rc1 rc2 (dr_rel r) (dx_id g))
                      else ret (dr_id r))
       (\<lambda>cfid. andThen (lift_res (dx_file_data J e r))
       (\<lambda>data. andThen (db_call (\<lambda>rc. getFileByCloudIdAndCloudFileId rc (dx_id g) cfid))
       (\<lambda>link. andThen (case link of
                          Some l \<Rightarrow> db_call (\<lambda>rc. getPathByGlobalId rc (fr_global_id l))
                        | None \<Rightarrow> ret empty_path)
       (\<lambda>old_path. andThen (lift_res (dx_needs r (fst data) (snd (snd data)) link old_path))
       (\<lambda>nd. let (own, reg) = dx_own nd (dr_rel r) cfid (dt_expected st); st1 = st\<lparr>dt_expected := reg\<rparr>
             in if own then ret ([], st1)
                else dx_emit (dx_id g) r cfid data nd (case link of Some l \<Rightarrow> fr_global_id l | None \<Rightarrow> 0) old_path st1))))))"

fun dx_change_loop ::
  "'j lib \<Rightarrow> dropbox \<Rightarrow> 'j list \<Rightarrow> dx_turn \<Rightarrow> (('j, 's) csys_scheme, nat list \<times> dx_turn) act" where
  "dx_change_loop J g [] st = ret ([], st)"
| "dx_change_loop J g (e # es) st =
     andThen (dx_change J g e st)
       (\<lambda>(as, st1). andThen (dx_change_loop J g es st1) (\<lambda>(bs, st2). ret (as @ bs, st2)))"

fun dx_page_loop ::
  "'j lib \<Rightarrow> dropbox \<Rightarrow> string list \<Rightarrow> dx_turn \<Rightarrow> (('j, 's) csys_scheme, nat list) act" where
  "dx_page_loop J g [] st = ret (map snd (dt_deletes st))"
| "dx_page_loop J g (raw # pages) st =
     andThen (lift_res (res_bind (js_parse J raw) (\<lambda>j. js_value_json J j ''entries'' (js_list J []))))
       (\<lambda>es. andThen (dx_change_loop J g (js_elems J es) st)
       (\<lambda>(as, st1). andThen (dx_page_loop J g pages st1) (\<lambda>bs. ret (as @ bs))))"

definition dx_proccessChanges :: "'j lib \<Rightarrow> int \<Rightarrow> (('j, 's) csys_scheme, nat list) act" where
  "dx_proccessChanges J i w =
     (let g = w_dropbox w i
      in case q_try_pop (dx_events g) of
           (None, q) \<Rightarrow> ret [] w
         | (Some pages, q) \<Rightarrow>
             andThen (upd_dropbox i (\<lambda>g. g\<lparr>dx_events := q, dx_expected := snd (reg_copy_map (dx_expected g))\<rparr>))
               (\<lambda>_. dx_page_loop J g pages
                      \<lparr>dt_expected = prev_new (fst (reg_copy_map (dx_expected g))), dt_deletes = []\<rparr>) w)"

end
