(* ===== verification/Work.thy ===== *)
theory Work
  imports SyncManager
begin

text \<open>
  The accounting behind the completion of changes: for every change, the count of pending
  commands is at least the number of its commands that are anywhere in the system (queued,
  running, delayed, waiting behind another command, or not dispatched yet). Every step of
  every thread keeps it, so a change is completed only when all its commands are done. A
  command that is dropped makes the count too large for ever: the change never completes.
  As long as none is dropped the count is not larger than the number of the commands either,
  so a change whose commands are all done is completed.
\<close>

subsection \<open>Commands of a change\<close>

definition owned :: "nat \<Rightarrow> command \<Rightarrow> nat" where
  "owned a c = length (filter (\<lambda>d. cmd_owner d = Some a) (commands c))"

definition owned_in :: "nat \<Rightarrow> command list \<Rightarrow> nat" where
  "owned_in a cs = sum_list (map (owned a) cs)"

definition outstanding :: "nat \<Rightarrow> 's dsys_scheme \<Rightarrow> nat" where
  "outstanding a w =
     owned_in a (q_items (cb_queue w)) + owned_in a (q_items (http_queue w)) +
     owned_in a (http_inflight w) + owned_in a (http_delayed w)"

definition chain_commands :: "change \<Rightarrow> command list" where
  "chain_commands c = concat (map (case_option [] (\<lambda>x. [x])) (ch_chain c))"

definition own_chain :: "nat \<Rightarrow> change \<Rightarrow> bool" where
  "own_chain a c \<longleftrightarrow> list_all (\<lambda>x. list_all (\<lambda>d. cmd_owner d \<in> {None, Some a}) (commands x)) (chain_commands c)"

text \<open>
  \<open>hand\<close>: the commands a thread holds while it works. \<open>sl a\<close>: by how much the count of the
  change \<open>a\<close> is too high, at least; 0 in a run without losses. A completed change has the
  count zero. No command is owned by an address that is not in use yet; and the database
  is in order.
\<close>

definition change_ok :: "nat \<Rightarrow> change \<Rightarrow> bool" where
  "change_ok a c \<longleftrightarrow> own_chain a c \<and> (ch_status c = CompletedS \<longrightarrow> ch_pending c = 0)"

definition work_ok :: "(nat \<Rightarrow> nat) \<Rightarrow> command list \<Rightarrow> 's dsys_scheme \<Rightarrow> bool" where
  "work_ok sl hand w \<longleftrightarrow>
     db_ok (w_db w) \<and>
     (\<forall>a < length (w_heap w).
        int (outstanding a w + owned_in a hand + owned_in a (chain_commands (w_heap w ! a)) + sl a)
          \<le> ch_pending (w_heap w ! a) \<and>
        change_ok a (w_heap w ! a)) \<and>
     (\<forall>a \<ge> length (w_heap w). outstanding a w + owned_in a hand + sl a = 0)"

lemma owned_in_simps [simp]:
  "owned_in a [] = 0" "owned_in a (c # cs) = owned a c + owned_in a cs"
  "owned_in a (cs @ ds) = owned_in a cs + owned_in a ds"
  by (simp_all add: owned_in_def)

lemma owned_command:
  "owned a c = (if cmd_owner c = Some a then 1 else 0) + owned_in a (cmd_next c)"
  by (cases c) (simp add: owned_def [abs_def] owned_in_def filter_concat length_concat o_def)

lemma owned_skel: "skel c = skel c' \<Longrightarrow> owned a c = owned a c'"
proof (induction c arbitrary: c' rule: skel.induct)
  case (1 k i d h ow ns)
  obtain d' h' ns' where c': "c' = Command k i d' h' ow ns'" "map skel ns = map skel ns'"
    using "1.prems" by (cases c') auto
  have l: "length ns = length ns'" using c'(2) by (rule map_eq_imp_length_eq)
  have "map (owned a) ns = map (owned a) ns'"
  proof (rule nth_equalityI)
    show "map (owned a) ns ! j = map (owned a) ns' ! j" if "j < length (map (owned a) ns)" for j
      using "1.IH" [of "ns ! j" "ns' ! j"] that l arg_cong [OF c'(2), of "\<lambda>xs. xs ! j"] by simp
  qed (use l in simp)
  then have "owned_in a ns = owned_in a ns'" by (simp add: owned_in_def)
  then show ?case using c'(1) by (simp add: owned_command)
qed

lemma owned_filter: "owned_in a (filter P cs) + owned_in a (filter (\<lambda>c. \<not> P c) cs) = owned_in a cs"
  by (induction cs) auto

lemma owned_remove:
  assumes "i < length cs"
  shows "owned_in a (take i cs @ drop (Suc i) cs) + owned a (cs ! i) = owned_in a cs"
proof -
  have "owned_in a (take i cs @ cs ! i # drop (Suc i) cs) = owned_in a cs"
    using id_take_nth_drop [OF assms] by simp
  then show ?thesis by simp
qed

lemma work_ok_less:
  "work_ok sl hand w \<Longrightarrow> (\<And>a. owned_in a hand' \<le> owned_in a hand) \<Longrightarrow> work_ok sl hand' w"
  unfolding work_ok_def
  by (smt (verit, best) add_eq_0_iff_both_eq_0 add_le_cancel_left add_le_cancel_right le_zero_eq of_nat_mono)

lemma work_ok_drop [intro]: "work_ok sl hand w \<Longrightarrow> work_ok sl [] w"
  by (erule work_ok_less) simp

text \<open>
  The other direction: no count is higher than the number of commands, and the count zero means
  completed. It holds where no command is lost, and needs handles that curl could make.
\<close>

definition all_paid :: "command list \<Rightarrow> 's dsys_scheme \<Rightarrow> bool" where
  "all_paid hand w \<longleftrightarrow>
     h_curl (w_h0 w) \<and>
     (\<forall>a < length (w_heap w).
        ch_pending (w_heap w ! a) \<le>
          int (outstanding a w + owned_in a hand + owned_in a (chain_commands (w_heap w ! a))) \<and>
        (ch_pending (w_heap w ! a) = 0 \<longrightarrow> ch_status (w_heap w ! a) = CompletedS))"

text \<open>
  Both are kept by the same operations, for the same reasons. An index chooses between them: some
  slack for the first, \<open>None\<close> for the second. After an exception the commands a thread held are lost.
\<close>

type_synonym ledger_kind = "(nat \<Rightarrow> nat) option"

definition ledger :: "ledger_kind \<Rightarrow> command list \<Rightarrow> 's dsys_scheme \<Rightarrow> bool" where
  "ledger k hand w = (case k of Some sl \<Rightarrow> work_ok sl hand w | None \<Rightarrow> all_paid hand w)"

definition ledger_end :: "ledger_kind \<Rightarrow> 's dsys_scheme \<Rightarrow> bool" where
  "ledger_end k w = (case k of Some sl \<Rightarrow> work_ok sl [] w | None \<Rightarrow> True)"

lemma ledger_simps [simp]:
  "ledger (Some sl) = work_ok sl" "ledger None = all_paid"
  "ledger_end (Some sl) = work_ok sl []" "ledger_end None = (\<lambda>_. True)"
  by (simp_all add: ledger_def ledger_end_def fun_eq_iff)

lemma ledger_drop [intro]: "ledger k hand w \<Longrightarrow> ledger_end k w"
  by (cases k) auto

lemma ledger_transfer:
  assumes "ledger k hand w" and "w_heap w1 = w_heap w" and "w_h0 w1 = w_h0 w" and "db_ok (w_db w) \<Longrightarrow> db_ok (w_db w1)"
    and "\<And>a. outstanding a w1 + owned_in a hand1 = outstanding a w + owned_in a hand"
  shows "ledger k hand1 w1"
proof (cases k)
  case None
  then show ?thesis using assms by (simp add: all_paid_def)
next
  case (Some sl)
  have "work_ok sl hand1 w1" unfolding work_ok_def
  proof (intro conjI allI impI)
    show "db_ok (w_db w1)" using assms(1,4) Some by (simp add: work_ok_def)
  next
    fix a assume "a < length (w_heap w1)"
    then have "int (outstanding a w + owned_in a hand + owned_in a (chain_commands (w_heap w1 ! a)) + sl a)
        \<le> ch_pending (w_heap w1 ! a) \<and> change_ok a (w_heap w1 ! a)"
      using assms(1,2) Some by (simp add: work_ok_def)
    then show "int (outstanding a w1 + owned_in a hand1 + owned_in a (chain_commands (w_heap w1 ! a)) + sl a)
        \<le> ch_pending (w_heap w1 ! a)" and "change_ok a (w_heap w1 ! a)"
      using assms(5) [of a] by simp_all
  next
    fix a assume "length (w_heap w1) \<le> a"
    then show "outstanding a w1 + owned_in a hand1 + sl a = 0"
      using assms(1,2) assms(5) [of a] Some by (simp add: work_ok_def)
  qed
  then show ?thesis using Some by simp
qed

lemma ledger_move:
  "ledger k hand w \<Longrightarrow> w_heap w1 = w_heap w \<Longrightarrow> w_h0 w1 = w_h0 w \<Longrightarrow> w_db w1 = w_db w \<Longrightarrow>
   (\<And>a. outstanding a w1 + owned_in a hand1 = outstanding a w + owned_in a hand) \<Longrightarrow> ledger k hand1 w1"
  by (rule ledger_transfer) simp_all

text \<open>The hand may be exchanged for one with as many commands of every owner.\<close>

lemma ledger_hand: "ledger k hand w \<Longrightarrow> (\<And>a. owned_in a hand1 = owned_in a hand) \<Longrightarrow> ledger k hand1 w"
  by (rule ledger_move) simp_all

text \<open>The parts of the state that the accounting is about.\<close>

definition same_work :: "'s dsys_scheme \<Rightarrow> 's dsys_scheme \<Rightarrow> bool" where
  "same_work w w1 \<longleftrightarrow>
     w_heap w1 = w_heap w \<and> w_h0 w1 = w_h0 w \<and> cb_queue w1 = cb_queue w \<and> http_queue w1 = http_queue w \<and>
     http_inflight w1 = http_inflight w \<and> http_delayed w1 = http_delayed w"

lemma same_work_refl [simp]: "same_work w w"
  by (simp add: same_work_def)

lemma same_work_trans: "same_work w w1 \<Longrightarrow> same_work w1 w2 \<Longrightarrow> same_work w w2"
  by (simp add: same_work_def)

lemma ledger_same:
  "same_work w w1 \<Longrightarrow> (db_ok (w_db w) \<Longrightarrow> db_ok (w_db w1)) \<Longrightarrow> ledger k hand w \<Longrightarrow> ledger k hand w1"
  by (erule ledger_transfer) (simp_all add: same_work_def outstanding_def)

text \<open>
  An action that touches neither them nor the table of the running changes nor the queue of the
  process loop, and keeps the database sound.
\<close>

definition calm :: "'s ssys_scheme \<Rightarrow> 's ssys_scheme \<Rightarrow> bool" where
  "calm w w1 \<longleftrightarrow> same_work w w1 \<and> sm_current w1 = sm_current w \<and> sm_buff w1 = sm_buff w \<and> (db_ok (w_db w) \<longrightarrow> db_ok (w_db w1))"

definition quiet :: "('s ssys_scheme, 'a) act \<Rightarrow> bool" where
  "quiet m \<longleftrightarrow> (\<forall>w. calm w (snd (m w)))"

interpretation cm: step_rel calm
  by unfold_locales (auto simp: calm_def elim: same_work_trans)

lemma quiet_ret [intro]: "quiet (ret x)" "quiet (throw e)" "quiet (lift_res r)" "quiet (query q)"
  by (simp_all add: quiet_def cm.R_refl)

lemma quiet_andThen [intro]:
  assumes "quiet m" and "\<And>x. quiet (f x)"
  shows "quiet (andThen m f)"
  using assms by (auto simp: quiet_def intro: cm.R_andThen)

lemma quiet_for_each [intro]: "(\<And>x. quiet (f x)) \<Longrightarrow> quiet (for_each f xs)"
  by (auto simp: quiet_def intro: cm.R_for_each)

text \<open>
  An action that keeps the ledgers of the given kinds, whatever the thread holds meanwhile; and the
  steps that no thread can notice in them.
\<close>

definition keeps_in :: "ledger_kind set \<Rightarrow> ('s dsys_scheme, 'a) act \<Rightarrow> bool" where
  "keeps_in K m \<longleftrightarrow> (\<forall>k \<in> K. \<forall>hand. valid (ledger k hand) m (\<lambda>_. ledger k hand) (ledger_end k))"

definition steady_in :: "ledger_kind set \<Rightarrow> 's dsys_scheme \<Rightarrow> 's dsys_scheme \<Rightarrow> bool" where
  "steady_in K w w1 \<longleftrightarrow> (\<forall>k \<in> K. \<forall>hand. ledger k hand w \<longrightarrow> ledger k hand w1)"

abbreviation counts :: "ledger_kind set" where
  "counts \<equiv> range Some"

abbreviation keeps :: "('s dsys_scheme, 'a) act \<Rightarrow> bool" where
  "keeps \<equiv> keeps_in counts"

abbreviation steady :: "'s dsys_scheme \<Rightarrow> 's dsys_scheme \<Rightarrow> bool" where
  "steady \<equiv> steady_in counts"

lemma keeps_def: "keeps m \<longleftrightarrow> (\<forall>sl hand. valid (work_ok sl hand) m (\<lambda>_. work_ok sl hand) (work_ok sl []))"
  by (simp add: keeps_in_def)

lemma steady_def: "steady w w1 \<longleftrightarrow> (\<forall>sl hand. work_ok sl hand w \<longrightarrow> work_ok sl hand w1)"
  by (simp add: steady_in_def)

lemma keepsD: "keeps m \<Longrightarrow> valid (work_ok sl hand) m (\<lambda>_. work_ok sl hand) (work_ok sl [])"
  by (simp add: keeps_def)

lemma keeps_inD: "keeps_in K m \<Longrightarrow> k \<in> K \<Longrightarrow> valid (ledger k hand) m (\<lambda>_. ledger k hand) (ledger_end k)"
  by (simp add: keeps_in_def)

lemma keeps_less: "keeps_in L m \<Longrightarrow> K \<subseteq> L \<Longrightarrow> keeps_in K m"
  by (auto simp: keeps_in_def)

interpretation st: step_rel "steady_in K"
  by unfold_locales (auto simp: steady_in_def)

lemma steadyD: "steady w w1 \<Longrightarrow> work_ok sl hand w \<Longrightarrow> work_ok sl hand w1"
  by (simp add: steady_def)

lemma steady_keeps: "(\<And>w. steady_in K w (snd (m w))) \<Longrightarrow> keeps_in K m"
  unfolding keeps_in_def steady_in_def by (blast intro: valid_state)

lemma calm_steady: "calm w w1 \<Longrightarrow> steady_in K w w1"
  unfolding steady_in_def calm_def by (meson ledger_same)

lemma quiet_steady: "quiet m \<Longrightarrow> steady_in K w (snd (m w))"
  unfolding quiet_def by (blast intro: calm_steady)

lemma quiet_keeps [intro]: "quiet m \<Longrightarrow> keeps_in K m"
  by (rule steady_keeps) (rule quiet_steady)

lemma keeps_andThen [intro]: "keeps_in K m \<Longrightarrow> (\<And>x. keeps_in K (f x)) \<Longrightarrow> keeps_in K (andThen m f)"
  unfolding keeps_in_def by (blast intro: valid_andThen)

lemma keeps_for_each [intro]: "(\<And>x. keeps_in K (f x)) \<Longrightarrow> keeps_in K (for_each f xs)"
  unfolding keeps_in_def by (blast intro: valid_for_each)

lemma quiet_db_call:
  assumes "\<And>rc d. db_ok d \<Longrightarrow> db_ok (snd (f rc d))"
  shows "quiet (db_call f)"
  using assms by (auto simp: quiet_def calm_def db_call_def same_work_def split: prod.splits) (metis snd_conv)

lemma quiet_db_call2:
  assumes "\<And>rc1 rc2 d. db_ok d \<Longrightarrow> db_ok (snd (f rc1 rc2 d))"
  shows "quiet (db_call2 f)"
  using assms by (auto simp: quiet_def calm_def db_call2_def same_work_def split: prod.splits) (metis snd_conv)

lemma quiet_fs [intro]: "quiet (fs_call g)" "quiet (fs_query q)"
  by (auto simp: quiet_def calm_def fs_call_def fs_query_def same_work_def split: prod.splits)

lemma quiet_log [intro]: "quiet (log_format s as)"
  by (simp add: quiet_def log_format_def cm.R_refl)

lemma quiet_writes [intro]:
  "quiet (db_call (\<lambda>rc. add_file rc r))" "quiet (db_call (\<lambda>rc. add_file_link rc r))"
  "quiet (db_call (\<lambda>rc. update_file_link_updated rc u))" "quiet (db_call (\<lambda>rc. update_file_updated rc u))"
  "quiet (db_call (\<lambda>rc. update_file_link_moved rc m))" "quiet (db_call (\<lambda>rc. update_file_moved rc m))"
  "quiet (db_call (\<lambda>rc. delete_file_and_links rc g))"
  by (rule quiet_db_call, simp add: writes_db_ok)+

lemma quiet_reads [intro]:
  "quiet (db_call (\<lambda>rc. getFileByFileId rc fid))" "quiet (db_call (\<lambda>rc. getFileByPath rc p))"
  "quiet (db_call (\<lambda>rc. get_cloud_file_id_by_cloud_id rc i g))"
  "quiet (db_call (\<lambda>rc. getFileByCloudIdAndGlobalId rc i g))" "quiet (db_call (\<lambda>rc. getGlobalIdByPath rc p))"
  "quiet (db_call2 (\<lambda>rc1 rc2. getCloudFileIdByPath rc1 rc2 p i))"
  by (rule quiet_db_call quiet_db_call2, simp)+

subsection \<open>What the workers rely on in a storage\<close>

text \<open>
  The operations of a storage leave queues and changes alone and keep the database sound; and
  what is set up is the handle that was given.
\<close>

definition makes :: "handle \<Rightarrow> handle res \<times> 'w \<Rightarrow> bool" where
  "makes h r \<longleftrightarrow> (\<forall>h1. fst r = Inr h1 \<longrightarrow> h_curl h1 = h_curl h)"

definition same_curl :: "handle \<Rightarrow> ('w, handle) act \<Rightarrow> bool" where
  "same_curl h m \<longleftrightarrow> (\<forall>w. makes h (m w))"

lemma makes_basic [simp]: "makes h (ret h1 w) \<longleftrightarrow> h_curl h1 = h_curl h" "makes h (throw e w)"
  by (auto simp: makes_def)

lemma makes_andThen: "(\<And>x w1. makes h (f x w1)) \<Longrightarrow> makes h (andThen m f w)"
  by (auto simp: makes_def andThen_def split: prod.splits sum.splits)

lemma makes_from:
  assumes "makes h (m w)" and f: "\<And>h1 w1. h_curl h1 = h_curl h \<Longrightarrow> makes h (f h1 w1)"
  shows "makes h (andThen m f w)"
proof (cases "m w")
  case (Pair r w1)
  show ?thesis
  proof (cases r)
    case (Inr h1)
    then have "h_curl h1 = h_curl h" using assms(1) Pair by (simp add: makes_def)
    then show ?thesis using f [of h1 w1] Pair Inr by simp
  qed (use Pair in \<open>simp add: makes_def\<close>)
qed

lemma same_curl_basic [simp]: "same_curl h (ret h1) \<longleftrightarrow> h_curl h1 = h_curl h" "same_curl h (throw e)"
  by (simp_all add: same_curl_def del: act_simps)

lemma same_curlD: "same_curl h m \<Longrightarrow> m w = (Inr h1, w1) \<Longrightarrow> h_curl h1 = h_curl h"
  unfolding same_curl_def by (drule spec [of _ w]) (simp add: makes_def)

locale storage_contract =
  fixes stores :: "int \<Rightarrow> ('s ssys_scheme) storage_ops"
  assumes set_up: "quiet (so_setup_upload (stores i) r h)" "quiet (so_setup_update (stores i) u h)"
      "quiet (so_setup_download_new (stores i) r h)" "quiet (so_setup_download_updated (stores i) u h)"
      "quiet (so_setup_delete (stores i) x h)" "quiet (so_setup_move (stores i) m h)"
    and proccess: "quiet (so_proccesUpload (stores i) r s)" "quiet (so_proccesUpdate (stores i) u s)"
      "quiet (so_proccesDelete (stores i) x s)" "quiet (so_proccesMove (stores i) m s)"
    and curl: "same_curl h (so_setup_upload (stores i) r h)" "same_curl h (so_setup_update (stores i) u h)"
      "same_curl h (so_setup_download_new (stores i) r h)" "same_curl h (so_setup_download_updated (stores i) u h)"
      "same_curl h (so_setup_delete (stores i) x h)" "same_curl h (so_setup_move (stores i) m h)"
begin

lemma quiet_upload_next: "quiet (upload_next ns r)"
  by (induction ns r rule: upload_next.induct)
     (auto intro!: quiet_andThen simp: Let_def simp del: act_simps split: prod.split)

lemma quiet_update_next: "quiet (update_next ns u)"
  by (induction ns u rule: update_next.induct)
     (auto intro!: quiet_andThen simp: Let_def simp del: act_simps split: prod.split)

lemma quiet_delete_next: "quiet (delete_next ns x)"
  by (induction ns x rule: delete_next.induct)
     (auto intro!: quiet_andThen simp: Let_def simp del: act_simps split: prod.split)

lemma quiet_move_next: "quiet (move_next ns m)"
  by (induction ns m rule: move_next.induct)
     (auto intro!: quiet_andThen simp: Let_def simp del: act_simps split: prod.split option.split)

lemmas quiet_next = quiet_upload_next quiet_update_next quiet_delete_next quiet_move_next

lemmas quiet_intros = quiet_andThen quiet_ret set_up proccess quiet_next quiet_writes quiet_reads quiet_fs quiet_log

lemma quiet_completion: "quiet (completion (stores i) c)"
proof -
  have l: "quiet (complete_LocalUpload (stores i) r ns)" "quiet (complete_LocalUpdate (stores i) u ns)"
    "quiet (complete_LocalMove (stores i) m ns)" "quiet (complete_CloudUpload (stores i) r s ns)"
    "quiet (complete_CloudUpdate (stores i) u s ns)" "quiet (complete_CloudMove (stores i) m s ns)"
    "quiet (complete_CloudDelete (stores i) x s ns)" "quiet (complete_download d ns)" for r u m x d s ns
    unfolding complete_defs by (auto intro!: quiet_intros simp del: act_simps split: prod.split)
  moreover have "quiet (complete_LocalDelete (stores i) x ns)" for x ns
    unfolding complete_LocalDelete_def
    by (auto intro!: quiet_intros simp: Let_def simp del: act_simps split: prod.split)
  ultimately show ?thesis
    by (cases c) (auto intro!: quiet_intros simp: Let_def simp del: act_simps
        split: prod.split cmd_kind.split dto.split option.split)
qed

lemma quiet_execute: "quiet (execute (stores i) h0 c)"
  by (cases c) (auto intro!: quiet_intros simp: Let_def simp del: act_simps split: dto.split option.split)

text \<open>A command that has been executed has a handle of curl.\<close>

lemma execute_curl:
  assumes "execute (stores i) h0 c w = (Inr c1, w1)" and "h_curl h0"
  shows "has_curl c1"
  using assms
  by (cases c) (auto simp: has_curl_def andThen_ok Let_def split: option.splits dto.splits if_splits
      dest!: curl [THEN same_curlD])

end

end
