(* ===== verification/Accounts.thy ===== *)
theory Accounts
  imports Work LocalProps
begin

text \<open>
  Every operation of the daemon keeps the accounts of \<open>Work\<close>: the factory, the local
  storage, the two workers, and the handling of changes.
\<close>

subsection \<open>Moving commands\<close>

lemma work_ok_transfer:
  assumes "work_ok sl hand w" and "w_heap w1 = w_heap w" and "db_ok (w_db w1)"
    and "\<And>a. outstanding a w1 + owned_in a hand1 \<le> outstanding a w + owned_in a hand"
  shows "work_ok sl hand1 w1"
  unfolding work_ok_def
proof (intro conjI allI impI)
  show "db_ok (w_db w1)" by (rule assms(3))
next
  fix a assume "a < length (w_heap w1)"
  then have "int (outstanding a w + owned_in a hand + owned_in a (chain_commands (w_heap w1 ! a)) + sl a)
      \<le> ch_pending (w_heap w1 ! a) \<and> change_ok a (w_heap w1 ! a)"
    using assms(1,2) by (simp add: work_ok_def)
  then show "int (outstanding a w1 + owned_in a hand1 + owned_in a (chain_commands (w_heap w1 ! a)) + sl a)
      \<le> ch_pending (w_heap w1 ! a)" and "change_ok a (w_heap w1 ! a)"
    using assms(4) [of a] by simp_all
next
  fix a assume "length (w_heap w1) \<le> a"
  then show "outstanding a w1 + owned_in a hand1 + sl a = 0"
    using assms(1,2) assms(4) [of a] by (simp add: work_ok_def)
qed

lemma work_ok_move:
  assumes "work_ok sl hand w" and "w_heap w1 = w_heap w" and "w_db w1 = w_db w"
    and "\<And>a. outstanding a w1 + owned_in a hand1 \<le> outstanding a w + owned_in a hand"
  shows "work_ok sl hand1 w1"
  by (rule work_ok_transfer [OF assms(1,2) _ assms(4)]) (use assms(1,3) in \<open>simp add: work_ok_def\<close>)

lemma work_ok_heap:
  assumes "work_ok sl hand w" and "length hp = length (w_heap w)"
    and "\<And>a. a < length hp \<Longrightarrow> change_ok a (hp ! a) \<and>
       int (owned_in a hand1 + owned_in a (chain_commands (hp ! a))) - ch_pending (hp ! a) \<le>
       int (owned_in a hand + owned_in a (chain_commands (w_heap w ! a))) - ch_pending (w_heap w ! a)"
    and "\<And>a. length hp \<le> a \<Longrightarrow> owned_in a hand1 = 0"
  shows "work_ok sl hand1 (w\<lparr>w_heap := hp\<rparr>)"
  unfolding work_ok_def
proof (intro conjI allI impI)
  show "db_ok (w_db (w\<lparr>w_heap := hp\<rparr>))" using assms(1) by (simp add: work_ok_def)
next
  fix a assume "a < length (w_heap (w\<lparr>w_heap := hp\<rparr>))"
  then have a: "a < length hp" "a < length (w_heap w)" using assms(2) by simp_all
  have "int (outstanding a w + owned_in a hand + owned_in a (chain_commands (w_heap w ! a)) + sl a)
      \<le> ch_pending (w_heap w ! a)"
    using assms(1) a by (simp add: work_ok_def)
  then show "int (outstanding a (w\<lparr>w_heap := hp\<rparr>) + owned_in a hand1 +
        owned_in a (chain_commands (w_heap (w\<lparr>w_heap := hp\<rparr>) ! a)) + sl a)
      \<le> ch_pending (w_heap (w\<lparr>w_heap := hp\<rparr>) ! a)" and "change_ok a (w_heap (w\<lparr>w_heap := hp\<rparr>) ! a)"
    using assms(3) [OF a(1)] by (simp_all add: outstanding_def)
next
  fix a assume "length (w_heap (w\<lparr>w_heap := hp\<rparr>)) \<le> a"
  then show "outstanding a (w\<lparr>w_heap := hp\<rparr>) + owned_in a hand1 + sl a = 0"
    using assms(1,2,4) by (simp add: work_ok_def outstanding_def)
qed

lemma cb_submit_ledger: "valid (ledger k (c # ex)) (cb_submit c) (\<lambda>_. ledger k ex) (ledger_end k)"
  unfolding cb_submit_def
proof (rule valid_andThen)
  show "valid (ledger k (c # ex)) (lift_res (getTarget c)) (\<lambda>_. ledger k (c # ex)) (ledger_end k)"
    by (rule valid_lift; (assumption | erule ledger_drop))
  show "valid (ledger k (c # ex))
      (modify (\<lambda>w. w\<lparr>cb_active := ac_increment (cb_active w), cb_queue := q_push c (cb_queue w)\<rparr>))
      (\<lambda>_. ledger k ex) (ledger_end k)" for x :: string
    by (rule valid_modify, rule ledger_move, assumption) (auto simp: outstanding_def q_push_def)
qed

lemma validD: "valid P m Q E \<Longrightarrow> P w \<Longrightarrow> case m w of (Inl e, w1) \<Rightarrow> E w1 | (Inr x, w1) \<Rightarrow> Q x w1"
  by (simp add: valid_def)

text \<open>Commands are submitted one by one out of the hand.\<close>

lemma valid_submit_all:
  assumes "\<And>c ex. valid (ledger k (c # ex)) (f c) (\<lambda>_. ledger k ex) (ledger_end k)"
  shows "valid (ledger k (cs @ ex)) (for_each f cs) (\<lambda>_. ledger k ex) (ledger_end k)"
proof (induction cs)
  case Nil
  show ?case unfolding for_each.simps by (rule valid_ret) simp
next
  case (Cons c cs)
  have "valid (ledger k (c # cs @ ex)) (f c) (\<lambda>_. ledger k (cs @ ex)) (ledger_end k)" by (rule assms)
  then show ?case unfolding for_each.simps append_Cons
    by (rule valid_andThen, intro valid_andThen [OF Cons.IH] valid_ret)
qed

lemma owned_in_skel: "map skel cs = map skel ds \<Longrightarrow> owned_in a cs = owned_in a ds"
proof (induction cs arbitrary: ds)
  case Nil
  then show ?case by simp
next
  case (Cons c cs)
  then obtain d ds' where "ds = d # ds'" "skel c = skel d" "map skel cs = map skel ds'"
    by (cases ds) auto
  then show ?case using Cons.IH owned_skel [of c d a] by simp
qed

lemma execute_skel: "execute ops h0 c w = (Inr c1, w1) \<Longrightarrow> skel c1 = skel c"
  by (cases c; cases "cmd_kind c"; cases "cmd_dto c")
     (auto simp: andThen_ok Let_def split: dto.splits option.splits)

text \<open>The hand may be exchanged for one with as many commands of every owner.\<close>

lemma work_ok_hand:
  "work_ok sl hand w \<Longrightarrow> (\<And>a. owned_in a hand1 = owned_in a hand) \<Longrightarrow> work_ok sl hand1 w"
  by (erule work_ok_less) simp

lemma valid_skel:
  fixes m :: "('s ssys_scheme, command) act"
  assumes "quiet m" and "\<And>w c1 w1. m w = (Inr c1, w1) \<Longrightarrow> skel c1 = skel c"
  shows "valid (ledger k (c # ex)) m (\<lambda>c1. ledger k (c1 # ex)) (ledger_end k)"
  unfolding valid_def
proof (intro allI impI)
  fix w :: "'s ssys_scheme"
  assume "ledger k (c # ex) w"
  then have *: "case m w of (Inl e, w1) \<Rightarrow> ledger_end k w1 | (Inr c1, w1) \<Rightarrow> ledger k (c # ex) w1"
    using keeps_inD [OF quiet_keeps [OF assms(1), of "{k}"], of k "c # ex"] by (simp add: valid_def)
  have "owned a c1 = owned a c" if "m w = (Inr c1, w1)" for a c1 w1
    using assms(2) [OF that] by (rule owned_skel)
  then show "case m w of (Inl e, w1) \<Rightarrow> ledger_end k w1 | (Inr c1, w1) \<Rightarrow> ledger k (c1 # ex) w1"
    using * by (auto elim!: ledger_hand split: prod.splits sum.splits)
qed

subsection \<open>The owner\<close>

lemma own_chain_pending [simp]:
  "own_chain a (c\<lparr>ch_pending := n\<rparr>) = own_chain a c" "own_chain a (c\<lparr>ch_status := st\<rparr>) = own_chain a c"
  "own_chain a (c\<lparr>ch_dependents := ds\<rparr>) = own_chain a c" "own_chain a (c\<lparr>ch_on_complete := oc\<rparr>) = own_chain a c"
  "chain_commands (c\<lparr>ch_pending := n\<rparr>) = chain_commands c" "chain_commands (c\<lparr>ch_status := st\<rparr>) = chain_commands c"
  "chain_commands (c\<lparr>ch_dependents := ds\<rparr>) = chain_commands c"
  "chain_commands (c\<lparr>ch_on_complete := oc\<rparr>) = chain_commands c"
  by (simp_all add: own_chain_def chain_commands_def)

lemma onCommandFinished_fields [simp]:
  "ch_pending (snd (onCommandFinished c)) = ch_pending c - 1"
  "ch_chain (snd (onCommandFinished c)) = ch_chain c"
  "own_chain a (snd (onCommandFinished c)) = own_chain a c"
  "chain_commands (snd (onCommandFinished c)) = chain_commands c"
  by (simp_all add: onCommandFinished_def Let_def split: option.split)

lemma finished_status:
  "ch_status (snd (onCommandFinished c)) = CompletedS \<longleftrightarrow> ch_pending c = 1 \<or> ch_status c = CompletedS"
  by (simp add: onCommandFinished_def Let_def split: option.split)

lemma nth_update_at: "b < length hp \<Longrightarrow> update_at a g hp ! b = (if b = a then g (hp ! b) else hp ! b)"
  by (simp add: update_at_def)

lemma notify_ok:
  assumes "work_ok sl (c # ex) w" and "notify_owner (cmd_owner c) (w_heap w) = (f, hp)"
  shows "work_ok sl (cmd_next c @ ex) (w\<lparr>w_heap := hp\<rparr>)"
proof (cases "cmd_owner c")
  case None
  then have "hp = w_heap w" "owned a c = owned_in a (cmd_next c)" for a
    using assms(2) by (simp_all add: notify_owner_def owned_command)
  then show ?thesis using work_ok_hand [OF assms(1)] by simp
next
  case (Some a)
  have a: "a < length (w_heap w)"
  proof (rule ccontr)
    assume "\<not> a < length (w_heap w)"
    then have "owned a c = 0" using assms(1) by (simp add: work_ok_def)
    then show False using Some by (simp add: owned_command)
  qed
  then have hp: "hp = update_at a (\<lambda>_. snd (onCommandFinished (w_heap w ! a))) (w_heap w)"
    using assms(2) Some by (auto simp: notify_owner_def deref_def split: prod.splits)
  show ?thesis
  proof (rule work_ok_heap [OF assms(1)])
    fix b assume "b < length hp"
    then have b: "b < length (w_heap w)" using hp by simp
    have k: "int (owned b c) \<le> ch_pending (w_heap w ! b)" "change_ok b (w_heap w ! b)"
      using assms(1) b by (force simp: work_ok_def)+
    show "change_ok b (hp ! b) \<and>
       int (owned_in b (cmd_next c @ ex) + owned_in b (chain_commands (hp ! b))) - ch_pending (hp ! b)
       \<le> int (owned_in b (c # ex) + owned_in b (chain_commands (w_heap w ! b))) - ch_pending (w_heap w ! b)"
    proof (cases "b = a")
      case True
      then have "ch_status (w_heap w ! a) \<noteq> CompletedS"
        using k Some by (auto simp: change_ok_def owned_command)
      then have "change_ok b (hp ! b)"
        using hp b k(2) True by (simp add: nth_update_at change_ok_def finished_status)
      then show ?thesis using hp b Some True by (simp add: nth_update_at owned_command)
    qed (use hp b k Some in \<open>simp add: nth_update_at owned_command\<close>)
  next
    fix b assume "length hp \<le> b"
    then show "owned_in b (cmd_next c @ ex) = 0"
      using assms(1) hp by (auto simp: work_ok_def owned_command)
  qed (use hp in simp)
qed

lemma notify_paid:
  assumes "all_paid (c # ex) w" and "notify_owner (cmd_owner c) (w_heap w) = (f, hp)"
  shows "all_paid (cmd_next c @ ex) (w\<lparr>w_heap := hp\<rparr>)"
proof (cases "cmd_owner c")
  case None
  then show ?thesis using assms by (simp add: notify_owner_def all_paid_def owned_command outstanding_def)
next
  case (Some a)
  have o: "owned b c = (if b = a then 1 else 0) + owned_in b (cmd_next c)" for b
    using Some by (simp add: owned_command)
  have w: "ch_pending (w_heap w ! b) \<le>
        int (outstanding b w + owned b c + owned_in b ex + owned_in b (chain_commands (w_heap w ! b))) \<and>
      (ch_pending (w_heap w ! b) = 0 \<longrightarrow> ch_status (w_heap w ! b) = CompletedS)" if "b < length (w_heap w)" for b
    using assms(1) that by (auto simp: all_paid_def add.assoc)
  show ?thesis
  proof (cases "a < length (w_heap w)")
    case False
    then have "hp = w_heap w" using assms(2) Some by (simp add: notify_owner_def deref_def)
    then show ?thesis using assms(1) w False by (auto simp: all_paid_def outstanding_def o)
  next
    case True
    then have hp: "hp = update_at a (\<lambda>_. snd (onCommandFinished (w_heap w ! a))) (w_heap w)"
      using assms(2) Some by (auto simp: notify_owner_def deref_def split: prod.splits)
    have "ch_pending (hp ! b) \<le>
        int (outstanding b w + (owned_in b (cmd_next c) + owned_in b ex) + owned_in b (chain_commands (hp ! b))) \<and>
      (ch_pending (hp ! b) = 0 \<longrightarrow> ch_status (hp ! b) = CompletedS)" if "b < length (w_heap w)" for b
      using w [OF that] that by (auto simp: hp nth_update_at o finished_status)
    then show ?thesis using assms(1) hp by (simp add: all_paid_def outstanding_def)
  qed
qed

lemma notify_ledger:
  "ledger k (c # ex) w \<Longrightarrow> notify_owner (cmd_owner c) (w_heap w) = (f, hp) \<Longrightarrow>
   ledger k (cmd_next c @ ex) (w\<lparr>w_heap := hp\<rparr>)"
  by (cases k) (simp_all add: notify_ok notify_paid)

lemma tell_owner_ledger:
  fixes oc :: "path \<Rightarrow> nat list \<Rightarrow> ('s ssys_scheme, unit) act"
  assumes "\<And>p deps. keeps_in {k} (oc p deps)"
  shows "valid (ledger k (c # ex)) (tell_owner oc (cmd_owner c)) (\<lambda>_. ledger k (cmd_next c @ ex)) (ledger_end k)"
  unfolding valid_def
proof (intro allI impI)
  fix w :: "'s ssys_scheme"
  assume w: "ledger k (c # ex) w"
  obtain f hp where n: "notify_owner (cmd_owner c) (w_heap w) = (f, hp)" by fastforce
  have k: "ledger k (cmd_next c @ ex) (w\<lparr>w_heap := hp\<rparr>)" by (rule notify_ledger [OF w n])
  show "case tell_owner oc (cmd_owner c) w of (Inl e, w1) \<Rightarrow> ledger_end k w1
        | (Inr x, w1) \<Rightarrow> ledger k (cmd_next c @ ex) w1"
    using k n ledger_drop [OF k] keeps_inD [OF assms, of k "cmd_next c @ ex"]
    by (cases f) (auto simp: tell_owner_def valid_def)
qed

subsection \<open>The workers\<close>

context storage_contract
begin

lemma execute_ledger:
  "valid (ledger k (c # ex)) (execute (stores i) h0 c) (\<lambda>c1. ledger k (c1 # ex)) (ledger_end k)"
  by (intro valid_skel quiet_execute) (rule execute_skel)

lemma completion_ledger:
  "valid (ledger k (c # ex)) (completion (stores i) c) (\<lambda>c1. ledger k (c1 # ex)) (ledger_end k)"
  by (intro valid_skel quiet_completion) (simp add: completion_spec)

lemma http_submit_ledger: "valid (ledger k (c # ex)) (http_submit stores c) (\<lambda>_. ledger k ex) (ledger_end k)"
  unfolding http_submit_def
proof (rule valid_andThen)
  show "valid (ledger k (c # ex)) (lift_res (getTarget c)) (\<lambda>_. ledger k (c # ex)) (ledger_end k)"
    by (rule valid_lift; (assumption | erule ledger_drop))
  show "valid (ledger k (c # ex)) (andThen (\<lambda>w. execute (stores (cmd_id c)) (w_h0 w) c w)
      (\<lambda>c1. if \<not> has_curl c1 then ret ()
            else modify (\<lambda>w. w\<lparr>http_active := ac_increment (http_active w), http_queue := q_push c1 (http_queue w)\<rparr>)))
      (\<lambda>_. ledger k ex) (ledger_end k)" for x :: string
  proof (rule valid_andThen)
    show "valid (ledger k (c # ex)) (\<lambda>w. execute (stores (cmd_id c)) (w_h0 w) c w)
        (\<lambda>c1 w. ledger k (c1 # ex) w \<and> (k = None \<longrightarrow> has_curl c1)) (ledger_end k)"
      unfolding valid_def
    proof (intro allI impI)
      fix w :: "'s ssys_scheme"
      assume w: "ledger k (c # ex) w"
      then have "h_curl (w_h0 w)" if "k = None" using that by (simp add: all_paid_def)
      then show "case execute (stores (cmd_id c)) (w_h0 w) c w of (Inl e, w1) \<Rightarrow> ledger_end k w1
          | (Inr c1, w1) \<Rightarrow> ledger k (c1 # ex) w1 \<and> (k = None \<longrightarrow> has_curl c1)"
        using validD [OF execute_ledger w, of "cmd_id c" "w_h0 w"] execute_curl [of "cmd_id c" "w_h0 w" c w]
        by (auto split: prod.splits sum.splits)
    qed
    show "valid (\<lambda>w. ledger k (c1 # ex) w \<and> (k = None \<longrightarrow> has_curl c1)) (if \<not> has_curl c1 then ret ()
            else modify (\<lambda>w :: 's ssys_scheme. w\<lparr>http_active := ac_increment (http_active w), http_queue := q_push c1 (http_queue w)\<rparr>))
      (\<lambda>_. ledger k ex) (ledger_end k)" for c1
    proof (cases "has_curl c1")
      case False
      have "ledger k ex w" if "ledger k (c1 # ex) w" "k \<noteq> None" for w :: "'s ssys_scheme"
        using that work_ok_less [of _ "c1 # ex" w ex] by (cases k) auto
      then show ?thesis using False by (auto intro!: valid_ret)
    next
      case True
      have t: "ledger k ex (w\<lparr>http_active := ac_increment (http_active w), http_queue := q_push c1 (http_queue w)\<rparr>)"
        if "ledger k (c1 # ex) w" for w :: "'s ssys_scheme"
        by (rule ledger_move [OF that]) (auto simp: outstanding_def q_push_def)
      show ?thesis by (simp only: True not_True_eq_False if_False) (rule valid_modify, erule t [OF conjunct1])
    qed
  qed
qed

lemma continueChain_ledger:
  "valid (ledger k (cmd_next c @ ex)) (continueChain stores c) (\<lambda>_. ledger k ex) (ledger_end k)"
  unfolding continueChain_def
  by (rule valid_andThen [OF valid_submit_all], simp add: cb_submit_ledger http_submit_ledger, rule valid_ret)

lemma completionCallback_ledger:
  assumes "\<And>p deps. keeps_in {k} (oc p deps)"
  shows "valid (ledger k (c # ex)) (completionCallback stores oc c) (\<lambda>_. ledger k ex) (ledger_end k)"
  unfolding completionCallback_def
  by (rule valid_andThen [OF completion_ledger], rule valid_andThen [OF tell_owner_ledger [OF assms]],
      rule continueChain_ledger)

lemma cb_worker_keeps:
  assumes "\<And>p deps. keeps_in K (oc p deps)"
  shows "keeps_in K (cb_worker_step stores oc)"
  unfolding keeps_in_def
proof (intro ballI allI)
  fix k hand
  assume k: "k \<in> K"
  have oc: "keeps_in {k} (oc p deps)" for p deps by (rule keeps_less [OF assms]) (use k in simp)
  let ?m = "\<lambda>c. andThen (lift_res (getTarget c))
            (\<lambda>_. andThen (completionCallback stores oc c)
            (\<lambda>_. andThen (if needRepeat c then http_submit stores c else ret ())
            (\<lambda>_. andThen cb_decrement (\<lambda>_. ret (Some True)))))"
  have *: "valid (ledger k (c # hand)) (?m c) (\<lambda>_. ledger k hand) (ledger_end k)" for c
  proof (rule valid_andThen)
    show "valid (ledger k (c # hand)) (lift_res (getTarget c)) (\<lambda>_. ledger k (c # hand)) (ledger_end k)"
      by (rule valid_lift; (assumption | erule ledger_drop))
    have d: "valid (ledger k hand) (cb_decrement :: ('s ssys_scheme, unit) act) (\<lambda>_. ledger k hand) (ledger_end k)"
      unfolding cb_decrement_def
      by (rule valid_modify, rule ledger_move, assumption) (auto simp: outstanding_def)
    show "valid (ledger k (c # hand)) (andThen (completionCallback stores oc c)
            (\<lambda>_. andThen (if needRepeat c then http_submit stores c else ret ())
            (\<lambda>_. andThen cb_decrement (\<lambda>_. ret (Some True))))) (\<lambda>_. ledger k hand) (ledger_end k)" for x :: string
      by (rule valid_andThen [OF completionCallback_ledger [OF oc]],
          simp only: needRepeat_def if_False, rule valid_andThen [OF valid_ret], assumption,
          rule valid_andThen [OF d], rule valid_ret)
  qed
  show "valid (ledger k hand) (cb_worker_step stores oc) (\<lambda>_. ledger k hand) (ledger_end k)"
    unfolding valid_def
  proof (intro allI impI)
    fix w :: "'s ssys_scheme"
    assume w: "ledger k hand w"
    have pop: "ledger k (c # hand) (w\<lparr>cb_queue := q\<rparr>)" if "q_pop (cb_queue w) = (Got c, q)" for c q
      by (rule ledger_move [OF w])
         (use that in \<open>auto simp: outstanding_def q_pop_def split: if_splits list.splits\<close>)
    have got: "case ?m c (w\<lparr>cb_queue := q\<rparr>) of (Inl e, w1) \<Rightarrow> ledger_end k w1 | (Inr x, w1) \<Rightarrow> ledger k hand w1"
      if "q_pop (cb_queue w) = (Got c, q)" for c q
      by (rule validD [OF *]) (rule pop [OF that])
    obtain r q where p: "q_pop (cb_queue w) = (r, q)" by fastforce
    show "case cb_worker_step stores oc w of (Inl e, w1) \<Rightarrow> ledger_end k w1 | (Inr x, w1) \<Rightarrow> ledger k hand w1"
    proof (cases r)
      case (Got c)
      then have "cb_worker_step stores oc w = ?m c (w\<lparr>cb_queue := q\<rparr>)"
        by (simp only: cb_worker_step_def p prod.case popped.case)
      then show ?thesis using got [of c q] p Got by (simp only:)
    qed (use p w in \<open>simp_all add: cb_worker_step_def\<close>)
  qed
qed

end

subsection \<open>The requests\<close>

lemma skel_with_handle [simp]: "skel (with_handle h c) = skel c"
  by (cases c) simp

lemma owned_with_handle [simp]: "owned a (with_handle h c) = owned a c"
  by (rule owned_skel) simp

lemma q_try_pop_got: "q_try_pop q = (Some c, q1) \<Longrightarrow> q_items q = c # q_items q1"
  by (auto simp: q_try_pop_def split: list.splits)

lemma q_pop_got: "q_pop q = (Got c, q1) \<Longrightarrow> q_items q = c # q_items q1"
  by (auto simp: q_pop_def split: if_splits list.splits)

text \<open>The limit is not reached, or there is nothing it could hit.\<close>

definition below_limit :: "'s dsys_scheme \<Rightarrow> bool" where
  "below_limit w \<longleftrightarrow> ac_get (http_active w) < MAX_CONCURRENT \<or> q_items (http_queue w) = []"

lemma http_admit_ledger:
  "ledger k hand w \<Longrightarrow> k \<noteq> None \<or> below_limit w \<Longrightarrow> ledger k hand (http_admit n w)"
proof (induction n w rule: http_admit.induct)
  case (1 w)
  then show ?case by simp
next
  case (2 n w)
  obtain r q where p: "q_try_pop (http_queue w) = (r, q)" by fastforce
  show ?case
  proof (cases r)
    case None
    then show ?thesis using p 2 by simp
  next
    case (Some c)
    have i: "q_items (http_queue w) = c # q_items q" by (rule q_try_pop_got [OF p [unfolded Some]])
    have a: "ledger k hand (http_add c (w\<lparr>http_queue := q\<rparr>))"
      by (rule ledger_move [OF "2.prems"(1)]) (simp_all add: i outstanding_def http_add_def)
    have l: "ledger k hand (w\<lparr>http_queue := q\<rparr>)" if "k = Some sl" for sl
      using "2.prems"(1) unfolding that ledger_simps
      by (rule work_ok_move) (simp_all add: i outstanding_def)
    have b: "below_limit (http_add c (w\<lparr>http_queue := q\<rparr>))" if "below_limit w"
      using that i by (auto simp: below_limit_def http_add_def)
    show ?thesis
    proof (cases "ac_get (http_active w) < MAX_CONCURRENT")
      case True
      then show ?thesis
        using "2.IH" [OF p [symmetric] Some True a] "2.prems"(2) b by (auto simp: http_admit.simps p Some simp del: not_None_eq)
    next
      case False
      then show ?thesis using l "2.prems"(2) i by (auto simp: http_admit.simps p Some below_limit_def)
    qed
  qed
qed

lemma http_take_ledger:
  assumes "ledger k hand w" and "http_take w = Some w1" and "k \<noteq> None \<or> below_limit w"
  shows "ledger k hand w1"
proof (cases "ac_idle (http_active w)")
  case False
  then show ?thesis using assms http_admit_ledger [OF assms(1,3)] by (auto simp: http_take_def simp del: http_admit.simps)
next
  case True
  obtain r q where p: "q_pop (http_queue w) = (r, q)" by fastforce
  have "ledger k hand (http_add c (w\<lparr>http_queue := q\<rparr>))" if "r = Got c" for c
    using q_pop_got [OF p [unfolded that]] by (auto intro!: ledger_move [OF assms(1)] simp: outstanding_def http_add_def)
  then show ?thesis using assms True p by (cases r) (auto simp: http_take_def)
qed

lemma checkDelayed_steady: "steady_in K w (checkDelayedRequests now w)"
proof (unfold steady_in_def, intro ballI allI impI, erule ledger_move)
  fix a hand
  show "outstanding a (checkDelayedRequests now w) + owned_in a hand = outstanding a w + owned_in a hand"
    using owned_filter [of a "is_due now" "http_delayed w"]
    by (simp add: outstanding_def checkDelayedRequests_def q_push_all_items)
qed (simp_all add: checkDelayedRequests_def)

lemma decrement_ledger: "ledger k hand w \<Longrightarrow> ledger k hand (http_decrement w)"
  by (erule ledger_move) (auto simp: http_decrement_def outstanding_def)

lemma scheduled_ledger:
  "ledger k (c # ex) w \<Longrightarrow> ledger k ex (w\<lparr>http_delayed := http_delayed w @ [with_handle h c]\<rparr>)"
  by (erule ledger_move) (auto simp: outstanding_def)

lemma ledger_lose: "ledger (Some sl) (c # ex) w \<Longrightarrow> ledger (Some sl) ex w"
  by (auto intro: work_ok_less)

definition answer_fails :: "answer \<Rightarrow> bool" where
  "answer_fails a \<longleftrightarrow> classify (an_ok a) (an_code a) \<in> {CurlFailed, HttpFailed}"

lemma http_message_ledger:
  assumes nf: "k \<noteq> None \<or> \<not> answer_fails a"
  shows "valid (ledger k hand) (http_message i a :: ('s dsys_scheme, unit) act) (\<lambda>_. ledger k hand) (ledger_end k)"
  unfolding valid_def
proof (intro allI impI)
  fix w :: "'s dsys_scheme"
  assume w: "ledger k hand w"
  show "case http_message i a w of (Inl e, w1) \<Rightarrow> ledger_end k w1 | (Inr x, w1) \<Rightarrow> ledger k hand w1"
  proof (cases "length (http_inflight w) \<le> i")
    case True
    then show ?thesis using ledger_drop [OF w] by (simp add: http_message_def)
  next
    case False
    let ?c = "http_inflight w ! i"
    obtain h1 fl where d: "deliver (an_body a) (case cmd_handle ?c of Some h \<Rightarrow> h | None \<Rightarrow> w_h0 w) = (h1, fl)"
      by fastforce
    let ?c1 = "with_handle h1 ?c"
    let ?w1 = "w\<lparr>http_inflight := take i (http_inflight w) @ drop (Suc i) (http_inflight w),
                 w_fs := (case fl of None \<Rightarrow> w_fs w | Some (p, s) \<Rightarrow> set_file p s (w_fs w))\<rparr>"
    let ?v = "case classify (an_ok a) (an_code a) of
                 CurlFailed \<Rightarrow> modify http_decrement
               | HttpFailed \<Rightarrow> modify http_decrement
               | RetryLater \<Rightarrow>
                   (\<lambda>w. case scheduleRetry (an_jitter a) (an_now a) h1 of
                      (Inl e, h2) \<Rightarrow> throw e w
                    | (Inr _, h2) \<Rightarrow> ret () (w\<lparr>http_delayed := http_delayed w @ [with_handle h2 ?c1]\<rparr>))
               | Succeeded \<Rightarrow> andThen (cb_submit ?c1) (\<lambda>_. modify http_decrement)"
    have "outstanding b ?w1 + owned b ?c = outstanding b w" for b
      using owned_remove [of i "http_inflight w" b] False by (simp add: outstanding_def)
    then have k: "ledger k (?c1 # hand) ?w1"
      by (intro ledger_move [OF w]) auto
    have lost: "valid (ledger k (?c1 # hand)) (modify http_decrement) (\<lambda>_. ledger k hand) (ledger_end k)" if af: "answer_fails a"
    proof -
      obtain sl where "k = Some sl" using nf af by (cases k) auto
      then show ?thesis by (auto intro!: valid_modify decrement_ledger [of "Some sl", simplified] elim: work_ok_less)
    qed
    have v: "valid (ledger k (?c1 # hand)) ?v (\<lambda>_. ledger k hand) (ledger_end k)"
    proof (cases "classify (an_ok a) (an_code a)")
      case RetryLater
      then show ?thesis
        by (auto simp: valid_def split: prod.split sum.split intro: ledger_drop intro!: scheduled_ledger)
    next
      case Succeeded
      have "valid (ledger k (?c1 # hand)) (andThen (cb_submit ?c1) (\<lambda>_. modify http_decrement)) (\<lambda>_. ledger k hand) (ledger_end k)"
        by (rule valid_andThen [OF cb_submit_ledger], rule valid_modify, erule decrement_ledger)
      then show ?thesis using Succeeded by simp
    qed (use lost in \<open>simp_all add: answer_fails_def\<close>)
    have g: "valid (ledger k (?c1 # hand)) (lift_res (getTarget ?c1)) (\<lambda>_. ledger k (?c1 # hand)) (ledger_end k)"
      by (rule valid_lift; (assumption | erule ledger_drop))
    have "http_message i a w = andThen (lift_res (getTarget ?c1)) (\<lambda>_. ?v) ?w1"
      using False d by (simp add: http_message_def Let_def)
    then show ?thesis using validD [OF valid_andThen [OF g v] k] by (simp only:)
  qed
qed

text \<open>A turn loses nothing when no answer is a failure and the limit is not hit.\<close>

definition loses_none :: "(nat \<times> answer) list \<Rightarrow> bool" where
  "loses_none messages \<longleftrightarrow> list_all (\<lambda>(i, a). \<not> answer_fails a) messages"

lemma http_turn_ledger:
  assumes "k \<noteq> None \<or> loses_none messages"
  shows "valid (ledger k hand) (andThen (for_each (\<lambda>(i, a). http_message i a :: ('s dsys_scheme, unit) act) messages)
            (\<lambda>_. andThen (modify (checkDelayedRequests now)) (\<lambda>_. ret x))) (\<lambda>_. ledger k hand) (ledger_end k)"
proof (rule valid_andThen [OF valid_for_each])
  fix m assume "m \<in> set messages"
  then have "k \<noteq> None \<or> \<not> answer_fails (snd m)"
    using assms by (auto simp: loses_none_def list_all_iff)
  then show "valid (ledger k hand) (case m of (i, a) \<Rightarrow> http_message i a) (\<lambda>_. ledger k hand) (ledger_end k)"
    using http_message_ledger [of k "snd m" hand "fst m"] by (simp add: case_prod_beta)
next
  show "valid (ledger k hand) (andThen (modify (checkDelayedRequests now)) (\<lambda>_. ret x)) (\<lambda>_. ledger k hand) (ledger_end k)" for u
    using checkDelayed_steady [of "{k}"] by (auto simp: valid_def steady_in_def)
qed

lemma http_worker_ledger:
  assumes "ledger k hand w" and "k \<noteq> None \<or> (below_limit w \<and> loses_none messages)"
  shows "case http_worker_step curl_ok messages now w of (Inl e, w1) \<Rightarrow> ledger_end k w1 | (Inr x, w1) \<Rightarrow> ledger k hand w1"
proof (cases "http_take w")
  case None
  then show ?thesis using assms by (simp add: http_worker_step_def)
next
  case (Some w1)
  have t: "ledger k hand w1" by (rule http_take_ledger [OF assms(1) Some]) (use assms(2) in blast)
  have m: "k \<noteq> None \<or> loses_none messages" using assms(2) by blast
  show ?thesis using assms(1) t Some validD [OF http_turn_ledger [OF m] t, of now "Some True"]
    by (simp add: http_worker_step_def)
qed

lemma http_worker_keeps: "keeps (http_worker_step curl_ok messages now)"
  unfolding keeps_in_def valid_def
proof (intro ballI allI impI)
  fix k hand and w :: "'a dsys_scheme"
  assume "k \<in> counts" and w: "ledger k hand w"
  then have "k \<noteq> None \<or> (below_limit w \<and> loses_none messages)" by auto
  from http_worker_ledger [OF w this]
  show "case http_worker_step curl_ok messages now w of (Inl e, w1) \<Rightarrow> ledger_end k w1 | (Inr x, w1) \<Rightarrow> ledger k hand w1" .
qed

subsection \<open>The local storage\<close>

lemma owned_le_size: "owned a c \<le> size_chain c"
  unfolding owned_def length_commands [symmetric] by (rule length_filter_le)

text \<open>A new change that counts its own commands.\<close>

lemma work_ok_alloc:
  assumes w: "work_ok sl hand w" and "change_ok (length (w_heap w)) c"
    and "int (owned_in (length (w_heap w)) (chain_commands c)) \<le> ch_pending c"
  shows "work_ok sl hand (w\<lparr>w_heap := w_heap w @ [c]\<rparr>)"
proof -
  let ?n = "length (w_heap w)" and ?w1 = "w\<lparr>w_heap := w_heap w @ [c]\<rparr>"
  have z: "outstanding ?n w = 0" "owned_in ?n hand = 0" "sl ?n = 0" using w by (simp_all add: work_ok_def)
  have "int (outstanding a w + owned_in a hand + owned_in a (chain_commands (w_heap ?w1 ! a)) + sl a)
        \<le> ch_pending (w_heap ?w1 ! a) \<and> change_ok a (w_heap ?w1 ! a)" if "a < Suc ?n" for a
  proof (cases "a = ?n")
    case True
    then show ?thesis using assms(2,3) z by (simp add: nth_append)
  next
    case False
    then show ?thesis using that w by (simp add: work_ok_def nth_append)
  qed
  then show ?thesis using w by (simp add: work_ok_def outstanding_def)
qed

lemma all_paid_alloc:
  assumes "all_paid hand w" and "ch_pending c \<le> int (owned_in (length (w_heap w)) (chain_commands c))"
    and "ch_pending c \<noteq> 0"
  shows "all_paid hand (w\<lparr>w_heap := w_heap w @ [c]\<rparr>)"
  using assms by (auto simp: all_paid_def outstanding_def nth_append less_Suc_eq)

lemma owned_all: "list_all (\<lambda>d. cmd_owner d = Some a) (commands c) \<Longrightarrow> owned a c = size_chain c"
  unfolding owned_def length_commands [symmetric] by (simp add: list_all_iff filter_True)

lemma size_chain_pos: "0 < size_chain c"
  by (cases c) simp

lemma emit_make_steady:
  fixes w :: "'s dsys_scheme"
  shows "steady_in K w (snd (emit (\<lambda>clouds. make_change (g clouds) ini ks ty tm p d src) w))"
proof (unfold steady_in_def, intro ballI allI impI)
  fix k hand
  assume w: "ledger k hand w"
  let ?n = "length (w_heap w)"
  let ?cmd = "head_command ini d ?n src (stage_tree (g (factory_clouds w)) ?n src ks)"
  let ?c = "(Change ty p tm src)\<lparr>ch_pending := int (size_chain ?cmd), ch_chain := [Some ?cmd]\<rparr>"
  let ?w1 = "w\<lparr>w_heap := w_heap w @ [?c]\<rparr>"
  have e: "snd (emit (\<lambda>clouds. make_change (g clouds) ini ks ty tm p d src) w) = ?w1\<lparr>ls_changes := q_push ?n (ls_changes w)\<rparr>"
    by (simp add: emit_def make_eq Let_def)
  have ow: "list_all (\<lambda>x. cmd_owner x = Some ?n) (commands ?cmd)"
    unfolding commands_head using stage_tree_owner [of ?n "g (factory_clouds w)" src ks]
    by (simp add: head_command_def)
  have own: "change_ok ?n ?c"
    using ow by (auto simp: change_ok_def own_chain_def chain_commands_def list_all_iff Change_def)
  have "ledger k hand ?w1"
  proof (cases k)
    case None
    have "all_paid hand ?w1"
      by (rule all_paid_alloc) (use w None owned_all [OF ow] size_chain_pos [of ?cmd] in \<open>simp_all add: chain_commands_def\<close>)
    then show ?thesis using None by simp
  next
    case (Some sl)
    then have "work_ok sl hand w" using w by simp
    then have "work_ok sl hand ?w1"
      by (rule work_ok_alloc [OF _ own]) (use owned_le_size [of ?n ?cmd] in \<open>simp add: chain_commands_def\<close>)
    then show ?thesis using Some by simp
  qed
  then have "ledger k hand (?w1\<lparr>ls_changes := q_push ?n (ls_changes w)\<rparr>)"
    by (rule ledger_move) (simp_all add: outstanding_def)
  then show "ledger k hand (snd (emit (\<lambda>clouds. make_change (g clouds) ini ks ty tm p d src) w))" by (simp only: e)
qed

lemma emit_steady:
  "steady_in K w (snd (emit (\<lambda>clouds. makeDelete clouds x) w))" "steady_in K w (snd (emit (\<lambda>clouds. makeLocalNew clouds r) w))"
  "steady_in K w (snd (emit (\<lambda>clouds. makeLocalUpdate clouds u) w))" "steady_in K w (snd (emit (\<lambda>clouds. makeLocalMove clouds m) w))"
  "steady_in K w (snd (emit (\<lambda>clouds. makeCloudNew clouds r) w))" "steady_in K w (snd (emit (\<lambda>clouds. makeCloudUpdate clouds u) w))"
  "steady_in K w (snd (emit (\<lambda>clouds. makeCloudMove clouds m) w))"
  unfolding make_defs by (rule emit_make_steady [where g = "\<lambda>clouds. clouds"])+

lemma quiet_registry [intro]: "quiet (expect p ct)" "quiet (expected p ct)" "quiet (push_event e)" "quiet onChange"
  by (auto simp: quiet_def calm_def expect_def expected_def push_event_def onChange_def same_work_def split: prod.splits)

lemma quiet_syncDbWrite [intro]:
  "quiet (syncDbWrite_record r)" "quiet (syncDbWrite_updated u)" "quiet (syncDbWrite_records rs)"
proof -
  show r: "quiet (syncDbWrite_record r)" for r
    unfolding syncDbWrite_record_def by (auto intro!: quiet_andThen simp del: act_simps)
  show "quiet (syncDbWrite_updated u)" unfolding syncDbWrite_updated_def by auto
  show "quiet (syncDbWrite_records rs)" unfolding syncDbWrite_records_def by (intro quiet_for_each r)
qed

lemma steady_queues [simp]:
  fixes w :: "'s ssys_scheme"
  shows "steady_in K w (w\<lparr>ls_events := q\<rparr>)" "steady_in K w (w\<lparr>ls_changes := r\<rparr>)" "steady_in K w (w\<lparr>ls_signal := b\<rparr>)"
  by (simp_all add: calm_steady calm_def same_work_def)

interpretation acc: local_poll "steady_in K :: 's ssys_scheme \<Rightarrow> 's ssys_scheme \<Rightarrow> bool"
  by unfold_locales (auto simp: emit_steady intro: quiet_steady)

lemma onFsEvent_quiet: "quiet (onFsEvent canon e)"
proof -
  have "calm w (snd (onFsEvent canon e w))" for w :: "'a ssys_scheme"
    by (auto simp: onFsEvent_def Let_def cm.R_refl split: effect_type.split
        intro!: cm.R_andThen quiet_registry [unfolded quiet_def, THEN spec])
  then show ?thesis by (simp add: quiet_def)
qed

lemma move_entry_calm: "calm w (snd (move_entry full w))"
  unfolding move_entry_def Let_def
  by (auto intro!: cm.R_andThen quiet_reads [unfolded quiet_def, THEN spec] quiet_writes [unfolded quiet_def, THEN spec]
      quiet_fs [unfolded quiet_def, THEN spec] simp: cm.R_refl split: option.split)

lemma local_proccess_quiet:
  "quiet (local_proccesUpload xxh64 r s)" "quiet (local_proccesUpdate xxh64 u s)"
  "quiet (local_proccesMove m s)" "quiet (local_proccesDelete x s)"
proof -
  note q = quiet_writes quiet_reads quiet_fs quiet_log quiet_registry quiet_ret
  note p = q [unfolded quiet_def, THEN spec]
  show "quiet (local_proccesUpload xxh64 r s)"
    unfolding quiet_def local_proccesUpload_def Let_def
    by (auto intro!: cm.R_andThen p simp: cm.R_refl)
  show "quiet (local_proccesUpdate xxh64 u s)"
    unfolding quiet_def local_proccesUpdate_def Let_def
    by (auto intro!: cm.R_andThen p simp: cm.R_refl)
  show "quiet (local_proccesMove m s)"
    unfolding quiet_def local_proccesMove_def Let_def
    by (auto intro!: cm.R_andThen cm.R_for_each p move_entry_calm simp: cm.R_refl)
  show "quiet (local_proccesDelete x s)"
    unfolding quiet_def local_proccesDelete_def
    by (auto intro!: p simp: cm.R_refl)
qed

interpretation local_only: storage_contract "\<lambda>i. if i = 0 then local_ops xxh64 else null_ops"
  by unfold_locales (auto simp: local_ops_def null_ops_def intro: local_proccess_quiet)

subsection \<open>Handling changes\<close>

lemma run_query_state: "run_query rc q d = (r, d1) \<Longrightarrow> d1 = d"
  using run_query_frame [of rc q d] by simp

lemma missing_loop_frame: "snd (missing_loop rcs n norm accum ss i d) = d"
  by (induction ss arbitrary: accum i)
     (auto simp: Let_def sql_prepare_def sql_finalize_def dest!: run_query_state split: prod.splits option.splits)

lemma quiet_getMissing: "quiet (getMissing p)"
  by (auto simp: quiet_def calm_def same_work_def getMissing_def db_call_seq_def getMissingPathPart_def Let_def
      split: prod.splits) (metis missing_loop_frame snd_conv)

lemma quiet_link: "quiet (link_global_id ids e)"
  unfolding link_global_id_def by (auto split: option.split simp del: act_simps)

lemma quiet_deref: "quiet (deref_change a)"
  by (simp add: quiet_def deref_change_def cm.R_refl split: option.split)

lemma modify_change_keeps:
  assumes "\<And>c b. own_chain b (g c) \<longleftrightarrow> own_chain b c" and "\<And>c. chain_commands (g c) = chain_commands c"
    and "\<And>c. ch_pending (g c) = ch_pending c" and "\<And>c. ch_status (g c) = ch_status c"
  shows "keeps_in K (modify_change a g)"
proof (rule steady_keeps, unfold steady_in_def, intro ballI allI impI)
  fix k hand and w :: "'a dsys_scheme"
  assume w: "ledger k hand w"
  have "ledger k hand (w\<lparr>w_heap := update_at a g (w_heap w)\<rparr>)"
  proof (cases k)
    case None
    then show ?thesis using w assms by (auto simp: all_paid_def outstanding_def nth_update_at)
  next
    case (Some sl)
    then have "work_ok sl hand w" using w by simp
    then have "work_ok sl hand (w\<lparr>w_heap := update_at a g (w_heap w)\<rparr>)"
      by (rule work_ok_heap) (use w assms Some in \<open>auto simp: nth_update_at work_ok_def change_ok_def\<close>)
    then show ?thesis using Some by simp
  qed
  then show "ledger k hand (snd (modify_change a g w))" by (simp add: modify_change_def)
qed

lemma setters_keep: "keeps_in K (modify_change a (setOnComplete p))" "keeps_in K (modify_change a (addDependent b))"
  by (rule modify_change_keeps, simp_all add: setOnComplete_def addDependent_def)+

lemma chain_commands_some: "all_some xs = Inr cs \<Longrightarrow> concat (map (case_option [] (\<lambda>x. [x])) xs) = cs"
  by (induction xs arbitrary: cs rule: all_some.induct) (auto split: sum.splits)

lemma dispatch_cases:
  assumes "dispatch c = (r, c1)"
  obtains (fails) e where "r = Inl e" "c1 = c\<lparr>ch_chain := map (\<lambda>_. None) (ch_chain c)\<rparr>"
    | (goes) "r = Inr (Inl (chain_commands c)) \<or> r = Inr (Inr (chain_commands c))"
        "c1 = c\<lparr>ch_chain := map (\<lambda>_. None) (ch_chain c)\<rparr>"
  using assms chain_commands_some [of "ch_chain c"]
  by (auto simp: dispatch_def chain_commands_def Let_def split: sum.splits list.splits if_splits)

text \<open>\<open>dispatch\<close> takes the chain out of the change: its commands are in the hand.\<close>

lemma dispatched_ok:
  assumes w: "work_ok sl hand w" and c: "deref (w_heap w) a = Some c" and d: "dispatch c = (r, c1)"
  shows "work_ok sl (case r of Inl e \<Rightarrow> hand | Inr (Inl cs) \<Rightarrow> cs @ hand | Inr (Inr cs) \<Rightarrow> cs @ hand)
           (w\<lparr>w_heap := update_at a (\<lambda>_. c1) (w_heap w)\<rparr>)"
proof -
  let ?cs = "case r of Inl e \<Rightarrow> [] | Inr (Inl cs) \<Rightarrow> cs | Inr (Inr cs) \<Rightarrow> cs"
  have a: "a < length (w_heap w)" and ca: "w_heap w ! a = c" using c by (auto simp: deref_def split: if_splits)
  have c1: "chain_commands c1 = []" "ch_pending c1 = ch_pending c" "ch_status c1 = ch_status c"
    using d by (auto elim!: dispatch_cases simp: chain_commands_def o_def)
  have cs: "set ?cs \<subseteq> set (chain_commands c)"
    using d by (cases rule: dispatch_cases) auto
  have cs_le: "owned_in b ?cs \<le> owned_in b (chain_commands c)" for b
    using d by (cases rule: dispatch_cases) auto
  have own: "own_chain a c" using w a ca by (auto simp: work_ok_def change_ok_def)
  have other: "owned_in b ?cs = 0" if "b \<noteq> a" for b
  proof -
    have "owned b x = 0" if "x \<in> set ?cs" for x
      using own cs that \<open>b \<noteq> a\<close>
      by (fastforce simp: own_chain_def list_all_iff owned_def filter_empty_conv)
    then show ?thesis by (simp add: owned_in_def)
  qed
  have "work_ok sl (?cs @ hand) (w\<lparr>w_heap := update_at a (\<lambda>_. c1) (w_heap w)\<rparr>)"
  proof (rule work_ok_heap [OF w])
    fix b assume b: "b < length (update_at a (\<lambda>_. c1) (w_heap w))"
    then have "change_ok b (w_heap w ! b)" using w by (simp add: work_ok_def)
    then show "change_ok b (update_at a (\<lambda>_. c1) (w_heap w) ! b) \<and>
       int (owned_in b (?cs @ hand) + owned_in b (chain_commands (update_at a (\<lambda>_. c1) (w_heap w) ! b)))
         - ch_pending (update_at a (\<lambda>_. c1) (w_heap w) ! b) \<le>
       int (owned_in b hand + owned_in b (chain_commands (w_heap w ! b))) - ch_pending (w_heap w ! b)"
      using b c1 ca cs_le [of a] other [of b]
      by (cases "b = a") (auto simp: nth_update_at change_ok_def own_chain_def)
  next
    fix b assume "length (update_at a (\<lambda>_. c1) (w_heap w)) \<le> b"
    then show "owned_in b (?cs @ hand) = 0" using w a other [of b] by (simp add: work_ok_def)
  qed simp
  then show ?thesis by (simp split: sum.splits)
qed

lemma dispatched_paid:
  assumes w: "all_paid hand w" and c: "deref (w_heap w) a = Some c" and d: "dispatch c = (Inr to, c1)"
  shows "all_paid ((case to of Inl cs \<Rightarrow> cs | Inr cs \<Rightarrow> cs) @ hand) (w\<lparr>w_heap := update_at a (\<lambda>_. c1) (w_heap w)\<rparr>)"
proof -
  have a: "a < length (w_heap w)" and ca: "w_heap w ! a = c" using c by (auto simp: deref_def split: if_splits)
  have c1: "(case to of Inl cs \<Rightarrow> cs | Inr cs \<Rightarrow> cs) = chain_commands c" "ch_pending c1 = ch_pending c" "ch_status c1 = ch_status c"
    "chain_commands c1 = []"
    using d by (auto elim!: dispatch_cases simp: chain_commands_def o_def)
  show ?thesis using w a ca c1 unfolding all_paid_def by (auto simp: nth_update_at outstanding_def)
qed

lemma dispatched_ledger:
  assumes "ledger k hand w" and "deref (w_heap w) a = Some c" and "dispatch c = (r, c1)"
  shows "case r of Inl e \<Rightarrow> ledger_end k (w\<lparr>w_heap := update_at a (\<lambda>_. c1) (w_heap w)\<rparr>)
    | Inr to \<Rightarrow> ledger k ((case to of Inl cs \<Rightarrow> cs | Inr cs \<Rightarrow> cs) @ hand) (w\<lparr>w_heap := update_at a (\<lambda>_. c1) (w_heap w)\<rparr>)"
proof (cases k)
  case None
  then show ?thesis using assms dispatched_paid [of hand w a c] by (auto split: sum.split)
next
  case (Some sl)
  then have "work_ok sl hand w" using assms(1) by simp
  from dispatched_ok [OF this assms(2,3)] Some show ?thesis by (auto split: sum.splits)
qed

context storage_contract
begin

lemma dispatch_change_keeps: "keeps_in K (dispatch_change stores a)"
  unfolding keeps_in_def valid_def
proof (intro ballI allI impI)
  fix k hand and w :: "'s ssys_scheme"
  assume w: "ledger k hand w"
  show "case dispatch_change stores a w of (Inl e, w1) \<Rightarrow> ledger_end k w1 | (Inr x, w1) \<Rightarrow> ledger k hand w1"
  proof (cases "deref (w_heap w) a")
    case None
    then show ?thesis using ledger_drop [OF w] by (simp add: dispatch_change_def deref_change_def andThen_def)
  next
    case (Some c)
    obtain r c1 where d: "dispatch c = (r, c1)" by fastforce
    let ?w1 = "w\<lparr>w_heap := update_at a (\<lambda>_. c1) (w_heap w)\<rparr>"
    let ?go = "\<lambda>to. andThen (case to of Inl cmds \<Rightarrow> for_each cb_submit cmds
                                | Inr cmds \<Rightarrow> for_each (http_submit stores) cmds) (\<lambda>_. ret ())"
    note led = dispatched_ledger [OF w Some d]
    have eq: "dispatch_change stores a w = andThen (lift_res r) ?go ?w1"
      using Some d by (simp add: dispatch_change_def deref_change_def andThen_def modify_change_def)
    show ?thesis
    proof (cases r)
      case (Inl e)
      then show ?thesis using led eq by simp
    next
      case (Inr to)
      have v: "valid (ledger k ((case to of Inl cs \<Rightarrow> cs | Inr cs \<Rightarrow> cs) @ hand)) (?go to) (\<lambda>_. ledger k hand) (ledger_end k)"
        by (cases to; simp; intro valid_andThen [OF valid_submit_all] cb_submit_ledger http_submit_ledger valid_ret)
      have "ledger k ((case to of Inl cs \<Rightarrow> cs | Inr cs \<Rightarrow> cs) @ hand) ?w1" using led Inr by simp
      from validD [OF v this] show ?thesis using eq Inr by simp
    qed
  qed
qed

end

lemma local_createPath_quiet: "quiet (local_createPath p missing)"
proof -
  have "calm w (snd (create_loop accum ss w))" for accum ss and w :: "'a ssys_scheme"
  proof (induction ss arbitrary: accum w)
    case Nil
    show ?case by (simp add: cm.R_refl)
  next
    case (Cons s ss)
    show ?case unfolding create_loop.simps Let_def
      by (auto intro!: cm.R_andThen Cons quiet_fs [unfolded quiet_def, THEN spec]
          quiet_registry [unfolded quiet_def, THEN spec] simp: cm.R_refl)
  qed
  then show ?thesis by (simp add: quiet_def local_createPath_def)
qed

text \<open>What the daemon relies on: the storages, what happens while it waits, and \<open>createPath\<close>.\<close>

locale daemon_env = storage_contract stores for stores :: "int \<Rightarrow> ('s ssys_scheme) storage_ops" +
  fixes K :: "ledger_kind set"
    and wait :: "('s ssys_scheme, unit) act"
    and create_in :: "int \<Rightarrow> path \<Rightarrow> path \<Rightarrow> ('s ssys_scheme, file_record_dto list) act"
  assumes wait_keeps: "keeps_in K wait"
    and create_keeps: "keeps_in K (create_in i p missing)"
begin

lemma sm_createPath_keeps: "keeps_in K (sm_createPath wait create_in p missing)"
  unfolding sm_createPath_def Let_def
  by (intro keeps_andThen keeps_for_each wait_keeps create_keeps quiet_keeps [OF local_createPath_quiet]
      quiet_keeps [OF quiet_syncDbWrite(3)] quiet_keeps [OF quiet_link] quiet_keeps [OF quiet_ret(1)]
      quiet_keeps [OF quiet_ret(4)])

lemma ensure_path_keeps: "keeps_in K (ensure_path wait create_in p)"
  unfolding ensure_path_def
  by (rule keeps_andThen [OF quiet_keeps [OF quiet_getMissing]])
     (simp add: sm_createPath_keeps quiet_keeps quiet_ret)

lemma set_current_keeps: "keeps_in K (modify (\<lambda>w. w\<lparr>sm_current := f w\<rparr>))"
  by (rule steady_keeps) (auto simp: steady_in_def same_work_def intro: ledger_same [rotated 2])

lemma startChange_keeps: "keeps_in K (startChange stores p a)"
  unfolding startChange_def
  by (intro keeps_andThen setters_keep set_current_keeps dispatch_change_keeps)

lemma handleChange_keeps: "keeps_in K (handleChange stores wait create_in a)"
proof -
  have b: "keeps_in K (case cur of None \<Rightarrow>
              andThen (if ch_type c = New then ensure_path wait create_in (parent_path (ch_path c)) else ret ())
                (\<lambda>_. startChange stores (ch_path c) a)
            | Some b \<Rightarrow> modify_change b (addDependent a))" for cur c
    by (cases cur) (auto intro!: keeps_andThen ensure_path_keeps startChange_keeps setters_keep
        quiet_keeps [OF quiet_ret(1)] simp del: act_simps)
  show ?thesis unfolding handleChange_def Let_def
    by (rule keeps_andThen [OF quiet_keeps [OF quiet_deref]], rule keeps_andThen [OF quiet_keeps [OF quiet_ret(3)]])
       (simp add: ensure_path_keeps keeps_andThen [OF quiet_keeps [OF quiet_ret(4)] b])
qed

lemma onChangeCompleted_keeps: "keeps_in K (onChangeCompleted stores wait create_in p deps)"
  unfolding onChangeCompleted_def
  by (intro keeps_andThen set_current_keeps keeps_for_each handleChange_keeps quiet_keeps [OF quiet_ret(1)])

lemma process_step_keeps: "keeps_in K (process_step stores wait create_in)"
  unfolding keeps_in_def valid_def
proof (intro ballI allI impI)
  fix k hand and w :: "'s ssys_scheme"
  assume k: "k \<in> K" and w: "ledger k hand w"
  obtain r q where p: "q_pop (sm_buff w) = (r, q)" by fastforce
  show "case process_step stores wait create_in w of (Inl e, w1) \<Rightarrow> ledger_end k w1 | (Inr x, w1) \<Rightarrow> ledger k hand w1"
  proof (cases r)
    case (Got a)
    have "ledger k hand (w\<lparr>sm_buff := q\<rparr>)"
      by (rule ledger_move [OF w]) (simp_all add: outstanding_def)
    moreover have "keeps_in K (andThen (handleChange stores wait create_in a) (\<lambda>_. ret (Some True)))"
      by (intro keeps_andThen handleChange_keeps quiet_keeps [OF quiet_ret(1)])
    ultimately show ?thesis using validD [OF keeps_inD [OF _ k]] p Got by (simp add: process_step_def)
  qed (use p w in \<open>simp_all add: process_step_def\<close>)
qed

end

end
