(* ===== verification/Clouds.thy ===== *)
theory Clouds
  imports GoogleChanges DropboxChanges Accounts
begin

text \<open>
  The two clouds under the contract of the daemon: whatever the servers answer, the operations
  of a cloud leave the queues of the workers and the other changes alone and keep the database
  sound, so the accounting of \<open>Work\<close> holds for the daemon with all its storages.
\<close>

subsection \<open>Quiet parts\<close>

lemma calmD: "quiet m \<Longrightarrow> calm w (snd (m w))"
  by (simp add: quiet_def)

lemma quiet_upd [intro]: "quiet (upd_google i g)" "quiet (upd_dropbox i k)"
  by (simp_all add: quiet_def calm_def upd_google_def upd_dropbox_def same_work_def)

lemma quiet_http_sync [intro]: "quiet (http_sync h)"
  by (simp add: quiet_def calm_def http_sync_def same_work_def split: prod.splits)

lemma quiet_open_stream [intro]: "quiet (open_stream p m h)"
  by (simp add: quiet_def calm_def open_stream_def same_work_def split: open_mode.splits prod.splits)

lemma quiet_ask [intro]: "quiet (ask J h)"
  unfolding ask_def by (intro quiet_andThen quiet_http_sync quiet_ret)

lemma quiet_expects [intro]:
  "quiet (gd_expect i k ct)" "quiet (gd_expect_path i p ct)" "quiet (dx_expect i k ct)" "quiet (dx_expect_path i p ct)"
  unfolding gd_expect_def gd_expect_path_def dx_expect_def dx_expect_path_def by (rule quiet_upd)+

lemma quiet_links [intro]:
  "quiet (db_call (\<lambda>rc. getFileByCloudIdAndCloudFileId rc c s))" "quiet (db_call (\<lambda>rc. getPathByGlobalId rc g))"
  by (rule quiet_db_call, simp)+

lemma quiet_signals [intro]: "quiet (gd_onChange i)" "quiet (dx_onChange i)"
  by (simp_all add: quiet_def calm_def gd_onChange_def dx_onChange_def same_work_def)

lemmas quiet_parts = quiet_ret quiet_upd quiet_http_sync quiet_open_stream quiet_ask quiet_expects quiet_links
  quiet_signals quiet_reads(6)

lemmas calm_parts = cm.R_andThen cm.R_refl quiet_parts [THEN calmD]

lemmas gd_setups = gd_setupUploadHandle_def gd_setupUpdateHandle_def gd_setupMoveHandle_def gd_setupDeleteHandle_def
  gd_setupDownload_record_def gd_setupDownload_updated_def gd_setupDownload_def gd_upload_parent_def

lemma google_contract:
  "quiet (so_setup_upload (google_ops J i) r h)" "quiet (so_setup_update (google_ops J i) u h)"
  "quiet (so_setup_download_new (google_ops J i) r h)" "quiet (so_setup_download_updated (google_ops J i) u h)"
  "quiet (so_setup_delete (google_ops J i) x h)" "quiet (so_setup_move (google_ops J i) m h)"
  "quiet (so_proccesUpload (google_ops J i) r s)" "quiet (so_proccesUpdate (google_ops J i) u s)"
  "quiet (so_proccesDelete (google_ops J i) x s)" "quiet (so_proccesMove (google_ops J i) m s)"
  unfolding quiet_def google_ops_def gd_setups gd_proccesUpload_def gd_proccesUpdate_def gd_proccesDelete_def
    gd_proccesMove_def Let_def storage_ops.simps
  by (auto intro!: calm_parts simp del: act_simps andThen_basic)


lemmas dx_setups = dx_setupUploadHandle_def dx_setupUpdateHandle_def dx_setupMoveHandle_def dx_setupDeleteHandle_def
  dx_setupDownload_record_def dx_setupDownload_updated_def dx_setupDownload_def

lemma dropbox_contract:
  "quiet (so_setup_upload (dropbox_ops J i) r h)" "quiet (so_setup_update (dropbox_ops J i) u h)"
  "quiet (so_setup_download_new (dropbox_ops J i) r h)" "quiet (so_setup_download_updated (dropbox_ops J i) u h)"
  "quiet (so_setup_delete (dropbox_ops J i) x h)" "quiet (so_setup_move (dropbox_ops J i) m h)"
  "quiet (so_proccesUpload (dropbox_ops J i) r s)" "quiet (so_proccesUpdate (dropbox_ops J i) u s)"
  "quiet (so_proccesDelete (dropbox_ops J i) x s)" "quiet (so_proccesMove (dropbox_ops J i) m s)"
  unfolding quiet_def dropbox_ops_def dx_setups dx_proccesUpload_def dx_proccesUpdate_def dx_proccesDelete_def
    dx_proccesMove_def Let_def storage_ops.simps
  by (auto intro!: calm_parts simp del: act_simps andThen_basic)

text \<open>The handles that are set up are the ones that were given.\<close>

lemma handle_curl [simp]:
  "h_curl (addHeaders s h) = h_curl h" "h_curl (setCommonCURLOpt h) = h_curl h"
  "h_curl (setopt c h) = h_curl h" "h_curl (clear_response h) = h_curl h" "h_curl (set_mime ps h) = h_curl h"
  by (simp_all add: set_mime_def addHeaders_def setCommonCURLOpt_def setopt_def clear_response_def Let_def)

lemma setFileStream_curl: "setFileStream p m d h = Inr h1 \<Longrightarrow> h_curl h1 = h_curl h"
  by (auto simp: setFileStream_def split: option.splits open_mode.splits if_splits)

lemma open_stream_makes: "h_curl h1 = h_curl h \<Longrightarrow> makes h (open_stream p m h1 w)"
  by (auto simp: makes_def open_stream_def split: open_mode.splits prod.splits dest!: setFileStream_curl)

lemma google_curl:
  "same_curl h (so_setup_upload (google_ops J i) r h)" "same_curl h (so_setup_update (google_ops J i) u h)"
  "same_curl h (so_setup_download_new (google_ops J i) r h)" "same_curl h (so_setup_download_updated (google_ops J i) u h)"
  "same_curl h (so_setup_delete (google_ops J i) x h)" "same_curl h (so_setup_move (google_ops J i) m h)"
  unfolding same_curl_def google_ops_def gd_setups Let_def storage_ops.simps
  by (intro allI; (rule makes_from [OF open_stream_makes] | rule makes_andThen open_stream_makes | simp del: act_simps andThen_basic
      | intro conjI impI)+)+

lemma dropbox_curl:
  "same_curl h (so_setup_upload (dropbox_ops J i) r h)" "same_curl h (so_setup_update (dropbox_ops J i) u h)"
  "same_curl h (so_setup_download_new (dropbox_ops J i) r h)" "same_curl h (so_setup_download_updated (dropbox_ops J i) u h)"
  "same_curl h (so_setup_delete (dropbox_ops J i) x h)" "same_curl h (so_setup_move (dropbox_ops J i) m h)"
  unfolding same_curl_def dropbox_ops_def dx_setups dx_json_request_def Let_def storage_ops.simps
  by (intro allI; (rule makes_from [OF open_stream_makes] | rule makes_andThen open_stream_makes | simp del: act_simps andThen_basic
      | intro conjI impI)+)+

subsection \<open>Folders\<close>

lemma gd_folders_calm: "calm w (snd (gd_find_folder J g q f h w))" "calm w (snd (gd_make_folder J i s p d h w))"
  unfolding gd_find_folder_def gd_make_folder_def Let_def
  by (auto intro!: calm_parts simp del: act_simps andThen_basic)

lemma gd_create_calm: "calm w (snd (gd_create_loop J i c p d h ss w))"
  by (induction ss arbitrary: c p d h w)
     (auto intro!: calm_parts gd_folders_calm simp: Let_def simp del: act_simps andThen_basic split: option.split)

lemma gd_createPath_quiet: "quiet (gd_createPath J i p missing)"
  unfolding quiet_def gd_createPath_def Let_def
  by (auto intro!: calm_parts gd_create_calm simp del: act_simps andThen_basic)

lemma dx_folder_id_calm: "calm w (snd (dx_folder_id J i p r h j w))"
  unfolding dx_folder_id_def by (auto intro!: calm_parts simp del: act_simps andThen_basic)

lemma dx_create_calm: "calm w (snd (dx_create_loop J i p h ss w))"
  by (induction ss arbitrary: p h w)
     (auto intro!: calm_parts dx_folder_id_calm simp: Let_def simp del: act_simps andThen_basic)

lemma dx_createPath_quiet: "quiet (dx_createPath J i p missing)"
  by (simp add: quiet_def dx_createPath_def Let_def dx_create_calm)

subsection \<open>Polling\<close>

lemma gd_pages_calm: "calm w (snd (gd_change_pages n J g t h ps c w))"
  by (induction n J g t h ps c arbitrary: w rule: gd_change_pages.induct)
     (auto intro!: calm_parts simp del: act_simps andThen_basic)

lemma gd_getChanges_quiet: "quiet (gd_getChanges n J i)"
  unfolding quiet_def gd_getChanges_def Let_def
  by (auto intro!: calm_parts gd_pages_calm simp del: act_simps andThen_basic)

lemma dx_pages_calm: "calm w (snd (dx_change_pages n J b c h ps w))"
  by (induction n J b c h ps arbitrary: w rule: dx_change_pages.induct)
     (auto intro!: calm_parts simp: Let_def simp del: act_simps andThen_basic)

lemma dx_getDeltaToken_calm: "calm w (snd (dx_getDeltaToken J i w))"
  unfolding dx_getDeltaToken_def Let_def by (auto intro!: calm_parts simp del: act_simps andThen_basic)

lemma dx_getChanges_quiet: "quiet (dx_getChanges n J i)"
  unfolding quiet_def dx_getChanges_def Let_def
  by (auto intro!: calm_parts dx_pages_calm dx_getDeltaToken_calm simp del: act_simps andThen_basic)

text \<open>
  What processing the reports does to the state: quiet parts, new changes and dependents. A
  relation that these respect is kept by a whole poll of any storage. The accounts of the
  commands are one such relation.
\<close>

locale poll_rel = local_poll R for R :: "('j, 's) csys_scheme \<Rightarrow> ('j, 's) csys_scheme \<Rightarrow> bool" +
  assumes R_calm: "calm w w1 \<Longrightarrow> R w w1"
    and R_fetch: "R w (snd (emit (\<lambda>clouds. makeCloudNew clouds r) w))" "R w (snd (emit (\<lambda>clouds. makeCloudUpdate clouds u) w))"
      "R w (snd (emit (\<lambda>clouds. makeCloudMove clouds m) w))"
    and R_dependent: "R w (snd (modify_change a (addDependent b) w))"
begin

lemma new_change_R:
  assumes "\<And>w. R w (snd (emit mk w))"
  shows "R w (snd (new_change mk w))"
proof -
  have "snd (new_change mk w) = (snd (emit mk w))\<lparr>ls_changes := ls_changes w\<rparr>"
    by (simp add: new_change_def emit_def split: prod.split)
  then show ?thesis using R_trans [OF assms R_queues(2)] by simp
qed

lemma made_R:
  "R w (snd (new_change (\<lambda>cl. makeDelete cl x) w))" "R w (snd (new_change (\<lambda>cl. makeCloudNew cl r) w))"
  "R w (snd (new_change (\<lambda>cl. makeCloudUpdate cl u) w))" "R w (snd (new_change (\<lambda>cl. makeCloudMove cl m) w))"
  by (rule new_change_R, rule R_emit R_fetch)+

lemmas poll_parts = R_andThen R_refl quiet_parts [THEN calmD, THEN R_calm] made_R R_dependent

lemma gd_emit_R: "R w (snd (gd_emit c r hash nd g rel op np opar npar w))"
  unfolding gd_emit_def Let_def by (auto intro!: poll_parts simp del: act_simps andThen_basic)

lemma gd_judge_R: "R w (snd (gd_judge g r hash link tr rel op np st w))"
  unfolding gd_judge_def Let_def
  by (auto intro!: poll_parts gd_emit_R simp del: act_simps andThen_basic split: prod.split)

lemma gd_place_R: "R w (snd (gd_place_new g pm r w))" "R w (snd (gd_place_linked g r l op w))"
  unfolding gd_place_new_def gd_place_linked_def Let_def
  by (auto intro!: poll_parts simp del: act_simps andThen_basic split: option.split)

lemma gd_change_R: "R w (snd (gd_change J g jc st w))"
  unfolding gd_change_def
  by (auto intro!: poll_parts gd_judge_R gd_place_R simp del: act_simps andThen_basic split: option.split)

lemma gd_change_loop_R: "R w (snd (gd_change_loop J g jcs st w))"
  by (induction jcs arbitrary: st w)
     (auto intro!: poll_parts gd_change_R simp del: act_simps andThen_basic)

lemma gd_page_loop_R: "R w (snd (gd_page_loop J g ps st w))"
  by (induction ps arbitrary: st w)
     (auto intro!: poll_parts gd_change_loop_R simp del: act_simps andThen_basic)

lemma gd_proccessChanges_R: "R w (snd (gd_proccessChanges J i w))"
  by (auto simp: gd_proccessChanges_def Let_def simp del: act_simps andThen_basic
       intro!: poll_parts gd_page_loop_R split: prod.split option.split)

lemma dx_emit_R: "R w (snd (dx_emit c r cf d nd g op st w))"
  unfolding dx_emit_def Let_def
  by (auto intro!: poll_parts simp del: act_simps andThen_basic split: prod.split)

lemma dx_change_R: "R w (snd (dx_change J g e st w))"
  unfolding dx_change_def Let_def
  by (auto intro!: poll_parts dx_emit_R simp del: act_simps andThen_basic split: option.split prod.split)

lemma dx_change_loop_R: "R w (snd (dx_change_loop J g jcs st w))"
  by (induction jcs arbitrary: st w)
     (auto intro!: poll_parts dx_change_R simp del: act_simps andThen_basic)

lemma dx_page_loop_R: "R w (snd (dx_page_loop J g ps st w))"
  by (induction ps arbitrary: st w)
     (auto intro!: poll_parts dx_change_loop_R simp del: act_simps andThen_basic)

lemma dx_proccessChanges_R: "R w (snd (dx_proccessChanges J i w))"
  by (auto simp: dx_proccessChanges_def Let_def simp del: act_simps andThen_basic
       intro!: poll_parts dx_page_loop_R split: prod.split option.split)

end

interpretation polled: poll_rel "steady_in K :: ('j, 's) csys_scheme \<Rightarrow> ('j, 's) csys_scheme \<Rightarrow> bool"
proof unfold_locales
  show "steady_in K w (snd (modify_change a (addDependent b) w))" for a b and w :: "('j, 's) csys_scheme"
    using validD [OF keeps_inD [OF setters_keep(2)]]
    by (fastforce simp: steady_in_def modify_change_def)
qed (simp_all add: emit_steady calm_steady)

subsection \<open>The storages of the program\<close>

text \<open>
  Third-party functions, and which cloud is registered under which id. The local storage has
  the id 0; an unknown id is the null pointer. \<open>pg_turns\<close> bounds the loops over pages.
\<close>

record 'j program =
  pg_lib :: "'j lib"
  pg_xxh64 :: "string \<Rightarrow> u64"
  pg_kind :: "int \<Rightarrow> cloud_provider_type option"
  pg_turns :: nat

definition pg_stores :: "'j program \<Rightarrow> int \<Rightarrow> (('j, 's) csys_scheme) storage_ops" where
  "pg_stores P i =
     (if i = 0 then local_ops (pg_xxh64 P)
      else case pg_kind P i of
             Some GoogleDriveT \<Rightarrow> google_ops (pg_lib P) i
           | Some DropboxT \<Rightarrow> dropbox_ops (pg_lib P) i
           | _ \<Rightarrow> null_ops)"

definition pg_create :: "'j program \<Rightarrow> int \<Rightarrow> path \<Rightarrow> path \<Rightarrow> (('j, 's) csys_scheme, file_record_dto list) act" where
  "pg_create P i p missing =
     (case pg_kind P i of
        Some GoogleDriveT \<Rightarrow> gd_createPath (pg_lib P) i p missing
      | Some DropboxT \<Rightarrow> dx_createPath (pg_lib P) i p missing
      | _ \<Rightarrow> throw NullPointer)"

definition pg_getChanges :: "'j program \<Rightarrow> int \<Rightarrow> (('j, 's) csys_scheme, unit) act" where
  "pg_getChanges P i =
     (case pg_kind P i of
        Some GoogleDriveT \<Rightarrow> gd_getChanges (pg_turns P) (pg_lib P) i
      | Some DropboxT \<Rightarrow> dx_getChanges (pg_turns P) (pg_lib P) i
      | _ \<Rightarrow> throw NullPointer)"

definition pg_hasChanges :: "'j program \<Rightarrow> int \<Rightarrow> ('j, 's) csys_scheme \<Rightarrow> bool" where
  "pg_hasChanges P i w \<longleftrightarrow>
     (if i = 0 then local_hasChanges w
      else case pg_kind P i of
             Some GoogleDriveT \<Rightarrow> gd_hasChanges i w
           | Some DropboxT \<Rightarrow> dx_hasChanges i w
           | _ \<Rightarrow> False)"

definition pg_proccessChanges :: "'j program \<Rightarrow> int \<Rightarrow> (('j, 's) csys_scheme, nat list) act" where
  "pg_proccessChanges P i =
     (if i = 0 then local_proccessChanges (pg_xxh64 P)
      else case pg_kind P i of
             Some GoogleDriveT \<Rightarrow> gd_proccessChanges (pg_lib P) i
           | Some DropboxT \<Rightarrow> dx_proccessChanges (pg_lib P) i
           | _ \<Rightarrow> throw NullPointer)"

interpretation prog: storage_contract "pg_stores P"
proof
  fix i r u x m h s
  show "quiet (so_setup_upload (pg_stores P i) r h)" "quiet (so_setup_update (pg_stores P i) u h)"
    "quiet (so_setup_download_new (pg_stores P i) r h)" "quiet (so_setup_download_updated (pg_stores P i) u h)"
    "quiet (so_setup_delete (pg_stores P i) x h)" "quiet (so_setup_move (pg_stores P i) m h)"
    "quiet (so_proccesUpload (pg_stores P i) r s)" "quiet (so_proccesUpdate (pg_stores P i) u s)"
    "quiet (so_proccesDelete (pg_stores P i) x s)" "quiet (so_proccesMove (pg_stores P i) m s)"
    by (auto simp: pg_stores_def null_ops_def quiet_ret google_contract dropbox_contract
        local_only.set_up [of 0, simplified] local_only.proccess [of 0, simplified]
        split: option.split cloud_provider_type.split)
  show "same_curl h (so_setup_upload (pg_stores P i) r h)" "same_curl h (so_setup_update (pg_stores P i) u h)"
    "same_curl h (so_setup_download_new (pg_stores P i) r h)" "same_curl h (so_setup_download_updated (pg_stores P i) u h)"
    "same_curl h (so_setup_delete (pg_stores P i) x h)" "same_curl h (so_setup_move (pg_stores P i) m h)"
    by (auto simp: pg_stores_def null_ops_def google_curl dropbox_curl local_only.curl [of _ 0, simplified]
        split: option.split cloud_provider_type.split)
qed

lemma pg_keeps: "keeps_in K (pg_create P i p missing)" "keeps_in K (pg_getChanges P i)" "keeps_in K (pg_proccessChanges P i)"
proof -
  show "keeps_in K (pg_create P i p missing)" "keeps_in K (pg_getChanges P i)"
    by (auto simp: pg_create_def pg_getChanges_def split: option.split cloud_provider_type.split
        intro: quiet_keeps quiet_ret gd_createPath_quiet dx_createPath_quiet gd_getChanges_quiet dx_getChanges_quiet)
  show "keeps_in K (pg_proccessChanges P i)"
    by (rule steady_keeps) (auto simp: pg_proccessChanges_def st.R_refl split: option.split cloud_provider_type.split
        intro: polled.gd_proccessChanges_R polled.dx_proccessChanges_R acc.local_proccessChanges_R)
qed

end
