(* ===== verification/SampleJson.thy ===== *)
theory SampleJson
  imports GoogleDrive Dropbox
begin

text \<open>
  A small JSON library for the samples: values as trees, and a parser that knows the texts of a
  table. It has the documented behaviour of the operations the sources use.
\<close>

datatype jv =
    JNull
  | JText string
  | JFlag bool
  | JNum int
  | JList "jv list"
  | JObj "(string \<times> jv) list"

fun jv_member :: "jv \<Rightarrow> string \<Rightarrow> jv option" where
  "jv_member (JObj ms) k = map_of ms k"
| "jv_member _ k = None"

fun jv_at :: "jv \<Rightarrow> string \<Rightarrow> jv res" where
  "jv_at (JObj ms) k = Inr (case map_of ms k of Some v \<Rightarrow> v | None \<Rightarrow> JNull)"
| "jv_at JNull k = Inr JNull"
| "jv_at _ k = Inl (JsonError ''type_error 305'')"

fun jv_set :: "jv \<Rightarrow> string \<Rightarrow> jv \<Rightarrow> jv res" where
  "jv_set (JObj ms) k v = Inr (JObj ((k, v) # filter (\<lambda>m. fst m \<noteq> k) ms))"
| "jv_set JNull k v = Inr (JObj [(k, v)])"
| "jv_set _ k v = Inl (JsonError ''type_error 305'')"

fun jv_elem :: "jv \<Rightarrow> nat \<Rightarrow> jv res" where
  "jv_elem (JList vs) n = (if n < length vs then Inr (vs ! n) else Inr JNull)"
| "jv_elem JNull n = Inr JNull"
| "jv_elem _ n = Inl (JsonError ''type_error 305'')"

fun jv_elems :: "jv \<Rightarrow> jv list" where
  "jv_elems JNull = []"
| "jv_elems (JList vs) = vs"
| "jv_elems (JObj ms) = map snd ms"
| "jv_elems v = [v]"

fun jv_text :: "jv \<Rightarrow> string res" where
  "jv_text (JText s) = Inr s"
| "jv_text _ = Inl (JsonError ''type_error 302'')"

fun jv_flag :: "jv \<Rightarrow> bool res" where
  "jv_flag (JFlag b) = Inr b"
| "jv_flag _ = Inl (JsonError ''type_error 302'')"

fun jv_num :: "jv \<Rightarrow> int res" where
  "jv_num (JNum n) = Inr n"
| "jv_num _ = Inl (JsonError ''type_error 302'')"

definition jv_value :: "(jv \<Rightarrow> 'a res) \<Rightarrow> jv \<Rightarrow> string \<Rightarrow> 'a \<Rightarrow> 'a res" where
  "jv_value get j k d =
     (case j of
        JObj ms \<Rightarrow> (case map_of ms k of Some v \<Rightarrow> get v | None \<Rightarrow> Inr d)
      | _ \<Rightarrow> Inl (JsonError ''type_error 306''))"

definition table_lib :: "(string \<times> jv) list \<Rightarrow> jv lib" where
  "table_lib table =
     \<lparr>js_parse = (\<lambda>s. case map_of table s of Some v \<Rightarrow> Inr v | None \<Rightarrow> Inl (JsonError ''parse_error'')),
      js_read = (\<lambda>s. case map_of table s of Some v \<Rightarrow> Inr v | None \<Rightarrow> Inl (JsonError ''parse_error'')),
      js_dump = (\<lambda>_. Inr []), js_text = JText, js_flag = JFlag, js_list = JList, js_object = JObj, js_null = JNull,
      js_contains = (\<lambda>j k. jv_member j k \<noteq> None), js_empty = (\<lambda>j. jv_elems j = []),
      js_at = jv_at, js_set = jv_set, js_elem = jv_elem, js_elems = jv_elems, js_is = (\<lambda>j s. j = JText s),
      js_get_text = jv_text, js_get_int = jv_num, js_value_text = jv_value jv_text,
      js_value_flag = jv_value jv_flag, js_value_u64 = jv_value (\<lambda>v. res_bind (jv_num v) (\<lambda>n. Inr (of_int n))),
      js_value_json = jv_value Inr, url_escape = (\<lambda>s. s)\<rparr>"

text \<open>An answer of a server with code 200.\<close>

definition ok_answer :: "string \<Rightarrow> answer" where
  "ok_answer body = \<lparr>an_ok = True, an_code = 200, an_body = body, an_jitter = 0, an_now = 0\<rparr>"

definition answers_of :: "string list \<Rightarrow> nat \<Rightarrow> answer" where
  "answers_of bodies i = ok_answer (if i < length bodies then bodies ! i else [])"

end
