(* ===== verification/Daemon.thy ===== *)
theory Daemon
  imports Clouds SampleJson
begin

text \<open>
  The daemon as a whole: one step is one turn of one of its threads (callback worker, HTTP
  worker, \<open>proccessLoop\<close>, \<open>pollingLoop\<close>, the file watcher) or an edit of the files by the
  user, in any order. While \<open>waitUntilIdle\<close> blocks the process loop the other threads make
  their turns, which a scheduler chooses. A turn that throws ends the program and has no
  successor.
\<close>

subsection \<open>Steps\<close>

definition pg_onComplete :: "'j program \<Rightarrow> path \<Rightarrow> nat list \<Rightarrow> (('j, 's) csys_scheme, unit) act" where
  "pg_onComplete P = onChangeCompleted (pg_stores P) worker_wait (pg_create P)"

datatype turn =
    CallbackTurn
  | HttpTurn bool "(nat \<times> answer) list" int
  | PollTurn bool
  | WatchTurn "path \<Rightarrow> path option" wtr_event
  | UserTurn fs

text \<open>The turns of all threads but the process loop.\<close>

fun run_turn :: "'j program \<Rightarrow> turn \<Rightarrow> (('j, 's) csys_scheme, unit) act" where
  "run_turn P CallbackTurn = andThen (cb_worker_step (pg_stores P) (pg_onComplete P)) (\<lambda>_. ret ())"
| "run_turn P (HttpTurn curl_ok messages now) = andThen (http_worker_step curl_ok messages now) (\<lambda>_. ret ())"
| "run_turn P (PollTurn due) = polling_step due (pg_getChanges P) (pg_hasChanges P) (pg_proccessChanges P)"
| "run_turn P (WatchTurn canon evt) = onFsEvent canon evt"
| "run_turn P (UserTurn f) = modify (\<lambda>w. w\<lparr>w_fs := f\<rparr>)"

text \<open>\<open>waitUntilIdle\<close> in the process loop: it returns when the dispatcher has nothing left.\<close>

definition pg_wait :: "'j program \<Rightarrow> (('j, 's) csys_scheme \<Rightarrow> turn list) \<Rightarrow> (('j, 's) csys_scheme, unit) act" where
  "pg_wait P sched w =
     andThen (for_each (run_turn P) (sched w))
       (\<lambda>_ w1. if ac_idle (cb_active w1) then ret () w1 else throw Diverges w1) w"

inductive daemon_step :: "'j program \<Rightarrow> ('j, 's) csys_scheme \<Rightarrow> ('j, 's) csys_scheme \<Rightarrow> bool" for P where
  thread: "run_turn P t w = (Inr (), w1) \<Longrightarrow> daemon_step P w w1"
| processor: "process_step (pg_stores P) (pg_wait P sched) (pg_create P) w = (Inr r, w1) \<Longrightarrow> daemon_step P w w1"

inductive daemon_reach :: "'j program \<Rightarrow> ('j, 's) csys_scheme \<Rightarrow> ('j, 's) csys_scheme \<Rightarrow> bool" for P w where
  start: "daemon_reach P w w"
| step: "daemon_reach P w w1 \<Longrightarrow> daemon_step P w1 w2 \<Longrightarrow> daemon_reach P w w2"

definition daemon_start :: "'s ssys_scheme \<Rightarrow> bool" where
  "daemon_start w \<longleftrightarrow>
     db_ok (w_db w) \<and> w_heap w = [] \<and> q_items (cb_queue w) = [] \<and> q_items (http_queue w) = [] \<and>
     http_inflight w = [] \<and> http_delayed w = []"

subsection \<open>The accounts hold in every run\<close>

abbreviation accounts_ok :: "'s dsys_scheme \<Rightarrow> bool" where
  "accounts_ok \<equiv> work_ok (\<lambda>_. 0) []"

lemma start_accounts: "daemon_start w \<Longrightarrow> accounts_ok w"
  by (simp add: daemon_start_def work_ok_def outstanding_def)

lemma keeps_run: "keeps m \<Longrightarrow> work_ok sl hand w \<Longrightarrow> m w = (Inr r, w1) \<Longrightarrow> work_ok sl hand w1"
  using validD [OF keepsD, of m sl hand w] by simp

lemma buff_keeps: "keeps_in K (modify (\<lambda>w :: 's ssys_scheme. w\<lparr>sm_buff := f w\<rparr>))"
  by (rule steady_keeps) (auto simp: steady_in_def same_work_def intro: ledger_same [rotated 2])

lemma collect_keeps:
  assumes "\<And>cid. keeps_in K (process cid)"
  shows "keeps_in K (collect_changes has process :: ('s ssys_scheme, unit) act)"
proof -
  have b: "keeps_in K (\<lambda>w. if has cid w
        then andThen (process cid) (\<lambda>as. modify (\<lambda>w :: 's ssys_scheme. w\<lparr>sm_buff := q_push_all as (sm_buff w)\<rparr>)) w
        else ret () w)" (is "keeps_in K (?f cid)") for cid
  proof -
    have m: "keeps_in K (andThen (process cid) (\<lambda>as. modify (\<lambda>w :: 's ssys_scheme. w\<lparr>sm_buff := q_push_all as (sm_buff w)\<rparr>)))"
      by (intro keeps_andThen assms buff_keeps)
    show ?thesis unfolding keeps_in_def valid_def
      by (intro ballI allI impI) (auto simp: ret_def simp del: act_simps andThen_basic dest: validD [OF keeps_inD [OF m]])
  qed
  have m: "keeps_in K (andThen (for_each ?f (sm_clouds w)) (\<lambda>_. ret ()))" for w :: "'s ssys_scheme"
    by (intro keeps_andThen keeps_for_each b quiet_keeps [OF quiet_ret(1)])
  show ?thesis unfolding keeps_in_def valid_def collect_changes_def
    by (intro ballI allI impI) (rule validD [OF keeps_inD [OF m]])
qed

lemma poll_keeps:
  assumes "\<And>cid. keeps_in K (g cid)"
  shows "keeps_in K (poll_clouds g :: ('s ssys_scheme, unit) act)"
proof -
  have m: "keeps_in K (andThen (for_each g (filter (\<lambda>cid. cid \<noteq> 0) (sm_clouds w))) (\<lambda>_. ret ()))" for w :: "'s ssys_scheme"
    by (intro keeps_andThen keeps_for_each assms quiet_keeps [OF quiet_ret(1)])
  show ?thesis unfolding keeps_in_def valid_def poll_clouds_def
    by (intro ballI allI impI) (rule validD [OF keeps_inD [OF m]])
qed

lemma polling_step_keeps:
  assumes "\<And>cid. keeps_in K (g cid)" and "\<And>cid. keeps_in K (process cid)"
  shows "keeps_in K (polling_step due g has process :: ('s ssys_scheme, unit) act)"
proof -
  have m: "keeps_in K (modify (\<lambda>w :: 's ssys_scheme. w\<lparr>ls_signal := False\<rparr>))"
    by (rule quiet_keeps) (simp add: quiet_def calm_def same_work_def)
  have d: "keeps_in K (if due then poll_clouds g else (ret () :: ('s ssys_scheme, unit) act))"
    by (simp add: poll_keeps assms quiet_keeps quiet_ret)
  show ?thesis unfolding polling_step_def
    by (intro keeps_andThen m d collect_keeps assms(2))
qed

lemma callback_keeps: "keeps_in K (cb_worker_step (pg_stores P) (pg_onComplete P) :: (('j, 's) csys_scheme, bool option) act)"
proof -
  have "daemon_env (pg_stores P :: int \<Rightarrow> (('j, 's) csys_scheme) storage_ops) K worker_wait (pg_create P)"
    using prog.storage_contract_axioms
    by (simp add: daemon_env_def daemon_env_axioms_def worker_wait_def quiet_keeps quiet_ret pg_keeps)
  then show ?thesis
    unfolding pg_onComplete_def by (rule prog.cb_worker_keeps [OF daemon_env.onChangeCompleted_keeps])
qed

text \<open>All turns but those of the HTTP worker keep both ledgers.\<close>

definition is_http_turn :: "turn \<Rightarrow> bool" where
  "is_http_turn t \<longleftrightarrow> (\<exists>curl_ok messages now. t = HttpTurn curl_ok messages now)"

lemma turn_keeps_in:
  assumes "\<not> is_http_turn t"
  shows "keeps_in K (run_turn P t :: (('j, 's) csys_scheme, unit) act)"
proof (cases t)
  case (UserTurn f)
  have "steady_in K w (w\<lparr>w_fs := f\<rparr>)" for w :: "('j, 's) csys_scheme"
    by (simp add: calm_steady calm_def same_work_def)
  then show ?thesis using UserTurn by (intro steady_keeps) simp
qed (use assms in \<open>auto intro!: keeps_andThen callback_keeps polling_step_keeps pg_keeps quiet_keeps [OF onFsEvent_quiet]
    quiet_keeps [OF quiet_ret(1)] simp: is_http_turn_def simp del: act_simps\<close>)

lemma run_turn_keeps: "keeps (run_turn P t :: (('j, 's) csys_scheme, unit) act)"
proof (cases t)
  case (HttpTurn curl_ok messages now)
  then show ?thesis
    by (auto intro!: keeps_andThen http_worker_keeps quiet_keeps [OF quiet_ret(1)] simp del: act_simps)
qed (auto intro!: turn_keeps_in simp del: run_turn.simps simp: is_http_turn_def)

lemma pg_wait_keeps: "keeps (pg_wait P sched :: (('j, 's) csys_scheme, unit) act)"
  unfolding keeps_def
proof (intro allI)
  fix sl hand
  have idle: "keeps (\<lambda>w1 :: ('j, 's) csys_scheme. if ac_idle (cb_active w1) then ret () w1 else throw Diverges w1)"
    by (intro quiet_keeps) (simp add: quiet_def cm.R_refl)
  have "keeps (andThen (for_each (run_turn P) ts)
     (\<lambda>_ w1 :: ('j, 's) csys_scheme. if ac_idle (cb_active w1) then ret () w1 else throw Diverges w1))" for ts
    by (intro keeps_andThen keeps_for_each run_turn_keeps idle)
  note run = validD [OF keepsD [OF this]]
  show "valid (work_ok sl hand) (pg_wait P sched :: (('j, 's) csys_scheme, unit) act) (\<lambda>_. work_ok sl hand) (work_ok sl [])"
    unfolding valid_def pg_wait_def by (intro allI impI) (rule run)
qed

interpretation run: daemon_env "pg_stores P" counts "pg_wait P sched" "pg_create P"
  by unfold_locales (rule pg_wait_keeps pg_keeps)+

lemma daemon_step_accounts:
  assumes s: "daemon_step P w w1" and w: "work_ok sl [] w"
  shows "work_ok sl [] w1"
  using s
proof cases
  case (thread t)
  show ?thesis by (rule keeps_run [OF run_turn_keeps w thread])
next
  case (processor sched r)
  show ?thesis by (rule keeps_run [OF run.process_step_keeps w processor])
qed

lemma daemon_reach_accounts:
  assumes "daemon_reach P w w1" and "work_ok sl [] w"
  shows "work_ok sl [] w1"
  using assms by (induction rule: daemon_reach.induct) (auto intro: daemon_step_accounts)

lemma accounts_done:
  assumes k: "accounts_ok w"
  shows "db_ok (w_db w) \<and>
    (\<forall>a < length (w_heap w). ch_status (w_heap w ! a) = CompletedS \<longrightarrow>
       (\<forall>c \<in> set (q_items (cb_queue w) @ q_items (http_queue w) @ http_inflight w @ http_delayed w).
          \<forall>d \<in> set (commands c). cmd_owner d \<noteq> Some a))"
proof -
  have "owned_in a (q_items (cb_queue w) @ q_items (http_queue w) @ http_inflight w @ http_delayed w) = 0"
    if "a < length (w_heap w)" "ch_status (w_heap w ! a) = CompletedS" for a
    using k that by (auto simp: work_ok_def change_ok_def outstanding_def)
  then show ?thesis using k
    by (fastforce simp: work_ok_def owned_in_def owned_def filter_empty_conv)
qed



subsection \<open>A lost command\<close>

text \<open>A command that leaves the hand without a trace makes its owner's count too high for good.\<close>

lemma work_ok_lose:
  "work_ok sl (c # ex) w \<Longrightarrow> work_ok (\<lambda>a. sl a + owned a c) ex w"
  by (auto simp: work_ok_def algebra_simps)

lemma slack_blocks:
  assumes "work_ok sl hand w" and "0 < sl a"
  shows "a < length (w_heap w) \<and> ch_status (w_heap w ! a) \<noteq> CompletedS"
proof -
  have a: "a < length (w_heap w)"
    using assms by (metis add_is_0 not_le not_less_zero work_ok_def)
  then have "int (sl a) \<le> ch_pending (w_heap w ! a)" "change_ok a (w_heap w ! a)"
    using assms(1) by (force simp: work_ok_def)+
  then show ?thesis using a assms(2) by (auto simp: change_ok_def)
qed

lemma owned_owner: "cmd_owner c = Some a \<Longrightarrow> 0 < owned a c"
  by (simp add: owned_command)

lemma failed_message:
  assumes "work_ok sl hand w" and "i < length (http_inflight w)"
    and "classify (an_ok ans) (an_code ans) \<in> {CurlFailed, HttpFailed}"
    and "http_message i ans w = (Inr (), w1)"
  shows "work_ok (\<lambda>a. sl a + owned a (http_inflight w ! i)) hand w1"
proof -
  let ?c = "http_inflight w ! i"
  obtain h1 fl where d: "deliver (an_body ans) (case cmd_handle ?c of Some h \<Rightarrow> h | None \<Rightarrow> w_h0 w) = (h1, fl)"
    by fastforce
  let ?w1 = "w\<lparr>http_inflight := take i (http_inflight w) @ drop (Suc i) (http_inflight w),
               w_fs := (case fl of None \<Rightarrow> w_fs w | Some (p, s) \<Rightarrow> set_file p s (w_fs w))\<rparr>"
  have "outstanding b ?w1 + owned b ?c = outstanding b w" for b
    using owned_remove [of i "http_inflight w" b] assms(2) by (simp add: outstanding_def)
  then have "work_ok sl (?c # hand) ?w1" by (intro work_ok_move [OF assms(1)]) auto
  then have "work_ok (\<lambda>a. sl a + owned a ?c) hand (http_decrement ?w1)"
    by (intro decrement_ledger [of "Some _", simplified] work_ok_lose)
  moreover have "w1 = http_decrement ?w1"
  proof (cases "getTarget (with_handle h1 ?c)")
    case (Inl e)
    then show ?thesis using assms d by (simp add: http_message_def Let_def)
  next
    case (Inr t)
    then show ?thesis using assms d by (auto simp: http_message_def Let_def split: verdict.splits)
  qed
  ultimately show ?thesis by simp
qed

text \<open>
  C6. A failed request blocks its change for ever: when a transfer ends with a curl error or an
  HTTP code that is neither 200 nor one to retry, its command is dropped without a report to
  the owner; in no later state of the daemon is the owning change completed, so its
  completion callback never runs and the changes waiting behind it are never handed on.
\<close>

theorem failed_request_blocks:
  assumes "accounts_ok w" and "i < length (http_inflight w)"
    and "cmd_owner (http_inflight w ! i) = Some a"
    and "classify (an_ok ans) (an_code ans) \<in> {CurlFailed, HttpFailed}"
    and "http_message i ans w = (Inr (), w1)" and "daemon_reach P w1 w2"
  shows "a < length (w_heap w2) \<and> ch_status (w_heap w2 ! a) \<noteq> CompletedS"
proof -
  have "work_ok (\<lambda>a. 0 + owned a (http_inflight w ! i)) [] w1"
    by (rule failed_message [OF assms(1,2,4,5)])
  then have "work_ok (\<lambda>a. 0 + owned a (http_inflight w ! i)) [] w2"
    by (rule daemon_reach_accounts [OF assms(6)])
  from slack_blocks [OF this, of a] show ?thesis using owned_owner [OF assms(3)] by simp
qed

lemma admit_at_limit:
  assumes "work_ok sl hand w" and "q_items (http_queue w) = c # cs" and "MAX_CONCURRENT \<le> ac_get (http_active w)"
    and "http_take w = Some w1"
  shows "work_ok (\<lambda>a. sl a + owned a c) hand w1"
proof -
  have "\<not> ac_idle (http_active w)"
    using assms(3) by (simp add: ac_idle_def ac_get_def MAX_CONCURRENT_def)
  then have "w1 = w\<lparr>http_queue := (http_queue w)\<lparr>q_items := cs\<rparr>\<rparr>"
    using assms by (simp add: http_take_def q_try_pop_def)
  moreover have "work_ok sl (c # hand) (w\<lparr>http_queue := (http_queue w)\<lparr>q_items := cs\<rparr>\<rparr>)"
    by (rule work_ok_move [OF assms(1)]) (simp_all add: outstanding_def assms(2))
  ultimately show ?thesis using work_ok_lose by blast
qed

text \<open>
  C7. The limit of concurrent requests loses a command: when as many commands are counted as
  the limit allows, the worker takes the next command out of the queue before it looks at the
  limit and then drops it; the owning change is not completed in any later state.
\<close>

theorem limit_drops_command:
  assumes "accounts_ok w" and "q_items (http_queue w) = c # cs" and "cmd_owner c = Some a"
    and "MAX_CONCURRENT \<le> ac_get (http_active w)"
    and "http_worker_step True msgs now w = (Inr (Some True), w1)" and "daemon_reach P w1 w2"
  shows "a < length (w_heap w2) \<and> ch_status (w_heap w2 ! a) \<noteq> CompletedS"
proof -
  let ?m = "andThen (for_each (\<lambda>(i, a). http_message i a) msgs)
              (\<lambda>_. andThen (modify (checkDelayedRequests now)) (\<lambda>_. ret (Some True)))"
  let ?sl = "\<lambda>a. 0 + owned a c"
  obtain v where v: "http_take w = Some v" and m: "?m v = (Inr (Some True), w1)"
    using assms(5) by (auto simp: http_worker_step_def split: if_splits option.splits)
  have "work_ok ?sl [] v" by (rule admit_at_limit [OF assms(1,2,4) v])
  from validD [OF http_turn_ledger [of "Some ?sl" msgs "[]" now "Some True"], of v] this m
  have "work_ok ?sl [] w1" by simp
  then have "work_ok ?sl [] w2" by (rule daemon_reach_accounts [OF assms(6)])
  from slack_blocks [OF this, of a] show ?thesis using owned_owner [OF assms(3)] by simp
qed


subsection \<open>A sample run\<close>

text \<open>Only the local storage is configured; the given requests are running or queued.\<close>

definition sample_program :: "jv program" where
  "sample_program =
     \<lparr>pg_lib = table_lib [], pg_xxh64 = (\<lambda>_. 1), pg_kind = (\<lambda>_. None), pg_turns = 10\<rparr>"

definition sample_daemon :: "change list \<Rightarrow> command list \<Rightarrow> command list \<Rightarrow> int \<Rightarrow> jv csys" where
  "sample_daemon hp queued running n =
     \<lparr>w_fs = w_fs sample_world, w_db = w_db sample_world, w_rc = (\<lambda>_. rc_ok), w_calls = 0, w_heap = hp,
      factory_clouds = [], ls_home = ls_home sample_world, ls_id = 0, ls_events = q_new, ls_changes = q_new,
      ls_expected = Map.empty, ls_on_change = True, ls_signal = False, w_h0 = RequestHandle True [],
      cb_queue = q_new, cb_active = 0, cb_running = True, cb_should_stop = False,
      http_queue = \<lparr>q_items = queued, q_closed = False\<rparr>, http_active = n, http_running = True,
      http_should_stop = False, http_inflight = running, http_delayed = [],
      sm_clouds = [0], sm_num_clouds = 0, sm_current = [], sm_buff = q_new,
      w_answers = answers_of [], w_requests = 0, w_clock = 0,
      w_google = (\<lambda>i. google_new [] [] [] empty_path empty_path i []),
      w_dropbox = (\<lambda>i. dropbox_new [] [] [] empty_path empty_path i [])\<rparr>"

lemma sample_db_ok: "db_ok (w_db sample_world)"
  using sample_facts by (simp add: db_ok_def)

definition sample_request :: command where
  "sample_request = Command CloudDelete 1 (Some (DeletedDTO (deleted_local empty_path 7 0))) (Some (RequestHandle True [])) (Some 0) []"

definition sample_change :: change where
  "sample_change = (Change Delete empty_path 0 0)\<lparr>ch_chain := [None], ch_pending := 1, ch_on_complete := Some empty_path\<rparr>"

lemma sample_accounts:
  "accounts_ok (sample_daemon [sample_change] [sample_request] [] n)"
  "accounts_ok (sample_daemon [sample_change] [] [sample_request] n)"
  using sample_db_ok by (simp_all add: work_ok_def sample_daemon_def outstanding_def owned_def chain_commands_def
      change_ok_def own_chain_def sample_change_def sample_request_def Change_def q_new_def)


theorem failed_request_blocks_witness:
  "ch_status (w_heap (snd (http_message 0 \<lparr>an_ok = True, an_code = 404, an_body = [], an_jitter = 0, an_now = 0\<rparr>
     (sample_daemon [sample_change] [] [sample_request] 1))) ! 0) \<noteq> CompletedS"
proof -
  let ?w = "sample_daemon [sample_change] [] [sample_request] 1"
  let ?a = "\<lparr>an_ok = True, an_code = 404, an_body = [], an_jitter = 0, an_now = 0\<rparr>"
  obtain w1 where m: "http_message 0 ?a ?w = (Inr (), w1)"
    by (simp add: http_message_def sample_daemon_def sample_request_def Let_def deleted_local_def classify_def retry_code_def
        deliver_def RequestHandle_def writeCallback_def)
  have "ch_status (w_heap w1 ! 0) \<noteq> CompletedS"
    using failed_request_blocks [OF sample_accounts(2) _ _ _ m daemon_reach.start [of sample_program], of 0]
    by (simp add: sample_daemon_def sample_request_def classify_def retry_code_def)
  then show ?thesis using m by simp
qed

theorem limit_drops_command_witness:
  "ch_status (w_heap (snd (http_worker_step True [] 0 (sample_daemon [sample_change] [sample_request] [] 120))) ! 0)
     \<noteq> CompletedS"
proof -
  let ?w = "sample_daemon [sample_change] [sample_request] [] 120"
  obtain w1 where m: "http_worker_step True [] 0 ?w = (Inr (Some True), w1)"
    by (simp add: http_worker_step_def http_worker_done_def http_take_def sample_daemon_def ac_idle_def ac_get_def
        q_try_pop_def MAX_CONCURRENT_def)
  have "ch_status (w_heap w1 ! 0) \<noteq> CompletedS"
    using limit_drops_command [OF sample_accounts(1) _ _ _ m daemon_reach.start [of sample_program], of sample_request "[]" 0]
    by (simp add: sample_daemon_def sample_request_def ac_get_def MAX_CONCURRENT_def)
  then show ?thesis using m by simp
qed

end
