(* ===== verification/CloudProps.thy ===== *)
theory CloudProps
  imports Daemon
begin

text \<open>
  What the requests and the polling of the clouds guarantee, and where they fail: bounds on
  repeated requests, listings over pages, recognition of the program's own changes, and the
  judgement of reports.
\<close>

subsection \<open>Synchronous requests\<close>

text \<open>How many answers a request may use.\<close>

definition tries :: "handle \<Rightarrow> nat" where
  "tries h = max 1 (7 - h_retry h)"

lemma sync_loop_spec:
  "sync_loop env i h = (r, h1, n) \<Longrightarrow>
     i < n \<and> n \<le> i + tries h \<and>
     (\<forall>k. i \<le> k \<and> k < n - 1 \<longrightarrow> classify (an_ok (env k)) (an_code (env k)) = RetryLater) \<and>
     (r = Inr () \<longleftrightarrow> classify (an_ok (env (n - 1))) (an_code (env (n - 1))) \<noteq> RetryLater) \<and>
     (r \<noteq> Inr () \<longrightarrow> n = i + tries h) \<and>
     (r = Inr () \<longrightarrow> h_response h1 = (if n = Suc i then h_response h else []) @ an_body (env (n - 1)))"
proof (induction env i h arbitrary: r h1 n rule: sync_loop.induct)
  case (1 env i h)
  let ?h1 = "snd (writeCallback (an_body (env i)) h)"
  show ?case
  proof (cases "classify (an_ok (env i)) (an_code (env i)) = RetryLater")
    case False
    then show ?thesis using "1.prems"
      by (subst (asm) sync_loop.simps) (auto simp: Let_def tries_def writeCallback_def)
  next
    case R: True
    obtain s h2 where s: "scheduleRetry (an_jitter (env i)) (an_now (env i)) ?h1 = (s, h2)" by fastforce
    have f: "h_retry h2 = Suc (h_retry h)" "h_response h2 = []"
      using scheduleRetry_fields(1,3) [of "an_jitter (env i)" "an_now (env i)" ?h1] s by simp_all
    have ok: "s = Inr () \<longleftrightarrow> h_retry h < 6"
      using scheduleRetry_ok_iff [of "an_jitter (env i)" "an_now (env i)" ?h1] s by simp
    show ?thesis
    proof (cases s)
      case (Inl e)
      then have "(r, h1, n) = (Inl e, h2, Suc i)" using "1.prems" R s
        by (subst (asm) sync_loop.simps) (simp add: Let_def)
      moreover have "tries h = 1" using ok Inl by (simp add: tries_def)
      ultimately show ?thesis using R by auto
    next
      case (Inr u)
      then have rec: "sync_loop env (Suc i) h2 = (r, h1, n)"
        using "1.prems" R s by (subst (asm) sync_loop.simps) (simp add: Let_def)
      have t: "tries h = Suc (tries h2)" using ok Inr f by (simp add: tries_def)
      have IH: "Suc i < n \<and> n \<le> Suc i + tries h2 \<and>
         (\<forall>k. Suc i \<le> k \<and> k < n - 1 \<longrightarrow> classify (an_ok (env k)) (an_code (env k)) = RetryLater) \<and>
         (r = Inr () \<longleftrightarrow> classify (an_ok (env (n - 1))) (an_code (env (n - 1))) \<noteq> RetryLater) \<and>
         (r \<noteq> Inr () \<longrightarrow> n = Suc i + tries h2) \<and>
         (r = Inr () \<longrightarrow> h_response h1 = (if n = Suc (Suc i) then h_response h2 else []) @ an_body (env (n - 1)))"
        using "1.IH" [OF refl refl _ s [symmetric] Inr rec] R by blast
      then have early: "\<forall>k. Suc i \<le> k \<and> k < n - 1 \<longrightarrow> classify (an_ok (env k)) (an_code (env k)) = RetryLater" by blast
      have "classify (an_ok (env k)) (an_code (env k)) = RetryLater" if "i \<le> k" "k < n - 1" for k
        using early R that by (metis Suc_leI le_neq_implies_less)
      moreover have "i < n" "n \<le> i + tries h" "Suc i < n" using IH t by linarith+
      moreover have "r \<noteq> Inr () \<longrightarrow> n = Suc i + tries h2" using IH by blast
      then have "r \<noteq> Inr () \<longrightarrow> n = i + tries h" using t by simp
      moreover have "h_response h1 = (if n = Suc i then h_response h else []) @ an_body (env (n - 1))" if "r = Inr ()"
      proof -
        have "h_response h1 = (if n = Suc (Suc i) then h_response h2 else []) @ an_body (env (n - 1))"
          using IH that by blast
        then show ?thesis using f(2) \<open>Suc i < n\<close> by simp
      qed
      moreover have "r = Inr () \<longleftrightarrow> classify (an_ok (env (n - 1))) (an_code (env (n - 1))) \<noteq> RetryLater"
        using IH by blast
      ultimately show ?thesis by blast
    qed
  qed
qed


text \<open>
  C20. A synchronous request ends after at most seven attempts: the ones before the last were
  answered with a code to retry; it returns exactly when the last was not, with the body of
  the last answer as response (behind what was there before, when there was no retry), and it
  throws exactly when all seven were to be retried.
\<close>

theorem syncRequest_bounded:
  assumes "h_curl h" and "h_retry h = 0" and "syncRequest env h = (r, h1, n)"
  shows "1 \<le> n \<and> n \<le> 7 \<and>
    (\<forall>k < n - 1. classify (an_ok (env k)) (an_code (env k)) = RetryLater) \<and>
    (r = Inr () \<longleftrightarrow> classify (an_ok (env (n - 1))) (an_code (env (n - 1))) \<noteq> RetryLater) \<and>
    (r = Inr () \<longrightarrow> h_response h1 = (if n = 1 then h_response h else []) @ an_body (env (n - 1))) \<and>
    (r \<noteq> Inr () \<longrightarrow> n = 7)"
proof -
  have "sync_loop env 0 h = (r, h1, n)" using assms by (simp add: syncRequest_def)
  note sp = sync_loop_spec [OF this]
  have t: "tries h = 7" using assms(2) by (simp add: tries_def)
  have "1 \<le> n" "n \<le> 7" using sp t by linarith+
  moreover have "\<forall>k < n - 1. classify (an_ok (env k)) (an_code (env k)) = RetryLater" using sp by blast
  moreover have "r \<noteq> Inr () \<longrightarrow> n = 0 + tries h" using sp by blast
  then have "r \<noteq> Inr () \<longrightarrow> n = 7" using t by simp
  moreover have "r = Inr () \<longrightarrow> h_response h1 = (if n = 1 then h_response h else []) @ an_body (env (n - 1))"
    using sp unfolding One_nat_def by blast
  moreover have "r = Inr () \<longleftrightarrow> classify (an_ok (env (n - 1))) (an_code (env (n - 1))) \<noteq> RetryLater"
    using sp by blast
  ultimately show ?thesis by blast
qed

theorem syncRequest_bounded_witness:
  "\<exists>r h1 n. syncRequest (\<lambda>i. \<lparr>an_ok = True, an_code = (if i < 2 then 503 else 200), an_body = ''b'', an_jitter = 0, an_now = 0\<rparr>)
     (RequestHandle True []) = (r, h1, n) \<and> n = 3"
proof -
  let ?env = "\<lambda>i. \<lparr>an_ok = True, an_code = (if i < 2 then 503 else 200), an_body = ''b'', an_jitter = 0, an_now = 0\<rparr>"
  let ?h = "RequestHandle True []"
  obtain r h1 n where s: "syncRequest ?env ?h = (r, h1, n)" by (metis prod.exhaust)
  have c: "classify (an_ok (?env k)) (an_code (?env k)) = RetryLater \<longleftrightarrow> k < 2" for k
    by (simp add: classify_def retry_code_def)
  have h: "h_curl ?h" "h_retry ?h = 0" by (simp_all add: RequestHandle_def)
  have b: "1 \<le> n \<and> n \<le> 7 \<and> (\<forall>k < n - 1. k < 2) \<and> (r = Inr () \<longleftrightarrow> \<not> n - 1 < 2) \<and> (r \<noteq> Inr () \<longrightarrow> n = 7)"
    using syncRequest_bounded [OF h s, unfolded c] by blast
  then have le: "2 \<le> n - 1" by linarith
  have "\<not> 2 < n - 1" using b by blast
  with le have "n = 3" by simp
  then show ?thesis using s by blast
qed


subsection \<open>Pages of changes\<close>

lemma handle_frame [simp]:
  "h_curl (addHeaders s h) = h_curl h" "h_response (addHeaders s h) = h_response h"
  "h_curl (setCommonCURLOpt h) = h_curl h" "h_response (setCommonCURLOpt h) = h_response h"
  "h_curl (clear_response h) = h_curl h" "h_response (clear_response h) = []"
  by (simp_all add: addHeaders_def setCommonCURLOpt_def Let_def setopt_def clear_response_def)

text \<open>A request whose first answer is not one to retry.\<close>

abbreviation next_answer :: "('j, 's) csys_scheme \<Rightarrow> answer" where
  "next_answer w \<equiv> w_answers w (w_requests w)"

definition settled :: "answer \<Rightarrow> bool" where
  "settled a \<longleftrightarrow> classify (an_ok a) (an_code a) \<noteq> RetryLater"

lemma http_sync_once:
  assumes "h_curl h" "settled (next_answer w)"
  shows "http_sync h w =
    (Inr (h\<lparr>h_response := h_response h @ an_body (next_answer w)\<rparr>), w\<lparr>w_requests := Suc (w_requests w)\<rparr>)"
  using assms
  by (simp add: http_sync_def syncRequest_def sync_loop.simps settled_def Let_def writeCallback_def)

lemma ask_once:
  assumes "h_curl h" "settled (next_answer w)"
  shows "ask J h w =
    (case js_parse J (h_response h @ an_body (next_answer w)) of
       Inl e \<Rightarrow> (Inl e, w\<lparr>w_requests := Suc (w_requests w)\<rparr>)
     | Inr j \<Rightarrow> (Inr (h\<lparr>h_response := h_response h @ an_body (next_answer w)\<rparr>, j), w\<lparr>w_requests := Suc (w_requests w)\<rparr>))"
  by (simp add: ask_def andThen_def http_sync_once [OF assms] split: sum.split)

text \<open>
  C21. Only the first page of Google's changes is fetched. The loop looks the next token up as
  \<open>nexPageToken\<close>, a member the server does not send; so whatever \<open>nextPageToken\<close> says, exactly
  one request is made. A first page that is not the last has no \<open>newStartPageToken\<close>, and then
  the exception leaves \<open>getChanges\<close> (and ends the polling thread) with no change queued.
\<close>

theorem google_first_page_only:
  assumes "h_curl (w_h0 w)" and "h_response (w_h0 w) = []" and "gd_page_token (w_google w i) \<noteq> []"
    and "settled (next_answer w)" and "js_parse J (an_body (next_answer w)) = Inr page"
    and "js_value_text J page ''nexPageToken'' [] = Inr []"
  shows "gd_getChanges (Suc n) J i w =
    (let w1 = w\<lparr>w_requests := Suc (w_requests w)\<rparr>
     in case js_text_at J page ''newStartPageToken'' of
          Inl e \<Rightarrow> (Inl e, w1)
        | Inr t \<Rightarrow>
            (let w2 = snd (upd_google i (\<lambda>g. g\<lparr>gd_page_token := t\<rparr>) w1)
             in case js_at J page ''changes'' of
                  Inl e \<Rightarrow> (Inl e, w2)
                | Inr cs \<Rightarrow>
                    (if js_empty J cs then (Inr (), w2)
                     else gd_onChange i (snd (upd_google i (\<lambda>g. g\<lparr>gd_events := q_push [page] (gd_events g)\<rparr>) w2)))))"
proof -
  obtain c cs where t: "gd_page_token (w_google w i) = c # cs" using assms(3) by (cases "gd_page_token (w_google w i)") auto
  show ?thesis
    using assms(1,2,4-6) t
    by (simp add: gd_getChanges_def Let_def andThen_def ask_once upd_google_def split: sum.split)
qed

theorem google_first_page_only_witness:
  "let J = table_lib [(''p1'', JObj [(''nextPageToken'', JText ''2''), (''changes'', JList [JObj []])]), (''p2'', JObj [])];
       w = (sample_daemon [] [] [] 0)\<lparr>w_answers := answers_of [''p1'', ''p2''],
              w_google := (\<lambda>i. google_new [] [] [] empty_path empty_path i ''1'')\<rparr>
   in gd_getChanges 5 J 1 w = (Inl (JsonError ''type_error 302''), w\<lparr>w_requests := 1\<rparr>)"
proof -
  let ?p = "JObj [(''nextPageToken'', JText ''2''), (''changes'', JList [JObj []])]"
  let ?J = "table_lib [(''p1'', ?p), (''p2'', JObj [])]"
  let ?w = "(sample_daemon [] [] [] 0)\<lparr>w_answers := answers_of [''p1'', ''p2''],
              w_google := (\<lambda>i. google_new [] [] [] empty_path empty_path i ''1'')\<rparr>"
  have "gd_getChanges (Suc 4) ?J 1 ?w = (Inl (JsonError ''type_error 302''), ?w\<lparr>w_requests := 1\<rparr>)"
    by (subst google_first_page_only [of ?w 1 ?J ?p 4])
       (simp_all add: sample_daemon_def RequestHandle_def google_new_def answers_of_def ok_answer_def settled_def
         classify_def retry_code_def table_lib_def jv_value_def js_text_at_def)
  then show ?thesis by (simp add: Let_def eval_nat_numeral)
qed

text \<open>
  C22. A second page of Dropbox's changes ends the polling. The response of the handle is not
  cleared between the pages, so the second text to be parsed is both bodies one after the
  other, which is no JSON text: the exception leaves \<open>getChanges\<close> with no change queued and
  the cursor as it was.
\<close>

theorem dropbox_second_page_fails:
  assumes "h_curl (w_h0 w)" and "h_response (w_h0 w) = []" and "dx_page_token (w_dropbox w i) \<noteq> []"
    and "settled (w_answers w (w_requests w))" and "settled (w_answers w (Suc (w_requests w)))"
    and "js_parse J (an_body (w_answers w (w_requests w))) = Inr page"
    and "js_value_flag J page ''has_more'' False = Inr True"
    and "js_value_text J page ''cursor'' (dx_page_token (w_dropbox w i)) = Inr cursor"
    and "js_dump J (dx_cursor_body J (dx_page_token (w_dropbox w i))) = Inr body"
    and "js_dump J (dx_cursor_body J cursor) = Inr body1"
    and "js_parse J (an_body (w_answers w (w_requests w)) @ an_body (w_answers w (Suc (w_requests w)))) = Inl e"
  shows "dx_getChanges (Suc (Suc n)) J i w = (Inl e, w\<lparr>w_requests := Suc (Suc (w_requests w))\<rparr>)"
  using assms by (simp add: dx_getChanges_def Let_def andThen_def ask_once)

theorem dropbox_second_page_fails_witness:
  "let p = (\<lambda>more. JObj [(''has_more'', JFlag more), (''cursor'', JText ''c''), (''entries'', JList [JObj []])]);
       J = table_lib [(''p1'', p True), (''p2'', p False)];
       w = (sample_daemon [] [] [] 0)\<lparr>w_answers := answers_of [''p1'', ''p2''],
              w_dropbox := (\<lambda>i. dropbox_new [] [] [] empty_path empty_path i ''1'')\<rparr>
   in dx_getChanges 2 J 1 w = (Inl (JsonError ''parse_error''), w\<lparr>w_requests := 2\<rparr>)"
proof -
  let ?p = "\<lambda>more. JObj [(''has_more'', JFlag more), (''cursor'', JText ''c''), (''entries'', JList [JObj []])]"
  let ?J = "table_lib [(''p1'', ?p True), (''p2'', ?p False)]"
  let ?w = "(sample_daemon [] [] [] 0)\<lparr>w_answers := answers_of [''p1'', ''p2''],
              w_dropbox := (\<lambda>i. dropbox_new [] [] [] empty_path empty_path i ''1'')\<rparr>"
  have "dx_getChanges (Suc (Suc 0)) ?J 1 ?w = (Inl (JsonError ''parse_error''), ?w\<lparr>w_requests := Suc (Suc (w_requests ?w))\<rparr>)"
    by (rule dropbox_second_page_fails [of ?w 1 ?J "?p True" "''c''" "[]" "[]"])
       (simp_all add: sample_daemon_def RequestHandle_def dropbox_new_def answers_of_def ok_answer_def settled_def
         classify_def retry_code_def table_lib_def jv_value_def)
  then show ?thesis by (simp add: Let_def eval_nat_numeral sample_daemon_def)
qed


subsection \<open>Judging reports\<close>

text \<open>What a report of a file means, decided by what is known about the file.\<close>

datatype verdict = Unchanged | Creation | Deletion | Moving bool | Updating

definition report_verdict :: "bool \<Rightarrow> bool \<Rightarrow> bool \<Rightarrow> bool \<Rightarrow> verdict" where
  "report_verdict known gone moved content =
     (if \<not> known then (if gone then Unchanged else Creation)
      else if gone then Deletion
      else if moved then Moving content
      else if content then Updating else Unchanged)"

text \<open>The changes made for a verdict: at most one, and the update of a moved file depends on the move.\<close>

definition made_for :: "int \<Rightarrow> path \<Rightarrow> path \<Rightarrow> verdict \<Rightarrow> heap \<Rightarrow> nat list \<Rightarrow> heap \<Rightarrow> bool" where
  "made_for cid rel old_path v hp as hp1 \<longleftrightarrow>
     take (length hp) hp1 = hp \<and>
     (case v of
        Unchanged \<Rightarrow> as = [] \<and> hp1 = hp
      | Creation \<Rightarrow> as = [length hp] \<and> length hp1 = Suc (length hp) \<and>
          ch_type (hp1 ! length hp) = New \<and> ch_path (hp1 ! length hp) = rel
      | Deletion \<Rightarrow> as = [length hp] \<and> length hp1 = Suc (length hp) \<and>
          ch_type (hp1 ! length hp) = Delete \<and> ch_path (hp1 ! length hp) = rel
      | Updating \<Rightarrow> as = [length hp] \<and> length hp1 = Suc (length hp) \<and>
          ch_type (hp1 ! length hp) = Update \<and> ch_path (hp1 ! length hp) = rel
      | Moving content \<Rightarrow> as = [length hp] \<and>
          ch_type (hp1 ! length hp) = Move \<and> ch_path (hp1 ! length hp) = old_path \<and>
          (if content
           then length hp1 = Suc (Suc (length hp)) \<and> ch_dependents (hp1 ! length hp) = [Suc (length hp)] \<and>
                ch_type (hp1 ! Suc (length hp)) = Update \<and> ch_path (hp1 ! Suc (length hp)) = rel
           else length hp1 = Suc (length hp) \<and> ch_dependents (hp1 ! length hp) = [])) \<and>
     (\<forall>k. length hp \<le> k \<and> k < length hp1 \<longrightarrow> ch_cloud_id (hp1 ! k) = cid)"

text \<open>Whether the content is newer: the time is later and the hash another one.\<close>

definition newer_content :: "report \<Rightarrow> string \<Rightarrow> file_record_dto \<Rightarrow> bool" where
  "newer_content r hash l \<longleftrightarrow>
     rp_type r \<noteq> Directory \<and> fr_mtime l < rp_mtime r \<and> get_hash_str (fr_hash l) \<noteq> Inr hash"

lemma new_change_eq:
  "new_change (\<lambda>cl. make_change cl ini ks ty tm p d src) w =
     (Inr (length (w_heap w)), w\<lparr>w_heap := w_heap w @ [(Change ty p tm src)\<lparr>
        ch_pending := int (size_chain (head_command ini d (length (w_heap w)) src
                        (stage_tree (factory_clouds w) (length (w_heap w)) src ks))),
        ch_chain := [Some (head_command ini d (length (w_heap w)) src
                        (stage_tree (factory_clouds w) (length (w_heap w)) src ks))]\<rparr>]\<rparr>)"
  by (simp add: new_change_def make_eq Let_def)

lemma gd_emit_made:
  assumes "gd_emit cid r hash nd gid rel old_path new_path opar npar w = (Inr as, w1)"
    and "nd = \<lparr>nd_new = (v = Creation), nd_del = (v = Deletion), nd_move = (v = Moving True \<or> v = Moving False),
               nd_update = (v = Updating \<or> v = Moving True)\<rparr>"
    and "v = Updating \<or> v = Moving True \<Longrightarrow> rel = new_path"
  shows "made_for cid rel old_path v (w_heap w) as (w_heap w1)"
proof -
  consider "v = Unchanged" | "v = Creation" | "v = Deletion" | "v = Moving True" | "v = Moving False" | "v = Updating"
    by (cases v) auto
  then show ?thesis
  proof cases
    case 4
    then show ?thesis using assms
      by (auto simp: gd_emit_def Let_def make_defs new_change_eq andThen_def modify_change_def made_for_def Change_def
          addDependent_def moved_cloud_def updated_cloud_def update_at_def nth_append list_update_append less_Suc_eq)
  qed (use assms in \<open>auto simp: gd_emit_def Let_def make_defs new_change_eq andThen_def made_for_def Change_def
      moved_cloud_def updated_cloud_def deleted_cloud_def record_google_new_def nth_append less_Suc_eq\<close>)
qed


text \<open>Whether the expectations know the report already; an expected move covers a new content too.\<close>

definition is_echo :: "verdict \<Rightarrow> string \<Rightarrow> string \<Rightarrow> registry \<Rightarrow> bool" where
  "is_echo v key cfid m \<longleftrightarrow>
     (case v of
        Unchanged \<Rightarrow> False
      | Creation \<Rightarrow> m key = Some New
      | Deletion \<Rightarrow> m cfid = Some Delete
      | Moving content \<Rightarrow> m cfid = Some Move \<or> (content \<and> m cfid = Some Update)
      | Updating \<Rightarrow> m cfid = Some Update)"

definition needs_of :: "verdict \<Rightarrow> needs" where
  "needs_of v = \<lparr>nd_new = (v = Creation), nd_del = (v = Deletion), nd_move = (v = Moving True \<or> v = Moving False),
                 nd_update = (v = Updating \<or> v = Moving True)\<rparr>"

lemma gd_needs_verdict:
  "gd_needs r hash link gone old_path new_path = Inr nd \<Longrightarrow>
     nd = needs_of (report_verdict (link \<noteq> None) gone (new_path \<noteq> old_path)
            (case link of Some l \<Rightarrow> newer_content r hash l | None \<Rightarrow> False))"
  by (cases link)
     (auto simp: gd_needs_def needs_of_def report_verdict_def newer_content_def not_less
       split: if_splits elim!: res_bind.elims)

lemma gd_own_verdict:
  "fst (gd_own (needs_of v) rel cfid m) \<longleftrightarrow> is_echo v (path_string rel) cfid m"
  "\<not> fst (gd_own (needs_of v) rel cfid m) \<Longrightarrow> snd (gd_own (needs_of v) rel cfid m) = m"
  by (cases v rule: verdict.exhaust; auto simp: gd_own_def needs_of_def is_echo_def check_if_def prev_check_pair Let_def)+

text \<open>
  C17. A reported file of Google Drive is answered by what it is, once: a file not known yet is a
  creation, a known one that is gone a deletion, one at another path a move, one with a later
  time and another hash an update, a moved one with new content both, the update waiting for
  the move. Either the report is the echo of a request of the program, and nothing happens, or
  exactly the change for it is made, at its path and with this cloud as source, and no
  expectation is used up. (An expected move also hides new content reported with it.)
\<close>

theorem google_report_judged:
  assumes "gd_judge g r hash link gone rel old_path new_path st w = (Inr (as, st1), w1)"
    and "link \<noteq> None \<Longrightarrow> \<not> gone \<Longrightarrow> rel = new_path" and "\<not> path_empty rel" and "\<not> is_dot rel"
  shows "let v = report_verdict (link \<noteq> None) gone (new_path \<noteq> old_path)
                   (case link of Some l \<Rightarrow> newer_content r hash l | None \<Rightarrow> False)
         in if is_echo v (path_string rel) (rp_id r) (ts_expected st) then as = [] \<and> w1 = w
            else made_for (gd_id g) rel old_path v (w_heap w) as (w_heap w1) \<and> ts_expected st1 = ts_expected st"
proof -
  obtain nd where nd: "gd_needs r hash link gone old_path new_path = Inr nd"
    using assms(1,3,4) by (cases "gd_needs r hash link gone old_path new_path") (auto simp: gd_judge_def)
  let ?v = "report_verdict (link \<noteq> None) gone (new_path \<noteq> old_path)
              (case link of Some l \<Rightarrow> newer_content r hash l | None \<Rightarrow> False)"
  have v: "nd = needs_of ?v" by (rule gd_needs_verdict [OF nd])
  obtain own reg where o: "gd_own nd rel (rp_id r) (ts_expected st) = (own, reg)" by fastforce
  have e: "own \<longleftrightarrow> is_echo ?v (path_string rel) (rp_id r) (ts_expected st)"
    using gd_own_verdict(1) [of ?v rel "rp_id r" "ts_expected st"] o v by simp
  show ?thesis
  proof (cases own)
    case True
    then show ?thesis using assms(1,3,4) nd o e by (simp add: gd_judge_def Let_def)
  next
    case False
    let ?gid = "case link of Some l \<Rightarrow> fr_global_id l | None \<Rightarrow> 0"
    let ?op = "case link of Some l \<Rightarrow> fr_cloud_parent_id l | None \<Rightarrow> []"
    let ?np = "case link of Some _ \<Rightarrow> rp_parent r | None \<Rightarrow> []"
    have m: "gd_emit (gd_id g) r hash nd ?gid rel old_path new_path ?op ?np w = (Inr as, w1)"
      and st1: "st1 = st\<lparr>ts_expected := reg\<rparr>"
      using assms(1,3,4) nd o False by (auto simp: gd_judge_def Let_def andThen_ok simp del: path_empty_iff)
    have "?v = Updating \<or> ?v = Moving True \<Longrightarrow> rel = new_path"
      using assms(2) by (auto simp: report_verdict_def split: if_splits)
    then have "made_for (gd_id g) rel old_path ?v (w_heap w) as (w_heap w1)"
      using gd_emit_made [OF m, of ?v] v by (simp add: needs_of_def)
    moreover have "reg = ts_expected st"
      using gd_own_verdict(2) [of ?v rel "rp_id r" "ts_expected st"] o v False by simp
    ultimately show ?thesis using False e st1 by (simp add: Let_def)
  qed
qed


definition sample_report :: report where
  "sample_report = \<lparr>rp_id = ''x'', rp_name = ''b'', rp_parent = ''p'', rp_trashed = False, rp_type = File,
                    rp_mtime = 9, rp_size = 1\<rparr>"

definition sample_path :: "string \<Rightarrow> path" where
  "sample_path s = \<lparr>rooted = False, segs = [s]\<rparr>"

theorem google_report_judged_witness:
  "ch_type (w_heap (snd (gd_judge (google_new [] [] [] empty_path empty_path 1 [] :: jv google) sample_report [] None False
     (sample_path ''b'') empty_path empty_path \<lparr>ts_paths = [], ts_expected = Map.empty\<rparr> (sample_daemon [] [] [] 0))) ! 0) = New"
proof -
  let ?g = "google_new [] [] [] empty_path empty_path 1 [] :: jv google"
  let ?st = "\<lparr>ts_paths = [], ts_expected = Map.empty\<rparr> :: turn_state"
  obtain as st1 w1 where j: "gd_judge ?g sample_report [] None False (sample_path ''b'') empty_path empty_path ?st
      (sample_daemon [] [] [] 0) = (Inr (as, st1), w1)"
    by (simp add: gd_judge_def sample_path_def is_dot_def gd_needs_def gd_own_def check_if_def prev_check_def Let_def
        gd_emit_def makeCloudNew_def new_change_eq andThen_def)
  have "made_for (gd_id ?g) (sample_path ''b'') empty_path Creation [] as (w_heap w1)"
    using google_report_judged [OF j]
    by (simp add: sample_path_def is_dot_def report_verdict_def is_echo_def sample_daemon_def)
  then show ?thesis using j by (simp add: made_for_def)
qed

subsection \<open>A move in Dropbox\<close>

lemma db_read:
  assumes "snd (f (w_rc w (w_calls w)) (w_db w)) = w_db w"
  shows "db_call f w = (fst (f (w_rc w (w_calls w)) (w_db w)), w\<lparr>w_calls := Suc (w_calls w)\<rparr>)"
proof -
  obtain r d where f: "f (w_rc w (w_calls w)) (w_db w) = (r, d)" by fastforce
  with assms have "d = w_db w" by simp
  with f show ?thesis by (simp add: db_call_def)
qed

lemma db_read2:
  assumes "snd (f (w_rc w (w_calls w)) (w_rc w (Suc (w_calls w))) (w_db w)) = w_db w"
  shows "db_call2 f w = (fst (f (w_rc w (w_calls w)) (w_rc w (Suc (w_calls w))) (w_db w)), w\<lparr>w_calls := w_calls w + 2\<rparr>)"
proof -
  obtain r d where f: "f (w_rc w (w_calls w)) (w_rc w (Suc (w_calls w))) (w_db w) = (r, d)" by fastforce
  with assms have "d = w_db w" by simp
  with f show ?thesis by (simp add: db_call2_def)
qed

text \<open>What the database knows of a file: the id it has in the cloud, its link and its path.\<close>

definition known_file :: "dropbox \<Rightarrow> path \<Rightarrow> string \<Rightarrow> file_record_dto \<Rightarrow> conn \<Rightarrow> bool" where
  "known_file g p cfid l d \<longleftrightarrow>
     fst (getCloudFileIdByPath rc_ok rc_ok p (dx_id g) d) = Inr cfid \<and>
     fst (getFileByCloudIdAndCloudFileId rc_ok (dx_id g) cfid d) = Inr (Some l) \<and>
     fst (getPathByGlobalId rc_ok (fr_global_id l) d) = Inr p"

text \<open>
  C23. A move made by the user in Dropbox deletes the file. Dropbox reports it as a deletion of
  the old path and an entry for the new one. The deletion waits under the old path, but the
  move takes back the deletion waiting under the new path; so the program makes both, the move
  and after it the deletion of the very file that was moved, everywhere and from the database.
\<close>

theorem dropbox_move_deletes:
  assumes "\<And>k. w_rc w k = rc_ok" and "known_file g a cfid l (w_db w)" and "cfid \<noteq> []"
    and "dx_read_entry J g e1 = Inr \<lparr>dr_tag = ''deleted'', dr_doc = False, dr_id = [], dr_rel = a\<rparr>"
    and "dx_read_entry J g e2 = Inr \<lparr>dr_tag = ''file'', dr_doc = doc, dr_id = cfid, dr_rel = b\<rparr>"
    and "dx_file_data J e2 \<lparr>dr_tag = ''file'', dr_doc = doc, dr_id = cfid, dr_rel = b\<rparr> = Inr (mt, sz, hash)"
    and "mt \<le> fr_mtime l" and "path_string a \<noteq> path_string b"
    and "\<not> path_empty a" "\<not> is_dot a" "\<not> path_empty b" "\<not> is_dot b"
    and "dt_expected st (path_string a) \<noteq> Some Delete" and "dt_expected st cfid \<noteq> Some Move" and "dt_deletes st = []"
    and "js_parse J raw = Inr page" and "js_value_json J page ''entries'' (js_list J []) = Inr es" and "js_elems J es = [e1, e2]"
  shows "\<exists>mv del w1. dx_page_loop J g [raw] st w = (Inr [mv, del], w1) \<and>
    ch_type (w_heap w1 ! mv) = Move \<and> ch_path (w_heap w1 ! mv) = a \<and>
    ch_type (w_heap w1 ! del) = Delete \<and> ch_path (w_heap w1 ! del) = a \<and>
    (\<exists>c. ch_chain (w_heap w1 ! del) = [Some c] \<and>
         cmd_dto c = Some (DeletedDTO (deleted_cloud a (fr_global_id l) (dx_id g) cfid 0)))"
proof -
  have ab: "b \<noteq> a" using assms(8) by auto
  have nd: "dx_needs \<lparr>dr_tag = ''file'', dr_doc = doc, dr_id = cfid, dr_rel = b\<rparr> mt hash (Some l) a =
      Inr \<lparr>nd_new = False, nd_del = False, nd_move = True, nd_update = False\<rparr>"
    using assms(7) ab by (simp add: dx_needs_def Let_def)
  let ?n = "length (w_heap w)"
  have e1: "\<exists>w1. dx_change J g e1 st w = (Inr ([], st\<lparr>dt_deletes := [(path_string a, ?n)]\<rparr>), w1) \<and>
      w_rc w1 = w_rc w \<and> w_db w1 = w_db w \<and> length (w_heap w1) = Suc ?n \<and>
      ch_type (w_heap w1 ! ?n) = Delete \<and> ch_path (w_heap w1 ! ?n) = a \<and>
      (\<exists>c. ch_chain (w_heap w1 ! ?n) = [Some c] \<and>
         cmd_dto c = Some (DeletedDTO (deleted_cloud a (fr_global_id l) (dx_id g) cfid 0)))"
    using assms(1-4,9,10,13,15)
    by (simp add: dx_change_def andThen_def db_read db_read2 known_file_def dx_file_data_def dx_needs_def Let_def
        dx_own_def check_if_def prev_check_def dx_emit_def makeDelete_def new_change_eq pending_put_def
        Change_def head_command_def deleted_cloud_def new_command_def)
  then obtain w1 where w1: "dx_change J g e1 st w = (Inr ([], st\<lparr>dt_deletes := [(path_string a, ?n)]\<rparr>), w1)"
      "\<And>k. w_rc w1 k = rc_ok" "w_db w1 = w_db w" "length (w_heap w1) = Suc ?n"
      "ch_type (w_heap w1 ! ?n) = Delete" "ch_path (w_heap w1 ! ?n) = a"
      "\<exists>c. ch_chain (w_heap w1 ! ?n) = [Some c] \<and>
         cmd_dto c = Some (DeletedDTO (deleted_cloud a (fr_global_id l) (dx_id g) cfid 0))"
    using assms(1) by auto
  have "\<exists>w2. dx_change J g e2 (st\<lparr>dt_deletes := [(path_string a, ?n)]\<rparr>) w1 =
        (Inr ([Suc ?n], st\<lparr>dt_deletes := [(path_string a, ?n)]\<rparr>), w2) \<and> length (w_heap w2) = Suc (Suc ?n) \<and>
      take (Suc ?n) (w_heap w2) = w_heap w1 \<and> ch_type (w_heap w2 ! Suc ?n) = Move \<and> ch_path (w_heap w2 ! Suc ?n) = a"
    using assms(2,3,5,6,11,12,14,8) w1(2,3,4) nd
    by (simp add: dx_change_def andThen_def db_read known_file_def Let_def dx_own_def check_if_def prev_check_def
        dx_emit_def makeCloudMove_def new_change_eq pending_drop_def Change_def moved_cloud_def nth_append)
  then obtain w2 where w2: "dx_change J g e2 (st\<lparr>dt_deletes := [(path_string a, ?n)]\<rparr>) w1 =
        (Inr ([Suc ?n], st\<lparr>dt_deletes := [(path_string a, ?n)]\<rparr>), w2)" "length (w_heap w2) = Suc (Suc ?n)"
      "take (Suc ?n) (w_heap w2) = w_heap w1" "ch_type (w_heap w2 ! Suc ?n) = Move" "ch_path (w_heap w2 ! Suc ?n) = a"
    by blast
  have old: "w_heap w2 ! ?n = w_heap w1 ! ?n" using w2(2,3) by (metis lessI nth_take)
  have "dx_page_loop J g [raw] st w = (Inr [Suc ?n, ?n], w2)"
    using assms(16-18) w1(1) w2(1) by (simp add: andThen_def)
  then show ?thesis using w1(5-7) w2(4,5) old by metis
qed


definition sample_entry :: "string \<Rightarrow> string \<Rightarrow> (string \<times> jv) list \<Rightarrow> jv" where
  "sample_entry tag p ms = JObj ([(''.tag'', JText tag), (''path_display'', JText p)] @ ms)"

definition sample_moved :: jv where
  "sample_moved = sample_entry ''file'' ''/b''
     [(''id'', JText ''x''), (''server_modified'', JText ''1970-01-01T00:00:05Z''), (''content_hash'', JText ''h'')]"

definition sample_page :: jv where
  "sample_page = JObj [(''entries'', JList [sample_entry ''deleted'' ''/a'' [], sample_moved])]"

theorem dropbox_move_deletes_witness:
  "\<exists>mv del w1. dx_page_loop (table_lib [(''p'', sample_page)])
       (dropbox_new [] [] [] \<lparr>rooted = True, segs = []\<rparr> empty_path 1 []) [''p'']
       \<lparr>dt_expected = Map.empty, dt_deletes = []\<rparr> (sample_daemon [] [] [] 0) = (Inr [mv, del], w1) \<and>
     ch_type (w_heap w1 ! mv) = Move \<and> ch_type (w_heap w1 ! del) = Delete"
proof -
  let ?J = "table_lib [(''p'', sample_page)]"
  let ?g = "dropbox_new [] [] [] \<lparr>rooted = True, segs = []\<rparr> empty_path 1 []"
  let ?l = "(link_dto 1 1 (hd (t_links sample_tables)))\<lparr>fr_cloud_file_id := ''x''\<rparr>"
  let ?r = "\<lparr>dr_tag = ''file'', dr_doc = False, dr_id = ''x'', dr_rel = sample_path ''b''\<rparr>"
  have pa: "path_of_string ''/a'' = \<lparr>rooted = True, segs = [''a'']\<rparr>" "path_of_string ''a'' = sample_path ''a''"
    "path_of_string ''/b'' = \<lparr>rooted = True, segs = [''b'']\<rparr>" "narrow_int 1 = 1"
    "path_string (sample_path ''a'') = ''a''" "path_string (sample_path ''b'') = ''b''"
    "convertCloudTime ''1970-01-01T00:00:05Z'' = 5" "c_str ''x'' = ''x''" "c_str ''a'' = ''a''"
    by code_simp+
  have rel: "lexically_relative \<lparr>rooted = True, segs = [s]\<rparr> \<lparr>rooted = True, segs = []\<rparr> = sample_path s" if "s \<noteq> []" for s
    using that by (simp add: lexically_relative_def up_count_def sample_path_def)
  have k: "known_file ?g (sample_path ''a'') ''x'' ?l sample_conn"
    by (simp add: known_file_def getCloudFileIdByPath_def lookup_defs sh_simps pa link_dto_def
        sample_tables_def dropbox_new_def)
  have d: "dx_read_entry ?J ?g (sample_entry ''deleted'' ''/a'' []) =
      Inr \<lparr>dr_tag = ''deleted'', dr_doc = False, dr_id = [], dr_rel = sample_path ''a''\<rparr>"
    "dx_read_entry ?J ?g sample_moved = Inr ?r"
    "dx_file_data ?J sample_moved ?r = Inr (5, 0, ''h'')"
    by (simp_all add: dx_read_entry_def dx_file_data_def table_lib_def sample_entry_def sample_moved_def js_text_at_def
        jv_value_def pa rel dropbox_new_def)
  have k': "known_file ?g (sample_path ''a'') ''x'' ?l (w_db (sample_daemon [] [] [] 0))"
    using k by (simp add: sample_daemon_def)
  have nd: "\<not> path_empty (sample_path ''a'')" "\<not> is_dot (sample_path ''a'')"
    "\<not> path_empty (sample_path ''b'')" "\<not> is_dot (sample_path ''b'')"
    by (simp_all add: sample_path_def is_dot_def)
  have js: "js_parse ?J ''p'' = Inr sample_page"
    "js_value_json ?J sample_page ''entries'' (js_list ?J []) = Inr (JList [sample_entry ''deleted'' ''/a'' [], sample_moved])"
    "js_elems ?J (JList [sample_entry ''deleted'' ''/a'' [], sample_moved]) = [sample_entry ''deleted'' ''/a'' [], sample_moved]"
    by (simp_all add: table_lib_def sample_page_def jv_value_def)
  have t: "(5 :: int) \<le> fr_mtime ?l" by (simp add: link_dto_def sh_simps sample_tables_def)
  have "\<exists>mv del w1. dx_page_loop ?J ?g [''p''] \<lparr>dt_expected = Map.empty, dt_deletes = []\<rparr> (sample_daemon [] [] [] 0)
      = (Inr [mv, del], w1) \<and>
    ch_type (w_heap w1 ! mv) = Move \<and> ch_path (w_heap w1 ! mv) = sample_path ''a'' \<and>
    ch_type (w_heap w1 ! del) = Delete \<and> ch_path (w_heap w1 ! del) = sample_path ''a'' \<and>
    (\<exists>c. ch_chain (w_heap w1 ! del) = [Some c] \<and>
         cmd_dto c = Some (DeletedDTO (deleted_cloud (sample_path ''a'') (fr_global_id ?l) (dx_id ?g) ''x'' 0)))"
    by (rule dropbox_move_deletes [OF _ k' _ d t _ nd _ _ _ js]) (simp_all add: pa sample_daemon_def)
  then show ?thesis by blast
qed

subsection \<open>Expectations and polls\<close>

definition same_clouds :: "('j, 's) csys_scheme \<Rightarrow> ('j, 's) csys_scheme \<Rightarrow> bool" where
  "same_clouds w w1 \<longleftrightarrow> w_google w1 = w_google w \<and> w_dropbox w1 = w_dropbox w"

interpretation cf: step_rel same_clouds
  by unfold_locales (auto simp: same_clouds_def)

lemma same_clouds_parts:
  "same_clouds w (snd (db_call f w))" "same_clouds w (snd (db_call2 k w))" "same_clouds w (snd (new_change mk w))"
  "same_clouds w (snd (modify_change a g w))"
  by (simp_all add: same_clouds_def db_call_def db_call2_def new_change_def modify_change_def split: prod.split)

lemmas cf_rules = cf.R_andThen cf.R_refl cf.R_basic same_clouds_parts

lemma gd_emit_same: "same_clouds w (snd (gd_emit c r h nd g rel op np a b w))"
  unfolding gd_emit_def Let_def by (auto intro!: cf_rules simp del: act_simps andThen_basic)

lemma gd_judge_same: "same_clouds w (snd (gd_judge g r hash link tr rel op np st w))"
  unfolding gd_judge_def Let_def
  by (auto intro!: cf_rules gd_emit_same simp del: act_simps andThen_basic split: prod.split)

lemma gd_place_same: "same_clouds w (snd (gd_place_new g pm r w))" "same_clouds w (snd (gd_place_linked g r l op w))"
  unfolding gd_place_new_def gd_place_linked_def Let_def
  by (auto intro!: cf_rules simp del: act_simps andThen_basic split: option.split)

lemma gd_change_same: "same_clouds w (snd (gd_change J g jc st w))"
  unfolding gd_change_def
  by (auto intro!: cf_rules gd_judge_same gd_place_same simp del: act_simps andThen_basic split: option.split)

lemma gd_change_loop_same: "same_clouds w (snd (gd_change_loop J g jcs st w))"
  by (induction jcs arbitrary: st w) (auto intro!: cf_rules gd_change_same simp del: act_simps andThen_basic)

lemma gd_page_loop_same: "same_clouds w (snd (gd_page_loop J g ps st w))"
  by (induction ps arbitrary: st w) (auto intro!: cf_rules gd_change_loop_same simp del: act_simps andThen_basic)

lemma dx_emit_same: "same_clouds w (snd (dx_emit c r cf d nd g op st w))"
  unfolding dx_emit_def Let_def by (auto intro!: cf_rules simp del: act_simps andThen_basic split: prod.split)

lemma dx_change_same: "same_clouds w (snd (dx_change J g e st w))"
  unfolding dx_change_def Let_def
  by (auto intro!: cf_rules dx_emit_same simp del: act_simps andThen_basic split: option.split prod.split)

lemma dx_change_loop_same: "same_clouds w (snd (dx_change_loop J g jcs st w))"
  by (induction jcs arbitrary: st w) (auto intro!: cf_rules dx_change_same simp del: act_simps andThen_basic)

lemma dx_page_loop_same: "same_clouds w (snd (dx_page_loop J g ps st w))"
  by (induction ps arbitrary: st w) (auto intro!: cf_rules dx_change_loop_same simp del: act_simps andThen_basic)


text \<open>
  A poll forgets what it did not see. Turning a batch of reports of a cloud into changes takes
  over all expectations, whatever the batch holds and whether or not it ends with an exception:
  the registry is empty afterwards, so the echo of a request that only arrives with a later
  batch is taken for a change of the user.
\<close>

theorem cloud_poll_forgets:
  "(q_items (gd_events (w_google w i)) \<noteq> [] \<longrightarrow>
      gd_expected (w_google (snd (gd_proccessChanges J i w)) i) = Map.empty) \<and>
   (q_items (dx_events (w_dropbox w i)) \<noteq> [] \<longrightarrow>
      dx_expected (w_dropbox (snd (dx_proccessChanges J i w)) i) = Map.empty)"
proof (intro conjI impI)
  assume "q_items (gd_events (w_google w i)) \<noteq> []"
  then obtain p q where q: "q_try_pop (gd_events (w_google w i)) = (Some p, q)"
    by (cases "q_items (gd_events (w_google w i))") (auto simp: q_try_pop_def)
  show "gd_expected (w_google (snd (gd_proccessChanges J i w)) i) = Map.empty"
    by (simp add: gd_proccessChanges_def q Let_def upd_google_def reg_copy_map_def
        gd_page_loop_same [unfolded same_clouds_def])
next
  assume "q_items (dx_events (w_dropbox w i)) \<noteq> []"
  then obtain p q where q: "q_try_pop (dx_events (w_dropbox w i)) = (Some p, q)"
    by (cases "q_items (dx_events (w_dropbox w i))") (auto simp: q_try_pop_def)
  show "dx_expected (w_dropbox (snd (dx_proccessChanges J i w)) i) = Map.empty"
    by (simp add: dx_proccessChanges_def q Let_def upd_dropbox_def reg_copy_map_def
        dx_page_loop_same [unfolded same_clouds_def])
qed

theorem cloud_poll_forgets_witness:
  "let w = (sample_daemon [] [] [] 0)\<lparr>w_google := (\<lambda>i. (google_new [] [] [] empty_path empty_path i [])
             \<lparr>gd_events := q_push [] q_new, gd_expected := [''x'' \<mapsto> Move]\<rparr>)\<rparr>
   in gd_expected (w_google (snd (gd_proccessChanges (table_lib []) 1 w)) 1) = Map.empty"
  unfolding Let_def by (rule cloud_poll_forgets [THEN conjunct1, rule_format]) (simp add: q_push_def q_new_def)

text \<open>The key and the kind under which a request of Google Drive expects its own report.\<close>

lemma gd_setup_expects:
  "gd_setupUploadHandle J i r h w = (Inr h1, w1) \<Longrightarrow>
     gd_expected (w_google w1 i) = reg_add_path (fr_rel_path r) New (gd_expected (w_google w i))"
  "gd_setupUpdateHandle i u h w = (Inr h1, w1) \<Longrightarrow>
     gd_expected (w_google w1 i) = reg_add (fu_cloud_file_id u) Update (gd_expected (w_google w i))"
  "gd_setupMoveHandle J i m h w = (Inr h1, w1) \<Longrightarrow>
     gd_expected (w_google w1 i) = reg_add (fm_cloud_file_id m) Move (gd_expected (w_google w i))"
  "gd_setupDeleteHandle J i x h w = (Inr h1, w1) \<Longrightarrow>
     gd_expected (w_google w1 i) = reg_add (fd_cloud_file_id x) Delete (gd_expected (w_google w i))"
  by (auto simp: gd_setupUploadHandle_def gd_setupUpdateHandle_def gd_setupMoveHandle_def gd_setupDeleteHandle_def
      gd_upload_parent_def gd_expect_def gd_expect_path_def upd_google_def open_stream_def Let_def andThen_ok lift_res_def
      db_call2_def split: if_splits prod.splits)

text \<open>
  C18. What the program does on Google Drive is not reported back to it. Once the request of an
  upload, update, move or deletion has been set up (its key being free), a report of the next
  poll that calls for just this kind of change is recognised: it makes no change, and the
  expectation is used up.
\<close>

theorem google_requests_not_echoed:
  assumes "(\<exists>r h h1. k = path_string (fr_rel_path r) \<and> v = Creation \<and> gd_setupUploadHandle J i r h w = (Inr h1, w1)) \<or>
      (\<exists>u h h1. k = fu_cloud_file_id u \<and> v = Updating \<and> gd_setupUpdateHandle i u h w = (Inr h1, w1)) \<or>
      (\<exists>m h h1. k = fm_cloud_file_id m \<and> v = Moving False \<and> gd_setupMoveHandle J i m h w = (Inr h1, w1)) \<or>
      (\<exists>x h h1. k = fd_cloud_file_id x \<and> v = Deletion \<and> gd_setupDeleteHandle J i x h w = (Inr h1, w1))"
    and "gd_expected (w_google w i) k = None"
    and "gd_needs r hash link gone old_path new_path = Inr (needs_of v)"
    and "k = (if v = Creation then path_string rel else rp_id r)" and "\<not> path_empty rel" and "\<not> is_dot rel"
    and "ts_expected st = fst (reg_copy_map (gd_expected (w_google w1 i)))"
  shows "gd_judge g r hash link gone rel old_path new_path st w2 =
    (Inr ([], st\<lparr>ts_expected := gd_expected (w_google w i)\<rparr>), w2)"
proof -
  let ?ct = "case v of Creation \<Rightarrow> New | Updating \<Rightarrow> Update | Deletion \<Rightarrow> Delete | _ \<Rightarrow> Move"
  have v: "v = Creation \<or> v = Updating \<or> v = Moving False \<or> v = Deletion" using assms(1) by auto
  have reg: "ts_expected st = (gd_expected (w_google w i))(k \<mapsto> ?ct)"
    using assms(1,2,7) by (auto simp: reg_copy_map_def reg_add_path_def reg_add_def dest!: gd_setup_expects)
  have "gd_own (needs_of v) rel (rp_id r) (ts_expected st) = (True, gd_expected (w_google w i))"
    using v reg assms(2,4)
    by (auto simp: gd_own_def needs_of_def check_if_def prev_check_pair Let_def fun_upd_idem)
  then show ?thesis using assms(3,5,6) by (simp add: gd_judge_def)
qed

theorem google_requests_not_echoed_witness:
  "let w = sample_daemon [] [] [] 0; x = deleted_cloud empty_path 7 1 ''f'' 0;
       r = sample_report\<lparr>rp_id := ''f'', rp_trashed := True\<rparr>; l = link_dto 7 1 (hd (t_links sample_tables))
   in \<exists>h1 w1. gd_setupDeleteHandle (table_lib []) 1 x (RequestHandle True []) w = (Inr h1, w1) \<and>
        gd_judge (w_google w1 1) r [] (Some l) True (sample_path ''b'') (sample_path ''b'') (sample_path ''b'')
          \<lparr>ts_paths = [], ts_expected = gd_expected (w_google w1 1)\<rparr> w1 =
        (Inr ([], \<lparr>ts_paths = [], ts_expected = Map.empty\<rparr>), w1)"
proof -
  let ?w = "sample_daemon [] [] [] 0" let ?x = "deleted_cloud empty_path 7 1 ''f'' 0"
  let ?r = "sample_report\<lparr>rp_id := ''f'', rp_trashed := True\<rparr>" let ?l = "link_dto 7 1 (hd (t_links sample_tables))"
  obtain h1 w1 where s: "gd_setupDeleteHandle (table_lib []) 1 ?x (RequestHandle True []) ?w = (Inr h1, w1)"
    by (simp add: gd_setupDeleteHandle_def table_lib_def gd_expect_def upd_google_def andThen_def Let_def)
  have req: "\<exists>x h h1. ''f'' = fd_cloud_file_id x \<and> Deletion = Deletion \<and>
      gd_setupDeleteHandle (table_lib []) 1 x h ?w = (Inr h1, w1)"
    by (rule exI [of _ ?x], rule exI [of _ "RequestHandle True []"], rule exI [of _ h1]) (simp add: s, simp add: deleted_cloud_def)
  have e: "gd_expected (w_google ?w 1) = Map.empty" by (simp add: sample_daemon_def google_new_def)
  have "gd_judge (w_google w1 1) ?r [] (Some ?l) True (sample_path ''b'') (sample_path ''b'') (sample_path ''b'')
          \<lparr>ts_paths = [], ts_expected = gd_expected (w_google w1 1)\<rparr> w1 =
        (Inr ([], \<lparr>ts_paths = [], ts_expected = gd_expected (w_google w1 1)\<rparr>\<lparr>ts_expected := gd_expected (w_google ?w 1)\<rparr>), w1)"
    by (rule google_requests_not_echoed [where v = Deletion and k = "''f''", OF disjI2 [OF disjI2 [OF disjI2 [OF req]]]])
       (simp_all add: e gd_needs_def needs_of_def sample_path_def is_dot_def reg_copy_map_def)
  then show ?thesis using s e by auto
qed


subsection \<open>Listings over several pages\<close>

text \<open>An answer that is one page of a folder: its entries and the token of the next page.\<close>

definition gd_page_is ::
  "'j lib \<Rightarrow> 'j google \<Rightarrow> string \<Rightarrow> path \<Rightarrow> answer \<Rightarrow> string \<Rightarrow> file_record_dto list \<Rightarrow> bool" where
  "gd_page_is J g parent_id rel a next ds \<longleftrightarrow>
     settled a \<and>
     (\<exists>page files. js_parse J (an_body a) = Inr page \<and> js_at J page ''files'' = Inr files \<and>
        js_value_text J page ''nextPageToken'' [] = Inr next \<and>
        map (gd_entry J g parent_id rel) (js_elems J files) = map Inr ds)"

lemma for_each_lift:
  "map f xs = map Inr ys \<Longrightarrow> for_each (\<lambda>x. lift_res (f x)) xs w = (Inr ys, w)"
  by (induction xs arbitrary: ys) auto

lemma gd_pages_step:
  assumes c: "h_curl h" and p: "gd_page_is J g parent_id rel (next_answer w) tok ds"
  shows "\<exists>h1. h_curl h1 \<and> gd_pages (Suc n) J g parent_id rel token h w =
    (if tok = [] then (Inr (h1, ds), w\<lparr>w_requests := Suc (w_requests w)\<rparr>)
     else andThen (gd_pages n J g parent_id rel tok h1) (\<lambda>(h2, ds2). ret (h2, ds @ ds2))
            (w\<lparr>w_requests := Suc (w_requests w)\<rparr>))"
proof -
  obtain page files where pg: "settled (next_answer w)" "js_parse J (an_body (next_answer w)) = Inr page"
    "js_at J page ''files'' = Inr files" "js_value_text J page ''nextPageToken'' [] = Inr tok"
    "map (gd_entry J g parent_id rel) (js_elems J files) = map Inr ds"
    using p by (auto simp: gd_page_is_def)
  show ?thesis
    by (rule exI [of _ "(clear_response (setopt (Url (c_str (gd_page_url g parent_id token))) h))
          \<lparr>h_response := an_body (next_answer w)\<rparr>"])
       (use c pg in \<open>simp add: ask_once andThen_def clear_response_def for_each_lift\<close>)
qed



end
