(* ===== verification/Configuration.thy ===== *)
theory Configuration
  imports CloudProps
begin

text \<open>
  \<open>src/sync-manager.cpp\<close> from the constructors to \<open>checkLocalPermissions\<close>, and \<open>registerCloud\<close>;
  \<open>include/cloud-factory.h\<close>; the constructor of \<open>src/LocalStorage.cpp\<close>; and
  \<open>src/http-server.cpp\<close>, which waits for the authorisation code. The set of clouds is a part of
  the state now: \<open>sm_kinds\<close> says which class is behind an id. Iteration orders of
  \<open>unordered_map\<close> are unspecified; \<open>sm_clouds\<close> keeps the order of insertion.
\<close>

subsection \<open>State\<close>

record 'j msys = "'j csys" +
  sm_local_dir :: path
  sm_kinds :: "int \<Rightarrow> cloud_provider_type option"
  sm_has_local :: bool
  sm_redirects :: "string list list"
  sm_watching :: bool
  sm_threads :: bool
  sm_should_exit :: bool

text \<open>
  \<open>sm_redirects\<close>: for every registration to come, the codes its server is sent. The program with
  the clouds that exist now.
\<close>

definition configured :: "'j program \<Rightarrow> ('j, 's) msys_scheme \<Rightarrow> 'j program" where
  "configured P w = P\<lparr>pg_kind := sm_kinds w\<rparr>"

subsection \<open>File system\<close>

text \<open>
  \<open>absolute\<close>, \<open>canonical\<close> and \<open>create_directories\<close> on the tree; and what the permissions of the
  operating system, which the tree does not have, allow: writing to a path, listing a directory.
\<close>

definition fs_absolute :: "fs \<Rightarrow> path \<Rightarrow> path res" where
  "fs_absolute f p =
     (if path_empty p then Inl (FilesystemError ''cannot make absolute path'')
      else Inr (if rooted p then p else \<lparr>rooted = True, segs = fs_cwd f @ segs p\<rparr>))"

definition fs_canonical :: "fs \<Rightarrow> path \<Rightarrow> path res" where
  "fs_canonical f p =
     (if fs_exists f p then Inr \<lparr>rooted = True, segs = fs_key f p\<rparr>
      else Inl (FilesystemError ''cannot make canonical path''))"

fun make_dirs :: "string list \<Rightarrow> string list \<Rightarrow> fs \<Rightarrow> unit res \<times> fs" where
  "make_dirs pre [] f = (Inr (), f)"
| "make_dirs pre (s # ss) f =
     (case fs_create_directory \<lparr>rooted = True, segs = pre @ [s]\<rparr> f of
        (Inl e, f1) \<Rightarrow> (Inl e, f1)
      | (Inr _, f1) \<Rightarrow> make_dirs (pre @ [s]) ss f1)"

definition fs_create_directories :: "path \<Rightarrow> fs \<Rightarrow> unit res \<times> fs" where
  "fs_create_directories p f = make_dirs [] (fs_key f p) f"

record perms =
  may_write :: "path \<Rightarrow> bool"
  may_list :: "path \<Rightarrow> bool"

subsection \<open>The local directory\<close>

definition LocalStorage :: "path \<Rightarrow> int \<Rightarrow> ('s lsys_scheme, unit) act" where
  "LocalStorage home_dir cloud_id =
     andThen (fs_query (\<lambda>f. fs_canonical f home_dir))
       (\<lambda>c. modify (\<lambda>w. w\<lparr>ls_home := c, ls_id := cloud_id, ls_events := q_new, ls_changes := q_new,
                          ls_expected := Map.empty, ls_on_change := False\<rparr>))"

definition make_local :: "(('j, 's) msys_scheme, unit) act" where
  "make_local w =
     andThen (LocalStorage (sm_local_dir w) 0) (\<lambda>_. modify (\<lambda>w. w\<lparr>sm_has_local := True\<rparr>)) w"

definition setLocalDir :: "string \<Rightarrow> (('j, 's) msys_scheme, unit) act" where
  "setLocalDir s =
     (let input = path_of_string s
      in andThen (fs_query (\<lambda>f. fs_absolute f input))
           (\<lambda>a. andThen (\<lambda>w. if fs_exists (w_fs w) a
                then (if \<not> fs_is_directory (w_fs w) a
                      then throw (RuntimeError (''This is not a directory: '' @ path_string input)) w
                      else ret () w)
                else fs_call (fs_create_directories a) w)
           (\<lambda>_. andThen (fs_query (\<lambda>f. fs_canonical f a))
           (\<lambda>c. andThen (modify (\<lambda>w. w\<lparr>sm_local_dir := c\<rparr>)) (\<lambda>_. make_local)))))"

definition probe_name :: string where
  "probe_name = ''.tmp_permission_check''"

definition directoryIsWritable :: "perms \<Rightarrow> path \<Rightarrow> fs \<Rightarrow> bool \<times> fs" where
  "directoryIsWritable pm dir f =
     (let test_file = path_div_seg dir probe_name
      in if \<not> may_write pm test_file then (False, f)
         else (case fs_open_out test_file f of
                 (None, f1) \<Rightarrow> (False, f1)
               | (Some _, f1) \<Rightarrow>
                   (case fs_remove test_file f1 of (Inl _, f2) \<Rightarrow> (False, f2) | (Inr _, f2) \<Rightarrow> (True, f2))))"

text \<open>
  The loop over all entries. To go on from a directory that may not be listed sets the error
  code and makes the iterator the end iterator, which is then dereferenced.
\<close>

definition entry_accessible :: "perms \<Rightarrow> path \<Rightarrow> fs \<Rightarrow> bool \<times> fs" where
  "entry_accessible pm p f =
     (if fs_is_directory f p then directoryIsWritable pm p f
      else (\<not> fs_is_regular_file f p \<or> may_write pm p, f))"

fun check_entries :: "perms \<Rightarrow> path list \<Rightarrow> fs \<Rightarrow> path list res \<times> fs" where
  "check_entries pm [] f = (Inr [], f)"
| "check_entries pm (p # ps) f =
     (let (ok, f1) = entry_accessible pm p f
      in if fs_is_directory f p \<and> \<not> may_list pm p then (Inl NullPointer, f1)
         else (case check_entries pm ps f1 of
                 (Inl e, f2) \<Rightarrow> (Inl e, f2)
               | (Inr bad, f2) \<Rightarrow> (Inr (if ok then bad else p # bad), f2)))"

definition checkLocalPermissions :: "perms \<Rightarrow> (('j, 's) msys_scheme, path list) act" where
  "checkLocalPermissions pm w =
     (let d = sm_local_dir w
      in if \<not> fs_exists (w_fs w) d \<or> \<not> fs_is_directory (w_fs w) d
         then throw (RuntimeError (''Error! Path inaccessible or not a directory: '' @ path_string d)) w
         else (let (ok, f1) = directoryIsWritable pm d (w_fs w); w1 = w\<lparr>w_fs := f1\<rparr>
               in if \<not> ok then throw (RuntimeError (''Error! Cannot write to directory: '' @ path_string d)) w1
                  else if \<not> may_list pm d then ret [] w1
                  else andThen (fs_query (\<lambda>f. fs_recursive f d)) (\<lambda>ps. fs_call (check_entries pm ps)) w1))"

subsection \<open>Clouds\<close>

text \<open>\<open>CloudFactory::create\<close> with a start token (the storage connects) and without a refresh token.\<close>

definition create_connected ::
  "'j lib \<Rightarrow> cloud_provider_type \<Rightarrow> string \<Rightarrow> string \<Rightarrow> string \<Rightarrow> path \<Rightarrow> path \<Rightarrow> int \<Rightarrow> string \<Rightarrow>
   (('j, 's) csys_scheme, unit) act" where
  "create_connected J ty client_id client_secret refresh_token home local_home i token =
     (case ty of
        DropboxT \<Rightarrow> dx_connect J i (dropbox_new client_id client_secret refresh_token home local_home i token)
      | GoogleDriveT \<Rightarrow> gd_connect J i (google_new client_id client_secret refresh_token home local_home i token)
      | _ \<Rightarrow> throw (InvalidArgument ''CloudFactory create(): Unknown CloudProviderType''))"

definition create_unconnected ::
  "cloud_provider_type \<Rightarrow> string \<Rightarrow> string \<Rightarrow> path \<Rightarrow> path \<Rightarrow> int \<Rightarrow> (('j, 's) csys_scheme, unit) act" where
  "create_unconnected ty client_id client_secret home local_home i =
     (case ty of
        DropboxT \<Rightarrow> upd_dropbox i (\<lambda>_. dropbox_new client_id client_secret [] home local_home i [])
      | GoogleDriveT \<Rightarrow> upd_google i (\<lambda>_. google_new client_id client_secret [] home local_home i [])
      | _ \<Rightarrow> throw (InvalidArgument ''CloudFactory create(): Unknown CloudProviderType''))"

text \<open>\<open>_clouds.emplace\<close>: an id that is there keeps its storage.\<close>

definition emplace_cloud :: "int \<Rightarrow> cloud_provider_type \<Rightarrow> (('j, 's) msys_scheme, unit) act" where
  "emplace_cloud i ty = modify (\<lambda>w.
     if i \<in> set (sm_clouds w) then w
     else w\<lparr>sm_clouds := sm_clouds w @ [i], sm_kinds := (sm_kinds w)(i := Some ty)\<rparr>)"

text \<open>
  Writing a configuration: \<open>dump\<close> throws for a text that is not UTF-8. In \<open>add_cloud\<close> the
  statement is then never finalised; the data that is written back was parsed before, so there
  it does not happen.
\<close>

definition db_add_cloud :: "'j lib \<Rightarrow> string \<Rightarrow> cloud_provider_type \<Rightarrow> 'j \<Rightarrow> ('s sys_scheme, int) act" where
  "db_add_cloud J name ty data =
     (case js_dump J data of
        Inr s \<Rightarrow> db_call (\<lambda>rc. add_cloud (\<lambda>_. s) rc name ty data)
      | Inl e \<Rightarrow> db_call (\<lambda>rc d.
          let (p, d1) = sql_prepare (rc_prepare rc) d
          in if \<not> p then (Inl (RuntimeError ''Failed to prepare cloud_configs: ''), sql_finalize p d1)
             else (Inl e, d1)))"

definition db_update_cloud :: "'j lib \<Rightarrow> int \<Rightarrow> 'j \<Rightarrow> ('s sys_scheme, unit) act" where
  "db_update_cloud J i data =
     andThen (lift_res (js_dump J data)) (\<lambda>s. db_call (\<lambda>rc. update_cloud_data (\<lambda>_. s) rc i data))"

definition set_num_clouds :: "('s ssys_scheme, unit) act" where
  "set_num_clouds = modify (\<lambda>w. w\<lparr>sm_num_clouds := int (length (sm_clouds w))\<rparr>)"

text \<open>One cloud of the configuration file; other providers are stored but get no storage.\<close>

definition load_cloud :: "'j lib \<Rightarrow> 'j \<Rightarrow> (('j, 's) msys_scheme, unit) act" where
  "load_cloud J cloud =
     andThen (lift_res (js_text_at J cloud ''name''))
       (\<lambda>name. andThen (lift_res (js_text_at J cloud ''type''))
       (\<lambda>type_str. andThen (lift_res (cloud_type_from_string type_str))
       (\<lambda>ty. andThen (lift_res (js_at J cloud ''data''))
       (\<lambda>data. andThen (lift_res (js_text_at J data ''dir''))
       (\<lambda>dir. andThen (db_add_cloud J name ty data)
       (\<lambda>i. if ty = GoogleDriveT \<or> ty = DropboxT
            then andThen (lift_res (js_text_at J data ''client_id''))
              (\<lambda>client_id. andThen (lift_res (js_text_at J data ''client_secret''))
              (\<lambda>client_secret. andThen (lift_res (js_text_at J data ''refresh_token''))
              (\<lambda>refresh_token. andThen (query sm_local_dir)
              (\<lambda>local_dir. andThen (create_connected J ty client_id client_secret refresh_token
                                     (path_of_string dir) local_dir i [])
              (\<lambda>_. emplace_cloud i ty)))))
            else ret ()))))))"

definition loadConfig :: "'j lib \<Rightarrow> path \<Rightarrow> (('j, 's) msys_scheme, unit) act" where
  "loadConfig J config_path =
     andThen (query (\<lambda>w. fs_read (w_fs w) config_path))
       (\<lambda>content. case content of
          None \<Rightarrow> throw (RuntimeError ''Config file not found'')
        | Some text \<Rightarrow>
            andThen (lift_res (js_read J text))
              (\<lambda>config. andThen (lift_res (js_at J config ''clouds''))
              (\<lambda>clouds. andThen (lift_res (js_text_at J config ''local''))
              (\<lambda>dir. andThen (modify (\<lambda>w. w\<lparr>sm_local_dir := path_of_string dir\<rparr>))
              (\<lambda>_. andThen (for_each (load_cloud J) (js_elems J clouds))
              (\<lambda>_. andThen set_num_clouds (\<lambda>_. make_local)))))))"

text \<open>One row of \<open>cloud_configs\<close>.\<close>

definition setup_cloud :: "'j lib \<Rightarrow> int \<times> string \<times> 'j \<Rightarrow> (('j, 's) msys_scheme, unit) act" where
  "setup_cloud J row =
     (let (i, type_str, data) = row
      in andThen (lift_res (cloud_type_from_string type_str))
           (\<lambda>ty. andThen (lift_res (js_text_at J data ''dir''))
           (\<lambda>dir. andThen (lift_res (js_text_at J data ''client_id''))
           (\<lambda>client_id. andThen (lift_res (js_text_at J data ''client_secret''))
           (\<lambda>client_secret. andThen (lift_res (js_text_at J data ''refresh_token''))
           (\<lambda>refresh_token. andThen (lift_res (js_text_at J data ''start_page_token''))
           (\<lambda>delta_token. andThen (query sm_local_dir)
           (\<lambda>local_dir. andThen (create_connected J ty client_id client_secret refresh_token
                                  (path_of_string dir) local_dir i delta_token)
           (\<lambda>_. emplace_cloud i ty)))))))))"

definition setupClouds :: "'j lib \<Rightarrow> (('j, 's) msys_scheme, unit) act" where
  "setupClouds J =
     andThen (db_call (get_clouds (js_parse J)))
       (\<lambda>clouds. andThen (db_call getLocalDir)
       (\<lambda>dir. andThen (setLocalDir dir)
       (\<lambda>_. andThen (for_each (setup_cloud J) clouds)
       (\<lambda>_. andThen set_num_clouds (\<lambda>_. make_local)))))"

definition ensureRootsExist :: "'j program \<Rightarrow> (('j, 's) msys_scheme, unit) act" where
  "ensureRootsExist P w =
     andThen (\<lambda>w. if fs_exists (w_fs w) (sm_local_dir w) then ret () w
                  else fs_call (fs_create_directories (sm_local_dir w)) w)
       (\<lambda>_. andThen (for_each (\<lambda>i. case sm_kinds w i of
               Some GoogleDriveT \<Rightarrow> gd_ensureRootExists (pg_lib P) i
             | Some DropboxT \<Rightarrow> dx_ensureRootExists (pg_lib P) i
             | _ \<Rightarrow> ret ()) (sm_clouds w)) (\<lambda>_. ret ())) w"

subsection \<open>The authorisation server\<close>

text \<open>
  \<open>LocalHttpServer\<close>: the handler of \<open>/oauth2callback\<close> gets the parameter \<open>code\<close> (the empty text
  when there is none) and returns the status; \<open>waitForCode\<close> is \<open>None\<close> while it blocks.
\<close>

record http_server =
  hs_code :: string
  hs_running :: bool
  hs_port :: int

definition LocalHttpServer :: "int \<Rightarrow> http_server" where
  "LocalHttpServer port = \<lparr>hs_code = [], hs_running = False, hs_port = port\<rparr>"

definition hs_handle :: "string \<Rightarrow> http_server \<Rightarrow> int \<times> http_server" where
  "hs_handle code s = (if code = [] then (400, s) else (200, s\<lparr>hs_code := code\<rparr>))"

definition waitForCode :: "http_server \<Rightarrow> (string \<times> http_server) option" where
  "waitForCode s = (if hs_code s = [] then None else Some (hs_code s, s\<lparr>hs_code := []\<rparr>))"

definition startListening :: "http_server \<Rightarrow> http_server" where
  "startListening s = s\<lparr>hs_running := True\<rparr>"

definition stopListening :: "http_server \<Rightarrow> http_server" where
  "stopListening s = s\<lparr>hs_running := False\<rparr>"

text \<open>The requests that come in before the waiting thread has the lock again.\<close>

definition hs_serve :: "string list \<Rightarrow> http_server \<Rightarrow> http_server" where
  "hs_serve codes s = fold (\<lambda>c s. snd (hs_handle c s)) codes s"

subsection \<open>\<open>registerCloud\<close>\<close>

definition next_redirects :: "(('j, 's) msys_scheme, string list) act" where
  "next_redirects w =
     (case sm_redirects w of [] \<Rightarrow> ret [] w | codes # rest \<Rightarrow> ret codes (w\<lparr>sm_redirects := rest\<rparr>))"

definition registration_data :: "'j lib \<Rightarrow> string \<Rightarrow> string \<Rightarrow> path \<Rightarrow> 'j" where
  "registration_data J client_id client_secret home_path =
     js_object J [(''client_id'', js_text J client_id), (''client_secret'', js_text J client_secret),
                  (''refresh_token'', js_text J []), (''dir'', js_text J (path_string home_path))]"

definition cloud_getRefreshToken ::
  "'j lib \<Rightarrow> cloud_provider_type \<Rightarrow> int \<Rightarrow> string \<Rightarrow> int \<Rightarrow> (('j, 's) csys_scheme, string) act" where
  "cloud_getRefreshToken J ty i code port =
     (case ty of
        GoogleDriveT \<Rightarrow> gd_getRefreshToken J i code port
      | DropboxT \<Rightarrow> dx_getRefreshToken J i code port
      | _ \<Rightarrow> throw NullPointer)"

definition cloud_ensureRootExists :: "'j lib \<Rightarrow> cloud_provider_type \<Rightarrow> int \<Rightarrow> (('j, 's) csys_scheme, unit) act" where
  "cloud_ensureRootExists J ty i =
     (case ty of
        GoogleDriveT \<Rightarrow> gd_ensureRootExists J i
      | DropboxT \<Rightarrow> dx_ensureRootExists J i
      | _ \<Rightarrow> throw NullPointer)"

definition registerCloud ::
  "'j lib \<Rightarrow> string \<Rightarrow> cloud_provider_type \<Rightarrow> string \<Rightarrow> string \<Rightarrow> path \<Rightarrow> (('j, 's) msys_scheme, unit) act" where
  "registerCloud J cloud_name ty client_id client_secret home_path =
     (let server = startListening (LocalHttpServer 8443); port = hs_port server
      in andThen (db_add_cloud J cloud_name ty (registration_data J client_id client_secret home_path))
       (\<lambda>i. andThen (query sm_local_dir)
       (\<lambda>local_dir. andThen (create_unconnected ty client_id client_secret home_path local_dir i)
       (\<lambda>_. andThen (emplace_cloud i ty)
       (\<lambda>_. andThen next_redirects
       (\<lambda>codes. case waitForCode (hs_serve codes server) of
          None \<Rightarrow> throw Diverges
        | Some (code, _) \<Rightarrow>
            andThen (cloud_getRefreshToken J ty i code port)
              (\<lambda>token. andThen (db_call (\<lambda>rc. get_cloud_config (js_parse J) rc i))
              (\<lambda>saved. andThen (lift_res (js_set J saved ''refresh_token'' (js_text J token)))
              (\<lambda>saved1. andThen (db_update_cloud J i saved1)
              (\<lambda>_. cloud_ensureRootExists J ty i))))))))))"

subsection \<open>Starting and stopping\<close>

datatype sync_mode = InitialSync | DaemonMode

definition SyncManager_config :: "'j lib \<Rightarrow> path \<Rightarrow> sync_mode \<Rightarrow> (('j, 's) msys_scheme, unit) act" where
  "SyncManager_config J config_path mode = (if mode = InitialSync then loadConfig J config_path else ret ())"

definition set_on_change :: "int \<Rightarrow> (('j, 's) msys_scheme, unit) act" where
  "set_on_change i w =
     (if i = 0 then ret () (w\<lparr>ls_on_change := True\<rparr>)
      else case sm_kinds w i of
        Some GoogleDriveT \<Rightarrow> gd_setOnChange i w
      | Some DropboxT \<Rightarrow> dx_setOnChange i w
      | _ \<Rightarrow> throw NullPointer w)"

definition sm_init :: "'j lib \<Rightarrow> (('j, 's) msys_scheme, unit) act" where
  "sm_init J =
     andThen (setupClouds J)
       (\<lambda>_. andThen (emplace_cloud 0 LocalStorageT)
       (\<lambda>_. andThen (query sm_clouds)
       (\<lambda>ids. andThen (for_each set_on_change ids)
       (\<lambda>_. andThen (modify (\<lambda>w. w\<lparr>factory_clouds := sm_clouds w\<rparr>))
       (\<lambda>_. modify (\<lambda>w. http_start (cb_start w)))))))"

definition startWatching :: "('j, 's) msys_scheme \<Rightarrow> ('j, 's) msys_scheme" where
  "startWatching w = (if sm_watching w then w else w\<lparr>sm_watching := True\<rparr>)"

definition stopWatching :: "('j, 's) msys_scheme \<Rightarrow> ('j, 's) msys_scheme" where
  "stopWatching w =
     (if \<not> sm_watching w then w else w\<lparr>sm_watching := False, ls_events := q_close (ls_events w)\<rparr>)"

definition daemonMode :: "(('j, 's) msys_scheme, unit) act" where
  "daemonMode w =
     (let (completed, d) = isInitialSyncDone (w_rc w (w_calls w)) (w_db w);
          w1 = w\<lparr>w_db := d, w_calls := Suc (w_calls w)\<rparr>
      in if \<not> completed then throw (RuntimeError ''Initial sync not completed. Please run initial sync first.'') w1
         else if \<not> sm_has_local w1 then throw NullPointer w1
         else ret () ((startWatching w1)\<lparr>sm_threads := True\<rparr>))"

text \<open>The polling thread is joined before the buffer is closed, the other one after it.\<close>

definition shutdown :: "(('j, 's) msys_scheme, unit) act" where
  "shutdown w =
     (if \<not> sm_has_local w then throw NullPointer w
      else ret () (http_shutdown ((stopWatching w)\<lparr>sm_should_exit := True, sm_buff := q_close (sm_buff w),
                                                   sm_threads := False\<rparr>)))"

end
