(* ===== verification/FirstSync.thy ===== *)
theory FirstSync
  imports Configuration
begin

text \<open>
  \<open>SyncManager::initialSync\<close> and \<open>run\<close> (\<open>src/sync-manager.cpp\<close>): the scan of the local directory
  and of all clouds, the reconciliation of the clouds with the local directory, and the upload
  of what the clouds lack. The callback worker and the HTTP worker run meanwhile: between two
  paths, and in every wait, they make the turns a scheduler chooses.
\<close>

subsection \<open>Unordered containers\<close>

text \<open>
  The iteration orders the standard leaves open: of the distinct paths of a map, of the elements
  of one path in the multimap, and of the cloud ids. The maps themselves are lists of pairs.
\<close>

record orders =
  or_paths :: "path list \<Rightarrow> path list"
  or_same :: "file_record_dto list \<Rightarrow> file_record_dto list"
  or_ids :: "int list \<Rightarrow> int list"

type_synonym file_map = "(path \<times> file_record_dto) list"

definition fm_emplace :: "path \<Rightarrow> file_record_dto \<Rightarrow> file_map \<Rightarrow> file_map" where
  "fm_emplace p d m = (if map_of m p = None then m @ [(p, d)] else m)"

definition fm_assign :: "path \<Rightarrow> file_record_dto \<Rightarrow> file_map \<Rightarrow> file_map" where
  "fm_assign p d m =
     (if map_of m p = None then m @ [(p, d)] else map (\<lambda>(q, e). (q, if q = p then d else e)) m)"

text \<open>The elements of a path in the multimap.\<close>

definition candidates :: "orders \<Rightarrow> file_record_dto list \<Rightarrow> path \<Rightarrow> file_record_dto list" where
  "candidates R files p = or_same R (filter (\<lambda>d. fr_rel_path d = p) files)"

subsection \<open>Waiting\<close>

text \<open>What the two workers do while the main thread works; and \<open>HttpClient::waitUntilIdle\<close>.\<close>

definition other_threads :: "'j program \<Rightarrow> (('j, 's) csys_scheme \<Rightarrow> turn list) \<Rightarrow> (('j, 's) csys_scheme, unit) act" where
  "other_threads P sched w = andThen (for_each (run_turn P) (sched w)) (\<lambda>_. ret ()) w"

definition http_wait :: "'j program \<Rightarrow> (('j, 's) csys_scheme \<Rightarrow> turn list) \<Rightarrow> (('j, 's) csys_scheme, unit) act" where
  "http_wait P sched w =
     andThen (for_each (run_turn P) (sched w))
       (\<lambda>_ w1. if ac_idle (http_active w1) then ret () w1 else throw Diverges w1) w"

definition wait_all :: "'j program \<Rightarrow> (('j, 's) csys_scheme \<Rightarrow> turn list) \<Rightarrow> (('j, 's) csys_scheme, unit) act" where
  "wait_all P sched =
     andThen (http_wait P sched) (\<lambda>_. andThen (pg_wait P sched) (\<lambda>_. http_wait P sched))"

abbreviation handle_change ::
  "'j program \<Rightarrow> (('j, 's) csys_scheme \<Rightarrow> turn list) \<Rightarrow> nat \<Rightarrow> (('j, 's) csys_scheme, unit) act" where
  "handle_change P sched \<equiv> handleChange (pg_stores P) (pg_wait P sched) (pg_create P)"

subsection \<open>Scanning\<close>

definition scan_local :: "'j program \<Rightarrow> (('j, 's) csys_scheme, file_map) act" where
  "scan_local P =
     andThen (local_initialFiles (pg_xxh64 P))
       (\<lambda>files. andThen (for_each (\<lambda>d. andThen (db_call (\<lambda>rc. add_file rc d)) (\<lambda>gid. ret (d\<lparr>fr_global_id := gid\<rparr>))) files)
       (\<lambda>ds. ret (fold (\<lambda>d. fm_emplace (fr_rel_path d) d) ds [])))"

definition pg_initialFiles :: "'j program \<Rightarrow> int \<Rightarrow> (('j, 's) csys_scheme, file_record_dto list) act" where
  "pg_initialFiles P i =
     (case pg_kind P i of
        Some GoogleDriveT \<Rightarrow> gd_initialFiles (pg_turns P) (pg_lib P) i
      | Some DropboxT \<Rightarrow> dx_initialFiles (pg_turns P) (pg_lib P) i
      | _ \<Rightarrow> throw NullPointer)"

definition scan_clouds :: "'j program \<Rightarrow> (('j, 's) csys_scheme, file_record_dto list) act" where
  "scan_clouds P w =
     andThen (for_each (pg_initialFiles P) (sm_clouds w)) (\<lambda>fs. ret (concat fs)) w"

subsection \<open>Reconciling\<close>

text \<open>The newest candidate; of several equally new ones the first.\<close>

definition newer_of :: "file_record_dto \<Rightarrow> file_record_dto option \<Rightarrow> file_record_dto option" where
  "newer_of d best =
     (case best of None \<Rightarrow> Some d | Some b \<Rightarrow> if fr_mtime b < fr_mtime d then Some d else Some b)"

definition best_candidate :: "file_record_dto list \<Rightarrow> file_record_dto option" where
  "best_candidate ds = fold newer_of ds None"

text \<open>The changes that take a remote version over.\<close>

definition fetch_directory :: "file_record_dto \<Rightarrow> path \<Rightarrow> int \<Rightarrow> heap \<Rightarrow> nat \<times> heap" where
  "fetch_directory best p now hp =
     (let (a, hp1) = alloc (Change New p now (fr_cloud_id best)) hp;
          (cmd, hp2) = setOwner a (setDTO (RecordDTO best) (new_command LocalUpload 0)) hp1
      in (a, update_at a (setCmdChain_one cmd) hp2))"

definition fetch_file :: "file_record_dto \<Rightarrow> path \<Rightarrow> int \<Rightarrow> heap \<Rightarrow> nat \<times> heap" where
  "fetch_file best p now hp =
     (let (a, hp1) = alloc (Change New p now (fr_cloud_id best)) hp;
          (cmd, hp2) = setOwner a (setDTO (RecordDTO best) (new_command CloudDownloadNew (fr_cloud_id best))) hp1;
          (nxt, hp3) = setOwner a (new_command LocalUpload 0) hp2
      in (a, update_at a (setCmdChain_one (addNext nxt cmd)) hp3))"

definition fetch_update :: "file_updated_dto \<Rightarrow> path \<Rightarrow> int \<Rightarrow> heap \<Rightarrow> nat \<times> heap" where
  "fetch_update u p now hp =
     (let (a, hp1) = alloc (Change Update p now (fu_cloud_id u)) hp;
          (cmd, hp2) = setOwner a (new_command CloudDownloadUpdate (fu_cloud_id u)) hp1;
          (nxt, hp3) = setOwner a (new_command LocalUpdate 0) hp2
      in (a, update_at a (setCmdChain_one (addNext nxt (setDTO (UpdatedDTO u) cmd))) hp3))"

text \<open>A path that only the clouds have, or whose local file is older, is fetched.\<close>

definition reconcile_path ::
  "'j program \<Rightarrow> (('j, 's) csys_scheme \<Rightarrow> turn list) \<Rightarrow> path \<Rightarrow> path \<Rightarrow> file_record_dto \<Rightarrow> file_map \<Rightarrow>
   (('j, 's) csys_scheme, file_map) act" where
  "reconcile_path P sched local_dir p best m w =
     (case map_of m p of
        None \<Rightarrow>
          andThen (new_change (\<lambda>_. if fr_type best = Directory then fetch_directory best p (w_clock w)
                                  else fetch_file best p (w_clock w)))
            (\<lambda>a. andThen (handle_change P sched a) (\<lambda>_. ret (fm_emplace p best m))) w
      | Some l \<Rightarrow>
          (if fs_is_regular_file (w_fs w) (path_div local_dir p) \<and> fr_mtime l < fr_mtime best
           then andThen (lift_res (get_hash_str (fr_hash best)))
             (\<lambda>hash. andThen (new_change (\<lambda>_. fetch_update
                  (updated_cloud (fr_type best) (fr_global_id l) (fr_cloud_id best) (fr_cloud_file_id best) hash
                     (fr_mtime best) p (fr_cloud_parent_id best) (fr_size best)) p (w_clock w)))
             (\<lambda>a. andThen (handle_change P sched a)
             (\<lambda>_. ret (fm_assign p (best\<lparr>fr_global_id := fr_global_id l\<rparr>) m)))) w
           else ret m w))"

fun reconcile ::
  "'j program \<Rightarrow> orders \<Rightarrow> (('j, 's) csys_scheme \<Rightarrow> turn list) \<Rightarrow> path \<Rightarrow> file_record_dto list \<Rightarrow> path list \<Rightarrow>
   file_map \<Rightarrow> (('j, 's) csys_scheme, file_map) act" where
  "reconcile P R sched local_dir files [] m = ret m"
| "reconcile P R sched local_dir files (p # ps) m =
     (case best_candidate (candidates R files p) of
        None \<Rightarrow> reconcile P R sched local_dir files ps m
      | Some best \<Rightarrow>
          andThen (other_threads P sched)
            (\<lambda>_. andThen (reconcile_path P sched local_dir p best m)
            (\<lambda>m1. reconcile P R sched local_dir files ps m1)))"

subsection \<open>Pushing\<close>

text \<open>\<open>have_it_or_not\<close>: the ids of the clouds, and those of the candidates.\<close>

definition push_ids :: "orders \<Rightarrow> int list \<Rightarrow> file_record_dto list \<Rightarrow> int list" where
  "push_ids R ids same = or_ids R (remdups (ids @ map fr_cloud_id same))"

definition has_it :: "file_record_dto list \<Rightarrow> int \<Rightarrow> bool" where
  "has_it same i \<longleftrightarrow> i \<in> set (map fr_cloud_id same)"

text \<open>
  A path that is a directory of the \<open>working\<close> directory: the command made for the first cloud
  without it gets neither data nor an owner.
\<close>

definition push_directory ::
  "'j program \<Rightarrow> (('j, 's) csys_scheme \<Rightarrow> turn list) \<Rightarrow> path \<Rightarrow> int list \<Rightarrow> file_record_dto list \<Rightarrow>
   (('j, 's) csys_scheme, unit) act" where
  "push_directory P sched p ids same w =
     (case find (\<lambda>i. \<not> has_it same i) ids of
        None \<Rightarrow> ret () w
      | Some i \<Rightarrow>
          andThen (new_change (\<lambda>_ hp. let (a, hp1) = alloc (Change New p (w_clock w) 0) hp
                     in (a, update_at a (setCmdChain_one (new_command CloudUpload i)) hp1)))
            (handle_change P sched) w)"

definition own_command :: "nat \<Rightarrow> command \<Rightarrow> ('s lsys_scheme, command) act" where
  "own_command a c w = (let (c1, hp) = setOwner a c (w_heap w) in (Inr c1, w\<lparr>w_heap := hp\<rparr>))"

text \<open>The command for one cloud, if any: an upload, nothing for the cloud the version is from, an update.\<close>

definition push_command ::
  "nat \<Rightarrow> path \<Rightarrow> file_record_dto \<Rightarrow> file_record_dto list \<Rightarrow> int \<Rightarrow> ('s lsys_scheme, command option) act" where
  "push_command a p l same i =
     (if \<not> has_it same i
      then andThen (own_command a (setDTO (RecordDTO l) (new_command CloudUpload i))) (\<lambda>c. ret (Some c))
      else if i = fr_cloud_id l then andThen (db_call (\<lambda>rc. add_file_link rc l)) (\<lambda>_. ret None)
      else (let c = last (filter (\<lambda>d. fr_cloud_id d = i) same)
            in andThen (lift_res (get_hash_str (fr_hash c)))
              (\<lambda>hash. andThen (db_call (\<lambda>rc. add_file_link rc (c\<lparr>fr_global_id := fr_global_id l\<rparr>)))
              (\<lambda>_. andThen (own_command a (setDTO (UpdatedDTO
                      (updated_cloud (fr_type l) (fr_global_id l) (fr_cloud_id c) (fr_cloud_file_id c) hash
                         (fr_mtime l) p (fr_cloud_parent_id c) (fr_size l))) (new_command CloudUpdate i)))
              (\<lambda>c. ret (Some c))))))"

fun somes :: "'a option list \<Rightarrow> 'a list" where
  "somes [] = []"
| "somes (None # xs) = somes xs"
| "somes (Some x # xs) = x # somes xs"

definition push_file ::
  "'j program \<Rightarrow> (('j, 's) csys_scheme \<Rightarrow> turn list) \<Rightarrow> path \<Rightarrow> file_record_dto \<Rightarrow> int list \<Rightarrow> file_record_dto list \<Rightarrow>
   (('j, 's) csys_scheme, unit) act" where
  "push_file P sched p l ids same w =
     andThen (new_change (\<lambda>_. alloc (Change New p (w_clock w) 0)))
       (\<lambda>a. andThen (for_each (push_command a p l same) ids)
       (\<lambda>cs. let cmds = somes cs
             in if cmds = [] then ret ()
                else andThen (modify_change a (setCmdChain cmds)) (\<lambda>_. handle_change P sched a))) w"

definition push_path ::
  "'j program \<Rightarrow> orders \<Rightarrow> (('j, 's) csys_scheme \<Rightarrow> turn list) \<Rightarrow> int list \<Rightarrow> file_record_dto list \<Rightarrow> path \<times> file_record_dto \<Rightarrow>
   (('j, 's) csys_scheme, unit) act" where
  "push_path P R sched ids files e =
     (let (p, l0) = e; same = candidates R files p; keys = push_ids R ids same
      in andThen (other_threads P sched)
        (\<lambda>_. andThen (if fr_global_id l0 = 0
                      then andThen (db_call (\<lambda>rc. getGlobalIdByPath rc p)) (\<lambda>gid. ret (l0\<lparr>fr_global_id := gid\<rparr>))
                      else ret l0)
        (\<lambda>l w. if fs_is_directory (w_fs w) p then push_directory P sched p keys same w
                else push_file P sched p l keys same w)))"

subsection \<open>\<open>initialSync\<close>\<close>

definition map_in_order :: "orders \<Rightarrow> file_map \<Rightarrow> file_map" where
  "map_in_order R m = map (\<lambda>p. (p, the (map_of m p))) (or_paths R (map fst m))"

definition save_token :: "'j program \<Rightarrow> int \<Rightarrow> (('j, 's) csys_scheme, unit) act" where
  "save_token P i =
     andThen (db_call (\<lambda>rc. get_cloud_config (js_parse (pg_lib P)) rc i))
       (\<lambda>data. andThen (case pg_kind P i of
            Some GoogleDriveT \<Rightarrow> gd_getDeltaToken (pg_lib P) i
          | Some DropboxT \<Rightarrow> dx_getDeltaToken (pg_lib P) i
          | _ \<Rightarrow> throw NullPointer)
       (\<lambda>token. andThen (lift_res (js_set (pg_lib P) data ''start_page_token'' (js_text (pg_lib P) token)))
       (\<lambda>data1. db_update_cloud (pg_lib P) i data1)))"

text \<open>\<open>_local\<close> may be a null pointer.\<close>

definition first_sync ::
  "bool \<Rightarrow> 'j program \<Rightarrow> orders \<Rightarrow> (('j, 's) csys_scheme \<Rightarrow> turn list) \<Rightarrow> path \<Rightarrow> (('j, 's) csys_scheme, unit) act" where
  "first_sync has_local P R sched local_dir =
     andThen (modify (\<lambda>w. http_start (cb_start w)))
       (\<lambda>_. andThen (db_call (\<lambda>rc. addLocalDir rc (path_string local_dir)))
       (\<lambda>_. andThen set_num_clouds
       (\<lambda>_. andThen (if has_local then scan_local P else throw NullPointer)
       (\<lambda>m. andThen (scan_clouds P)
       (\<lambda>files. andThen (reconcile P R sched local_dir files (or_paths R (remdups (map fr_rel_path files))) m)
       (\<lambda>m1. andThen (query sm_clouds)
       (\<lambda>ids. andThen (wait_all P sched)
       (\<lambda>_. andThen (for_each (push_path P R sched ids files) (map_in_order R m1))
       (\<lambda>_. andThen (wait_all P sched)
       (\<lambda>_. andThen (for_each (save_token P) ids)
       (\<lambda>_. db_call markInitialSyncDone)))))))))))"

definition initialSync ::
  "'j program \<Rightarrow> orders \<Rightarrow> (('j, 's) msys_scheme \<Rightarrow> turn list) \<Rightarrow> (('j, 's) msys_scheme, unit) act" where
  "initialSync P R sched w = first_sync (sm_has_local w) (configured P w) R sched (sm_local_dir w) w"

definition sm_run ::
  "'j program \<Rightarrow> orders \<Rightarrow> (('j, 's) msys_scheme \<Rightarrow> turn list) \<Rightarrow> sync_mode \<Rightarrow> (('j, 's) msys_scheme, unit) act" where
  "sm_run P R sched mode =
     (if mode = InitialSync then initialSync P R sched
      else andThen (sm_init (pg_lib P)) (\<lambda>_. daemonMode))"

end
