(* ===== verification/FirstSyncProps.thy ===== *)
theory FirstSyncProps
  imports FirstSync
begin

text \<open>
  What the initial synchronisation guarantees: its changes are accounted for like those of the
  daemon; reconciling loses no path; every cloud that lacks a version gets it; and where it
  fails.
\<close>

subsection \<open>Changes are made with their commands counted\<close>

lemma fetch_made:
  "fetch_directory best p now hp = make_change [] LocalUpload [] New now p (RecordDTO best) (fr_cloud_id best) hp"
  "fetch_file best p now hp = make_change [] CloudDownloadNew [LocalUpload] New now p (RecordDTO best) (fr_cloud_id best) hp"
  "fetch_update u p now hp = make_change [] CloudDownloadUpdate [LocalUpdate] Update now p (UpdatedDTO u) (fu_cloud_id u) hp"
  by (simp_all add: fetch_directory_def fetch_file_def fetch_update_def make_change_def alloc_def setOwner_def
      stage_ids_def Let_def new_command_def update_at_id)

lemma fetch_steady:
  fixes w :: "('j, 's) csys_scheme"
  shows "steady w (snd (new_change (\<lambda>_. if b then fetch_directory d p t else fetch_file d p t) w))"
    and "steady w (snd (new_change (\<lambda>_. fetch_update u p t) w))"
  by (cases b; simp add: fetch_made [abs_def]; rule polled.new_change_R emit_make_steady [where g = "\<lambda>_. []"])+

text \<open>A change without commands, and one whose only command has no owner.\<close>

lemma alloc_steady:
  fixes w :: "'s dsys_scheme"
  assumes "\<And>w :: 's dsys_scheme. mk (factory_clouds w) (w_heap w) = (length (w_heap w), w_heap w @ [c])"
    and "list_all (\<lambda>d. cmd_owner d = None) (concat (map commands (chain_commands c)))"
    and "ch_pending c = 0" and "ch_status c = PendingS"
  shows "steady w (snd (new_change mk w))"
proof -
  have o: "owned_in a (chain_commands c) = 0" for a
    using assms(2) by (auto simp: owned_in_def owned_def list_all_iff filter_empty_conv)
  have "change_ok a c" for a
    using assms(2,4) by (auto simp: change_ok_def own_chain_def list_all_iff)
  then have "work_ok sl hand (w\<lparr>w_heap := w_heap w @ [c]\<rparr>)" if "work_ok sl hand w" for sl hand
    using that o assms(3) by (intro work_ok_alloc) simp_all
  then show ?thesis using assms(1) by (simp add: steady_def new_change_def)
qed

lemma push_changes_steady:
  fixes w :: "'s dsys_scheme"
  shows "steady w (snd (new_change (\<lambda>_. alloc (Change New p t 0)) w))"
    and "steady w (snd (new_change (\<lambda>_ hp. let (a, hp1) = alloc (Change New p t 0) hp
           in (a, update_at a (setCmdChain_one (new_command CloudUpload i)) hp1)) w))"
proof -
  show "steady w (snd (new_change (\<lambda>_. alloc (Change New p t 0)) w))"
    by (rule alloc_steady [of _ "Change New p t 0"]) (simp_all add: alloc_def Change_def chain_commands_def)
  let ?c = "setCmdChain_one (new_command CloudUpload i) (Change New p t 0)"
  show "steady w (snd (new_change (\<lambda>_ hp. let (a, hp1) = alloc (Change New p t 0) hp
           in (a, update_at a (setCmdChain_one (new_command CloudUpload i)) hp1)) w))"
    by (rule alloc_steady [of _ ?c])
       (simp_all add: alloc_def Change_def chain_commands_def setCmdChain_one_def new_command_def)
qed

subsection \<open>Scanning leaves the accounts alone\<close>

lemma quiet_config [intro]:
  "quiet (db_call (\<lambda>rc. addLocalDir rc p))" "quiet (db_call markInitialSyncDone)"
  "quiet (db_call (\<lambda>rc. get_cloud_config parse rc i))" "quiet (db_update_cloud J i data)" "quiet set_num_clouds"
proof -
  show "quiet (db_call (\<lambda>rc. addLocalDir rc p))"
    using db_exec_db_ok [of _ _ _ "AddLocalDir p"] by (intro quiet_db_call) simp
  show "quiet (db_call markInitialSyncDone)"
    using db_exec_db_ok [of _ _ _ MarkInitialSyncDone] by (intro quiet_db_call) simp
  show "quiet (db_call (\<lambda>rc. get_cloud_config parse rc i))"
    by (intro quiet_db_call) (auto simp: get_cloud_config_def run_query_def sql_defs split: prod.splits option.splits)
  have "quiet (db_call (\<lambda>rc. update_cloud_data (\<lambda>_. t) rc i data))" for t
    using db_exec_db_ok [of _ "\<lambda>_. t" _ "UpdateCloudData i data"] by (intro quiet_db_call) simp
  then show "quiet (db_update_cloud J i data)"
    unfolding db_update_cloud_def by (intro quiet_andThen quiet_ret)
  show "quiet set_num_clouds" by (simp add: set_num_clouds_def quiet_def calm_def same_work_def)
qed

lemma local_initial_quiet: "quiet (local_initialFiles xxh64)"
proof -
  have f: "calm w (snd (initial_file xxh64 p w))" for p and w :: "'a ssys_scheme"
    unfolding initial_file_def Let_def
    by (auto intro!: calm_parts quiet_fs [THEN calmD] simp del: act_simps andThen_basic)
  then have "quiet (initial_file xxh64 p :: ('a ssys_scheme, file_record_dto) act)" for p
    by (simp add: quiet_def)
  then show ?thesis
    unfolding quiet_def local_initialFiles_def
    by (auto intro!: cm.R_andThen cm.R_for_each f quiet_fs [THEN calmD] simp del: act_simps andThen_basic)
qed

lemma scan_local_quiet: "quiet (scan_local P)"
  unfolding scan_local_def
  by (intro quiet_andThen quiet_for_each local_initial_quiet quiet_writes quiet_ret)

lemma gd_list_calm: "calm w (snd (gd_pages n J g pid rel t h w))"
  by (induction n J g pid rel t h arbitrary: w rule: gd_pages.induct)
     (auto intro!: calm_parts cm.R_for_each simp del: act_simps andThen_basic)

lemma gd_scan_calm: "calm w (snd (gd_scan n J g ds h w))"
  by (induction n J g ds h arbitrary: w rule: gd_scan.induct)
     (auto intro!: calm_parts gd_list_calm simp: Let_def simp del: act_simps andThen_basic)

lemma dx_list_calm: "calm w (snd (dx_listing n J g h j w))"
proof (induction n J g h j arbitrary: w rule: dx_listing.induct)
  case (2 n J g h rsp)
  have e: "calm w (snd (dx_entries J g r w))" for r w
    unfolding dx_entries_def
    by (auto intro!: calm_parts cm.R_for_each simp del: act_simps andThen_basic)
  show ?case
    by (auto intro!: calm_parts e 2 simp del: act_simps andThen_basic)
qed (auto intro!: calm_parts simp del: act_simps andThen_basic)

lemma initialFiles_quiet: "quiet (pg_initialFiles P i)"
proof -
  have "quiet (gd_initialFiles n J i)" for n J
    by (simp add: quiet_def gd_initialFiles_def Let_def gd_scan_calm)
  moreover have "quiet (dx_initialFiles n J i)" for n J
    unfolding quiet_def dx_initialFiles_def Let_def
    by (auto intro!: calm_parts dx_list_calm simp del: act_simps andThen_basic)
  ultimately show ?thesis
    by (auto simp: pg_initialFiles_def quiet_ret split: option.split cloud_provider_type.split)
qed

lemma scan_clouds_quiet: "quiet (scan_clouds P)"
proof -
  have m: "quiet (andThen (for_each (pg_initialFiles P) ids) (\<lambda>fs. ret (concat fs)))" for ids
    by (intro quiet_andThen quiet_for_each initialFiles_quiet quiet_ret)
  show ?thesis unfolding quiet_def scan_clouds_def by (intro allI calmD m)
qed

lemma save_token_quiet: "quiet (save_token P i)"
proof -
  have "quiet (gd_getDeltaToken J i)" for J
    unfolding quiet_def gd_getDeltaToken_def Let_def by (auto intro!: calm_parts simp del: act_simps andThen_basic)
  moreover have "quiet (dx_getDeltaToken J i)" for J by (simp add: quiet_def dx_getDeltaToken_calm)
  ultimately have t: "quiet (case pg_kind P i of Some GoogleDriveT \<Rightarrow> gd_getDeltaToken (pg_lib P) i
      | Some DropboxT \<Rightarrow> dx_getDeltaToken (pg_lib P) i | _ \<Rightarrow> throw NullPointer)"
    by (auto simp: quiet_ret split: option.split cloud_provider_type.split)
  show ?thesis unfolding save_token_def by (intro quiet_andThen quiet_config quiet_ret t)
qed

subsection \<open>The commands of a push\<close>

definition single :: "nat \<Rightarrow> command \<Rightarrow> bool" where
  "single a c \<longleftrightarrow> cmd_owner c = Some a \<and> commands c = [c]"

lemma single_new: "single a (with_owner (Some a) (setDTO d (new_command k i)))"
  by (cases "dto_family_of d = kind_family k") (simp_all add: single_def new_command_def)

lemma owned_single: "single a c \<Longrightarrow> owned b c = (if b = a then 1 else 0)"
  by (auto simp: owned_def single_def)

text \<open>The change under construction.\<close>

definition open_change :: "nat \<Rightarrow> 's lsys_scheme \<Rightarrow> bool" where
  "open_change a w \<longleftrightarrow> a < length (w_heap w) \<and> ch_status (w_heap w ! a) = PendingS"

lemma own_command_ok:
  assumes "work_ok sl hand w" and "open_change a w" and "single a (with_owner (Some a) c)"
  obtains w1 where "own_command a c w = (Inr (with_owner (Some a) c), w1)" "open_change a w1"
    "work_ok sl (with_owner (Some a) c # hand) w1"
proof -
  let ?c = "with_owner (Some a) c" and ?hp = "update_at a onCommandCreated (w_heap w)"
  have "work_ok sl (?c # hand) (w\<lparr>w_heap := ?hp\<rparr>)"
  proof (rule work_ok_heap [OF assms(1)])
    fix b assume b: "b < length ?hp"
    have "change_ok b (w_heap w ! b)" using assms(1) b by (simp add: work_ok_def)
    then show "change_ok b (?hp ! b) \<and>
       int (owned_in b (?c # hand) + owned_in b (chain_commands (?hp ! b))) - ch_pending (?hp ! b) \<le>
       int (owned_in b hand + owned_in b (chain_commands (w_heap w ! b))) - ch_pending (w_heap w ! b)"
      using b assms(2) owned_single [OF assms(3), of b]
      by (auto simp: nth_update_at add_pending_def change_ok_def chain_commands_def own_chain_def open_change_def)
  next
    fix b assume "length ?hp \<le> b"
    then show "owned_in b (?c # hand) = 0"
      using assms(1,2) owned_single [OF assms(3), of b] by (auto simp: work_ok_def open_change_def)
  qed simp
  moreover have "open_change a (w\<lparr>w_heap := ?hp\<rparr>)"
    using assms(2) by (simp add: open_change_def nth_update_at add_pending_def)
  ultimately show ?thesis using that by (simp add: own_command_def setOwner_def)
qed

lemma quiet_keeps_open: "quiet m \<Longrightarrow> open_change a w \<Longrightarrow> open_change a (snd (m w))"
  by (simp add: quiet_def calm_def same_work_def open_change_def)

definition pushed :: "(nat \<Rightarrow> nat) \<Rightarrow> command list \<Rightarrow> nat \<Rightarrow> exn + command list \<Rightarrow> 's dsys_scheme \<Rightarrow> bool" where
  "pushed sl hand a r w \<longleftrightarrow>
     (case r of
        Inl _ \<Rightarrow> work_ok sl [] w
      | Inr cs \<Rightarrow> work_ok sl (cs @ hand) w \<and> open_change a w \<and> list_all (single a) cs)"

lemma push_command_ok:
  fixes w :: "'s ssys_scheme"
  assumes w: "work_ok sl hand w" and a: "open_change a w"
  shows "pushed sl hand a (map_sum id (case_option [] (\<lambda>c. [c])) (fst (push_command a p l same i w)))
           (snd (push_command a p l same i w))"
proof -
  have own: "pushed sl hand a (map_sum id (case_option [] (\<lambda>c. [c])) (fst (andThen (own_command a (setDTO d (new_command k i)))
      (\<lambda>c. ret (Some c)) v))) (snd (andThen (own_command a (setDTO d (new_command k i))) (\<lambda>c. ret (Some c)) v))"
    if v: "work_ok sl hand v" "open_change a v" for d k v
    by (rule own_command_ok [OF v single_new [of a d k i]]) (simp add: pushed_def single_new)
  have link: "work_ok sl hand v \<and> open_change a v"
    if "db_call (\<lambda>rc. add_file_link rc r) w = (x, v)" for r x v
    using steadyD [OF quiet_steady [OF quiet_writes(2), of counts w r] w] quiet_keeps_open [OF quiet_writes(2) a, of r] that by simp
  obtain x v where lv: "db_call (\<lambda>rc. add_file_link rc l) w = (x, v)" by fastforce
  let ?c = "last (filter (\<lambda>d. fr_cloud_id d = i) same)"
  obtain y v' where cv: "db_call (\<lambda>rc. add_file_link rc (?c\<lparr>fr_global_id := fr_global_id l\<rparr>)) w = (y, v')" by fastforce
  show ?thesis
  proof (cases "has_it same i")
    case False
    then show ?thesis using own [OF w a] by (simp add: push_command_def)
  next
    case True
    show ?thesis
    proof (cases "i = fr_cloud_id l")
      case True
      then show ?thesis using link [OF lv] \<open>has_it same i\<close> lv
        by (cases x) (auto simp: push_command_def pushed_def)
    next
      case False
      then show ?thesis using \<open>has_it same i\<close> own link [OF cv] cv w
        by (cases "get_hash_str (fr_hash ?c)"; cases y) (auto simp: push_command_def pushed_def Let_def)
    qed
  qed
qed

lemma push_commands_ok:
  fixes w :: "'s ssys_scheme"
  assumes "work_ok sl hand w" and "open_change a w"
  shows "pushed sl hand a (map_sum id somes (fst (for_each (push_command a p l same) ids w)))
           (snd (for_each (push_command a p l same) ids w))"
  using assms
proof (induction ids arbitrary: hand w)
  case Nil
  then show ?case by (simp add: pushed_def)
next
  case (Cons i ids)
  obtain r v where r: "push_command a p l same i w = (r, v)" by fastforce
  note ok = push_command_ok [OF Cons.prems, of p l same i, unfolded r]
  show ?case
  proof (cases r)
    case (Inl e)
    then show ?thesis using ok r by (simp add: pushed_def)
  next
    case (Inr c)
    let ?cs = "case_option [] (\<lambda>c. [c]) c"
    have v: "work_ok sl (?cs @ hand) v" "open_change a v" "list_all (single a) ?cs"
      using ok Inr by (simp_all add: pushed_def)
    obtain r2 v2 where r2: "for_each (push_command a p l same) ids v = (r2, v2)" by fastforce
    note ok2 = Cons.IH [OF v(1,2), unfolded r2]
    show ?thesis
    proof (cases r2)
      case (Inl e)
      then show ?thesis using ok2 r Inr r2 by (simp add: pushed_def)
    next
      case (Inr cs)
      then have "work_ok sl (somes cs @ ?cs @ hand) v2" "open_change a v2" "list_all (single a) (somes cs)"
        using ok2 by (simp_all add: pushed_def)
      then show ?thesis using r r2 Inr \<open>r = Inr c\<close> v(3)
        by (cases c) (auto simp: pushed_def elim!: work_ok_hand)
    qed
  qed
qed

text \<open>The commands go from the hand into the chain.\<close>

lemma set_chain_ok:
  assumes "work_ok sl (cs @ hand) w" and "open_change a w" and "list_all (single a) cs"
  shows "work_ok sl hand (snd (modify_change a (setCmdChain cs) w))"
proof -
  let ?hp = "update_at a (setCmdChain cs) (w_heap w)"
  have ch: "chain_commands (setCmdChain cs c) = cs" for c
    by (simp add: chain_commands_def setCmdChain_def o_def)
  have own: "own_chain a (setCmdChain cs c)" for c
    using assms(3) by (auto simp: own_chain_def ch list_all_iff single_def)
  have "work_ok sl hand (w\<lparr>w_heap := ?hp\<rparr>)"
  proof (rule work_ok_heap [OF assms(1)])
    fix b assume b: "b < length ?hp"
    have "change_ok b (w_heap w ! b)" using assms(1) b by (simp add: work_ok_def)
    then show "change_ok b (?hp ! b) \<and>
       int (owned_in b hand + owned_in b (chain_commands (?hp ! b))) - ch_pending (?hp ! b) \<le>
       int (owned_in b (cs @ hand) + owned_in b (chain_commands (w_heap w ! b))) - ch_pending (w_heap w ! b)"
      using b assms(2) own ch by (auto simp: nth_update_at change_ok_def open_change_def setCmdChain_def)
  next
    fix b assume "length ?hp \<le> b"
    then show "owned_in b hand = 0" using assms(1) by (simp add: work_ok_def)
  qed simp
  then show ?thesis by (simp add: modify_change_def)
qed

subsection \<open>The whole run keeps the accounts\<close>

lemma handle_change_keeps: "keeps (handle_change P sched a)"
  by (rule run.handleChange_keeps)

lemma keeps_at:
  assumes "\<And>v. keeps (f v)"
  shows "keeps (\<lambda>w. f w w)"
  unfolding keeps_def valid_def by (intro allI impI) (rule validD [OF keepsD [OF assms]])

lemma other_threads_keeps: "keeps (other_threads P sched)"
proof -
  have "keeps (andThen (for_each (run_turn P) ts) (\<lambda>_. ret ()))" for ts :: "turn list"
    by (intro keeps_andThen keeps_for_each run_turn_keeps quiet_keeps [OF quiet_ret(1)])
  then have "keeps (\<lambda>w. andThen (for_each (run_turn P) (sched w)) (\<lambda>_. ret ()) w)" by (rule keeps_at)
  then show ?thesis by (simp add: other_threads_def [abs_def])
qed

lemma http_wait_keeps: "keeps (http_wait P sched :: (('j, 's) csys_scheme, unit) act)"
proof -
  have idle: "keeps (\<lambda>w1 :: ('j, 's) csys_scheme. if ac_idle (http_active w1) then ret () w1 else throw Diverges w1)"
    by (intro quiet_keeps) (simp add: quiet_def cm.R_refl)
  have "keeps (andThen (for_each (run_turn P) ts)
     (\<lambda>_ w1 :: ('j, 's) csys_scheme. if ac_idle (http_active w1) then ret () w1 else throw Diverges w1))" for ts
    by (intro keeps_andThen keeps_for_each run_turn_keeps idle)
  from keeps_at [of "\<lambda>w. andThen (for_each (run_turn P) (sched w)) _", OF this]
  show ?thesis by (simp add: http_wait_def [abs_def])
qed

lemma wait_all_keeps: "keeps (wait_all P sched)"
  unfolding wait_all_def by (intro keeps_andThen http_wait_keeps pg_wait_keeps)

lemma reconcile_path_keeps: "keeps (reconcile_path P sched local_dir p best m :: (('j, 's) csys_scheme, file_map) act)"
proof -
  have f: "keeps (new_change (\<lambda>_. if b then fetch_directory d p t else fetch_file d p t) :: (('j, 's) csys_scheme, nat) act)"
    "keeps (new_change (\<lambda>_. fetch_update u p t) :: (('j, 's) csys_scheme, nat) act)" for b d t u
    by (intro steady_keeps fetch_steady)+
  have k: "keeps (case map_of m p of
        None \<Rightarrow> andThen (new_change (\<lambda>_. if fr_type best = Directory then fetch_directory best p (w_clock v)
                                  else fetch_file best p (w_clock v)))
            (\<lambda>a. andThen (handle_change P sched a) (\<lambda>_. ret (fm_emplace p best m)))
      | Some l \<Rightarrow>
          (if fs_is_regular_file (w_fs v) (path_div local_dir p) \<and> fr_mtime l < fr_mtime best
           then andThen (lift_res (get_hash_str (fr_hash best)))
             (\<lambda>hash. andThen (new_change (\<lambda>_. fetch_update
                  (updated_cloud (fr_type best) (fr_global_id l) (fr_cloud_id best) (fr_cloud_file_id best) hash
                     (fr_mtime best) p (fr_cloud_parent_id best) (fr_size best)) p (w_clock v)))
             (\<lambda>a. andThen (handle_change P sched a)
             (\<lambda>_. ret (fm_assign p (best\<lparr>fr_global_id := fr_global_id l\<rparr>) m))))
           else ret m))" for v :: "('j, 's) csys_scheme"
    by (auto intro!: keeps_andThen f f(1) [of True, simplified] f(1) [of False, simplified] handle_change_keeps quiet_keeps [OF quiet_ret(1)] quiet_keeps [OF quiet_ret(3)]
        simp del: act_simps split: option.split)
  from keeps_at [OF k] show ?thesis
    by (simp add: reconcile_path_def [abs_def] if_distribR option.case_distrib [of "\<lambda>g. g _"] cong: option.case_cong)
qed

lemma reconcile_keeps: "keeps (reconcile P R sched local_dir files ps m)"
  by (induction ps arbitrary: m)
     (auto intro!: keeps_andThen other_threads_keeps reconcile_path_keeps quiet_keeps [OF quiet_ret(1)]
       simp del: act_simps split: option.split)

lemma push_directory_keeps: "keeps (push_directory P sched p ids same :: (('j, 's) csys_scheme, unit) act)"
proof -
  have "keeps (andThen (new_change (\<lambda>_ hp. let (a, hp1) = alloc (Change New p t 0) hp
           in (a, update_at a (setCmdChain_one (new_command CloudUpload i)) hp1)) :: (('j, 's) csys_scheme, nat) act)
         (handle_change P sched))" for t i
    by (intro keeps_andThen steady_keeps push_changes_steady handle_change_keeps)
  then have "keeps (case find (\<lambda>i. \<not> has_it same i) ids of None \<Rightarrow> ret ()
      | Some i \<Rightarrow> andThen (new_change (\<lambda>_ hp. let (a, hp1) = alloc (Change New p (w_clock v) 0) hp
           in (a, update_at a (setCmdChain_one (new_command CloudUpload i)) hp1)) :: (('j, 's) csys_scheme, nat) act)
         (handle_change P sched))" for v :: "('j, 's) csys_scheme"
    by (auto intro: quiet_keeps [OF quiet_ret(1)] simp del: act_simps split: option.split)
  from keeps_at [OF this] show ?thesis
    by (simp add: push_directory_def [abs_def] option.case_distrib [of "\<lambda>g. g _"] cong: option.case_cong)
qed

lemma push_file_keeps: "keeps (push_file P sched p l ids same :: (('j, 's) csys_scheme, unit) act)"
  unfolding keeps_def valid_def
proof (intro allI impI)
  fix sl hand and w :: "('j, 's) csys_scheme"
  assume w: "work_ok sl hand w"
  let ?a = "length (w_heap w)"
  let ?w1 = "w\<lparr>w_heap := w_heap w @ [Change New p (w_clock w) 0]\<rparr>"
  have n: "new_change (\<lambda>_. alloc (Change New p (w_clock w) 0)) w = (Inr ?a, ?w1)"
    by (simp add: new_change_def alloc_def)
  have w1: "work_ok sl hand ?w1" "open_change ?a ?w1"
    using steadyD [OF push_changes_steady(1) w, of p "w_clock w"] n by (simp_all add: open_change_def Change_def)
  obtain r w2 where r: "for_each (push_command ?a p l same) ids ?w1 = (r, w2)" by fastforce
  note ok = push_commands_ok [OF w1, of p l same ids, unfolded r]
  have hc: "case handle_change P sched ?a v of (Inl e, u) \<Rightarrow> work_ok sl [] u | (Inr x, u) \<Rightarrow> work_ok sl hand u"
    if "work_ok sl hand v" for v :: "('j, 's) csys_scheme"
    by (rule validD [OF keepsD [OF handle_change_keeps] that])
  show "case push_file P sched p l ids same w of (Inl e, u) \<Rightarrow> work_ok sl [] u | (Inr x, u) \<Rightarrow> work_ok sl hand u"
  proof (cases r)
    case (Inl e)
    then show ?thesis using ok n r by (simp add: push_file_def pushed_def)
  next
    case (Inr cs)
    then have v: "work_ok sl (somes cs @ hand) w2" "open_change ?a w2" "list_all (single ?a) (somes cs)"
      using ok by (simp_all add: pushed_def)
    show ?thesis
    proof (cases "somes cs = []")
      case True
      then show ?thesis using v n r Inr by (simp add: push_file_def)
    next
      case False
      obtain u where u: "modify_change ?a (setCmdChain (somes cs)) w2 = (Inr (), u)"
        by (simp add: modify_change_def)
      show ?thesis using hc [OF set_chain_ok [OF v, unfolded u snd_conv]] False n r Inr u
        by (simp add: push_file_def)
    qed
  qed
qed

lemma push_path_keeps: "keeps (push_path P R sched ids files e :: (('a, 'b) csys_scheme, unit) act)"
proof -
  have d: "keeps (\<lambda>w. if fs_is_directory (w_fs w) p then push_directory P sched p keys same w
                     else push_file P sched p l keys same w :: unit res \<times> ('a, 'b) csys_scheme)" for p keys same l
  proof -
    have "keeps (if fs_is_directory (w_fs v) p then push_directory P sched p keys same
                 else push_file P sched p l keys same)" for v :: "('a, 'b) csys_scheme"
      by (simp add: push_directory_keeps push_file_keeps)
    from keeps_at [OF this] show ?thesis by (simp add: if_distribR)
  qed
  show ?thesis unfolding push_path_def Let_def
    by (auto intro!: keeps_andThen other_threads_keeps d quiet_keeps [OF quiet_ret(1)] quiet_keeps [OF quiet_reads(5)]
        simp del: act_simps split: prod.split)
qed

lemma first_sync_keeps: "keeps (first_sync has_local P R sched local_dir :: (('j, 's) csys_scheme, unit) act)"
proof -
  have s: "keeps (modify (\<lambda>w :: ('j, 's) csys_scheme. http_start (cb_start w)))"
    by (rule quiet_keeps) (simp add: quiet_def calm_def same_work_def http_start_def cb_start_def)
  have l: "quiet (if has_local then scan_local P else throw NullPointer :: (('j, 's) csys_scheme, file_map) act)"
    by (simp add: scan_local_quiet quiet_ret)
  show ?thesis unfolding first_sync_def
    by (intro keeps_andThen keeps_for_each s reconcile_keeps wait_all_keeps push_path_keeps
        quiet_keeps [OF l] quiet_keeps [OF scan_clouds_quiet] quiet_keeps [OF save_token_quiet]
        quiet_keeps [OF quiet_config(1)] quiet_keeps [OF quiet_config(2)] quiet_keeps [OF quiet_config(5)]
        quiet_keeps [OF quiet_ret(4)])
qed

text \<open>
  C8. The initial synchronisation completes no change too early, however it ends: when it has
  run, or was left by an exception at any point, no completed change has a command left in any
  queue, running or delayed, and the tables of the database satisfy the schema.
\<close>

theorem initial_sync_completions:
  assumes "daemon_start w" and "initialSync P R sched w = (r, w1)"
  shows "db_ok (w_db w1) \<and>
    (\<forall>a < length (w_heap w1). ch_status (w_heap w1 ! a) = CompletedS \<longrightarrow>
       (\<forall>c \<in> set (q_items (cb_queue w1) @ q_items (http_queue w1) @ http_inflight w1 @ http_delayed w1).
          \<forall>d \<in> set (commands c). cmd_owner d \<noteq> Some a))"
proof (rule accounts_done)
  have "initialSync P R sched w = first_sync (sm_has_local w) (configured P w) R sched (sm_local_dir w) w"
    by (simp add: initialSync_def)
  then show "accounts_ok w1"
    using validD [OF keepsD [OF first_sync_keeps] start_accounts [OF assms(1)]] assms(2)
    by (metis (mono_tags, lifting) case_prod_conv sum.case_eq_if)
qed

definition any_order :: orders where
  "any_order = \<lparr>or_paths = (\<lambda>ps. ps), or_same = (\<lambda>ds. ds), or_ids = (\<lambda>is. is)\<rparr>"

definition sample_manager :: "jv msys" where
  "sample_manager = csys.extend (sample_daemon [] [] [] 0)
     \<lparr>sm_local_dir = ls_home sample_world, sm_kinds = (\<lambda>_. None), sm_has_local = True, sm_redirects = [],
      sm_watching = False, sm_threads = False, sm_should_exit = False\<rparr>"

theorem initial_sync_completions_witness:
  "db_ok (w_db (snd (initialSync sample_program any_order (\<lambda>_. []) sample_manager)))"
proof -
  have "daemon_start sample_manager"
    using sample_db_ok by (simp add: daemon_start_def sample_manager_def sample_daemon_def q_new_def csys.defs)
  from initial_sync_completions [OF this surjective_pairing] show ?thesis by blast
qed

subsection \<open>Reconciling\<close>

lemma newest_fold:
  "fold newer_of ds acc = Some b \<Longrightarrow>
     (b \<in> set ds \<or> acc = Some b) \<and> (\<forall>d \<in> set ds. fr_mtime d \<le> fr_mtime b) \<and>
     (\<forall>x. acc = Some x \<longrightarrow> fr_mtime x \<le> fr_mtime b)"
proof (induction ds arbitrary: acc)
  case Nil
  then show ?case by simp
next
  case (Cons d ds)
  then show ?case
    using Cons.IH [of "newer_of d acc"] by (auto simp: newer_of_def split: option.splits if_splits) force+
qed

lemma newest_None: "fold newer_of ds acc = None \<longleftrightarrow> ds = [] \<and> acc = None"
proof (induction ds arbitrary: acc)
  case (Cons d ds)
  then show ?case by (auto simp: newer_of_def split: option.splits)
qed simp

lemma best_candidate_newest:
  assumes "set (or_same R (filter (\<lambda>d. fr_rel_path d = p) files)) = set (filter (\<lambda>d. fr_rel_path d = p) files)"
    and "best_candidate (candidates R files p) = Some b"
  shows "b \<in> set files" "fr_rel_path b = p" "c \<in> set files \<Longrightarrow> fr_rel_path c = p \<Longrightarrow> fr_mtime c \<le> fr_mtime b"
  using newest_fold [of "candidates R files p" None b] assms by (auto simp: best_candidate_def candidates_def)

lemma fm_keys [simp]:
  "fst ` set (fm_emplace p d m) = insert p (fst ` set m)" "fst ` set (fm_assign p d m) = insert p (fst ` set m)"
  by (auto simp: fm_emplace_def fm_assign_def map_of_eq_None_iff image_iff split: option.splits) force+

lemma map_of_emplace:
  "map_of (fm_emplace p d m) q = (if q = p \<and> map_of m p = None then Some d else map_of m q)"
  by (auto simp: fm_emplace_def map_add_def split: option.splits)

lemma map_of_assign: "map_of (fm_assign p d m) q = (if q = p then Some d else map_of m q)"
proof -
  have "map_of (map (\<lambda>(q, e). (q, if q = p then d else e)) m) q =
      (if q = p \<and> map_of m p \<noteq> None then Some d else map_of m q)" by (induction m) auto
  then show ?thesis by (auto simp: fm_assign_def map_add_def split: option.splits)
qed

text \<open>What one path becomes.\<close>

definition taken :: "file_record_dto list \<Rightarrow> file_map \<Rightarrow> path \<Rightarrow> file_record_dto \<Rightarrow> bool" where
  "taken files m p d \<longleftrightarrow>
     (\<exists>b \<in> set files. fr_rel_path b = p \<and> (\<forall>c \<in> set files. fr_rel_path c = p \<longrightarrow> fr_mtime c \<le> fr_mtime b) \<and>
        (case map_of m p of
           None \<Rightarrow> d = b
         | Some l \<Rightarrow> fr_mtime l < fr_mtime b \<and> d = b\<lparr>fr_global_id := fr_global_id l\<rparr>))"

lemma reconcile_path_map:
  assumes "reconcile_path P sched dir p b m w = (Inr m1, w1)"
  shows "m1 = fm_emplace p b m \<and> map_of m p = None \<or> m1 = m \<and> map_of m p \<noteq> None \<or>
    (\<exists>l. map_of m p = Some l \<and> fr_mtime l < fr_mtime b \<and> m1 = fm_assign p (b\<lparr>fr_global_id := fr_global_id l\<rparr>) m)"
  using assms by (auto simp: reconcile_path_def andThen_ok split: option.splits if_splits)

lemma reconcile_map:
  assumes R: "\<And>xs. set (or_same R xs) = set xs"
  shows "reconcile P R sched dir files ps m w = (Inr m1, w1) \<Longrightarrow> distinct ps \<Longrightarrow>
    fst ` set m1 = fst ` set m \<union> (set ps \<inter> fr_rel_path ` set files) \<and>
    (\<forall>p. map_of m1 p = map_of m p \<or> p \<in> set ps \<and> (\<exists>d. map_of m1 p = Some d \<and> taken files m p d))"
proof (induction ps arbitrary: m w)
  case Nil
  then show ?case by simp
next
  case (Cons p ps)
  show ?case
  proof (cases "best_candidate (candidates R files p)")
    case None
    then have "p \<notin> fr_rel_path ` set files"
      using R newest_None [of "candidates R files p" None] arg_cong [OF R [of "filter (\<lambda>d. fr_rel_path d = p) files"], of "\<lambda>s. s = {}"]
      by (auto simp: best_candidate_def candidates_def filter_empty_conv)
    moreover have "fst ` set m1 = fst ` set m \<union> (set ps \<inter> fr_rel_path ` set files) \<and>
      (\<forall>q. map_of m1 q = map_of m q \<or> q \<in> set ps \<and> (\<exists>d. map_of m1 q = Some d \<and> taken files m q d))"
      using Cons.IH [of m w] Cons.prems None by simp
    ultimately show ?thesis by (metis Int_insert_left_if0 insert_iff list.set(2))
  next
    case (Some b)
    note b = best_candidate_newest [OF R Some]
    obtain m2 w2 w3 where m2: "reconcile_path P sched dir p b m w2 = (Inr m2, w3)"
      and rest: "reconcile P R sched dir files ps m2 w3 = (Inr m1, w1)"
      using Cons.prems(1) Some by (auto simp: andThen_ok)
    have IH: "fst ` set m1 = fst ` set m2 \<union> (set ps \<inter> fr_rel_path ` set files) \<and>
      (\<forall>q. map_of m1 q = map_of m2 q \<or> q \<in> set ps \<and> (\<exists>d. map_of m1 q = Some d \<and> taken files m2 q d))"
      using Cons.IH [OF rest] Cons.prems(2) by simp
    have p: "p \<notin> set ps" using Cons.prems(2) by simp
    have t: "map_of m p = None \<Longrightarrow> taken files m p b"
      "map_of m p = Some l \<Longrightarrow> fr_mtime l < fr_mtime b \<Longrightarrow> taken files m p (b\<lparr>fr_global_id := fr_global_id l\<rparr>)" for l
      unfolding taken_def using b by (auto intro!: bexI [of _ b])
    have m2_cases: "fst ` set m2 = insert p (fst ` set m) \<and> (\<forall>q. q \<noteq> p \<longrightarrow> map_of m2 q = map_of m q) \<and>
      (map_of m2 p = map_of m p \<or> (\<exists>d. map_of m2 p = Some d \<and> taken files m p d))"
      using reconcile_path_map [OF m2]
    proof (elim disjE exE conjE)
      assume "m2 = fm_emplace p b m" "map_of m p = None"
      then show ?thesis using t(1) by (simp add: map_of_emplace)
    next
      assume "m2 = m" "map_of m p \<noteq> None"
      then show ?thesis by (simp add: map_of_eq_None_iff insert_absorb)
    next
      fix l assume "map_of m p = Some l" "fr_mtime l < fr_mtime b" "m2 = fm_assign p (b\<lparr>fr_global_id := fr_global_id l\<rparr>) m"
      then show ?thesis using t(2) by (simp add: map_of_assign)
    qed
    then have k: "fst ` set m2 = insert p (fst ` set m)"
      and o: "\<And>q. q \<noteq> p \<Longrightarrow> map_of m2 q = map_of m q"
      and e: "map_of m2 p = map_of m p \<or> (\<exists>d. map_of m2 p = Some d \<and> taken files m p d)"
      by blast+
    have "taken files m2 q d = taken files m q d" if "q \<noteq> p" for q d using o [OF that] by (simp add: taken_def)
    then have "map_of m1 q = map_of m q \<or> q \<in> insert p (set ps) \<and> (\<exists>d. map_of m1 q = Some d \<and> taken files m q d)" for q
      using IH o [of q] e p by (cases "q = p") (metis insert_iff)+
    moreover have "fst ` set m1 = fst ` set m \<union> (insert p (set ps) \<inter> fr_rel_path ` set files)"
      using IH k b(1,2) by auto
    ultimately show ?thesis by simp
  qed
qed

text \<open>
  C9. Reconciling loses no path and takes over only newer versions: afterwards the map holds
  exactly the paths found locally or in some cloud; every entry is the local one, or the newest
  version any cloud has of the path, and then the local directory had none or an older one,
  whose global id the entry has. This holds for every iteration order of the containers.
\<close>

theorem reconcile_keeps_union:
  assumes "\<And>xs. set (or_same R xs) = set xs" and "\<And>xs. distinct xs \<Longrightarrow> set (or_paths R xs) = set xs \<and> distinct (or_paths R xs)"
    and "reconcile P R sched dir files (or_paths R (remdups (map fr_rel_path files))) m w = (Inr m1, w1)"
  shows "fst ` set m1 = fst ` set m \<union> fr_rel_path ` set files \<and>
    (\<forall>p d. map_of m1 p = Some d \<longrightarrow> map_of m p = Some d \<or>
       (\<exists>b \<in> set files. fr_rel_path b = p \<and> (\<forall>c \<in> set files. fr_rel_path c = p \<longrightarrow> fr_mtime c \<le> fr_mtime b) \<and>
          (case map_of m p of
             None \<Rightarrow> d = b
           | Some l \<Rightarrow> fr_mtime l < fr_mtime b \<and> d = b\<lparr>fr_global_id := fr_global_id l\<rparr>)))"
proof -
  let ?ps = "or_paths R (remdups (map fr_rel_path files))"
  have ps: "set ?ps = fr_rel_path ` set files" "distinct ?ps"
    using assms(2) [of "remdups (map fr_rel_path files)"] by simp_all
  note r = reconcile_map [OF assms(1) assms(3) ps(2)]
  show ?thesis
  proof (intro conjI allI impI)
    show "fst ` set m1 = fst ` set m \<union> fr_rel_path ` set files" using r ps(1) by simp
  next
    fix p d assume "map_of m1 p = Some d"
    moreover have "map_of m1 p = map_of m p \<or> p \<in> set ?ps \<and> (\<exists>d. map_of m1 p = Some d \<and> taken files m p d)"
      using r by blast
    ultimately have "map_of m p = Some d \<or> taken files m p d" by auto
    then show "map_of m p = Some d \<or>
       (\<exists>b \<in> set files. fr_rel_path b = p \<and> (\<forall>c \<in> set files. fr_rel_path c = p \<longrightarrow> fr_mtime c \<le> fr_mtime b) \<and>
          (case map_of m p of
             None \<Rightarrow> d = b
           | Some l \<Rightarrow> fr_mtime l < fr_mtime b \<and> d = b\<lparr>fr_global_id := fr_global_id l\<rparr>))"
      by (simp only: taken_def)
  qed
qed

theorem reconcile_keeps_union_witness:
  "let l = record_local_new File (path_of_string ''a'') 1 9 1 1;
       d = record_google_new File ''r'' (path_of_string ''a'') ''id'' 1 5 ''h'' 1
   in fst ` set (case fst (reconcile sample_program any_order (\<lambda>_. []) empty_path [d] [path_of_string ''a'']
                   [(path_of_string ''a'', l)] sample_manager) of Inr m1 \<Rightarrow> m1 | Inl _ \<Rightarrow> []) = {path_of_string ''a''}"
proof -
  let ?l = "record_local_new File (path_of_string ''a'') 1 9 1 1"
  let ?d = "record_google_new File ''r'' (path_of_string ''a'') ''id'' 1 5 ''h'' 1"
  let ?m = "[(path_of_string ''a'', ?l)]"
  have c: "best_candidate (candidates any_order [?d] (path_of_string ''a'')) = Some ?d"
    by (simp add: best_candidate_def candidates_def any_order_def newer_of_def record_google_new_def)
  have "other_threads sample_program (\<lambda>_. []) sample_manager = (Inr (), sample_manager)"
    by (simp add: other_threads_def)
  then have r: "reconcile sample_program any_order (\<lambda>_. []) empty_path [?d] [path_of_string ''a''] ?m sample_manager
      = (Inr ?m, sample_manager)"
    by (simp add: c [unfolded record_google_new_def] reconcile_path_def record_local_new_def record_google_new_def andThen_def)
  then have "reconcile sample_program any_order (\<lambda>_. []) empty_path [?d]
      (or_paths any_order (remdups (map fr_rel_path [?d]))) ?m sample_manager = (Inr ?m, sample_manager)"
    by (simp add: any_order_def record_google_new_def)
  from reconcile_keeps_union [OF _ _ this]
  have "fst ` set ?m = fst ` set ?m \<union> fr_rel_path ` set [?d]" by (simp add: any_order_def)
  then show ?thesis using r by (simp add: Let_def)
qed

subsection \<open>Pushing\<close>

text \<open>What the program makes for one cloud.\<close>

definition push_target :: "file_record_dto \<Rightarrow> file_record_dto list \<Rightarrow> int \<Rightarrow> bool" where
  "push_target l same i \<longleftrightarrow> \<not> (has_it same i \<and> i = fr_cloud_id l)"

lemma push_command_result:
  assumes "push_command a p l same i w = (Inr oc, w1)"
  shows "case oc of
      None \<Rightarrow> \<not> push_target l same i
    | Some c \<Rightarrow> push_target l same i \<and> cmd_id c = i \<and> cmd_owner c = Some a \<and>
        (if has_it same i
         then cmd_kind c = CloudUpdate \<and> (\<exists>u. cmd_dto c = Some (UpdatedDTO u) \<and> fu_rel_path u = p \<and>
                fu_global_id u = fr_global_id l \<and> fu_mtime u = fr_mtime l \<and> fu_size u = fr_size l)
         else cmd_kind c = CloudUpload \<and> cmd_dto c = Some (RecordDTO l))"
  using assms
  by (auto simp: push_command_def push_target_def andThen_ok own_command_def setOwner_def new_command_def Let_def
      updated_cloud_def split: if_splits option.splits)

text \<open>
  C10. Every cloud gets the version that was kept, once: of the clouds gone through, each that
  does not have the path gets one upload of the record, each that has another version gets one
  update of its own file with the time and size of the kept version, and only the cloud the
  version came from gets nothing; all commands belong to the one change. (So a file that is the
  same everywhere is sent to every cloud again.)
\<close>

theorem push_reaches_every_cloud:
  assumes "for_each (push_command a p l same) ids w = (Inr cs, w1)"
  shows "map cmd_id (somes cs) = filter (\<lambda>i. \<not> (has_it same i \<and> i = fr_cloud_id l)) ids \<and>
    (\<forall>c \<in> set (somes cs). cmd_owner c = Some a \<and>
       (if has_it same (cmd_id c)
        then cmd_kind c = CloudUpdate \<and> (\<exists>u. cmd_dto c = Some (UpdatedDTO u) \<and> fu_rel_path u = p \<and>
               fu_global_id u = fr_global_id l \<and> fu_mtime u = fr_mtime l \<and> fu_size u = fr_size l)
        else cmd_kind c = CloudUpload \<and> cmd_dto c = Some (RecordDTO l)))"
  using assms
proof (induction ids arbitrary: cs w)
  case Nil
  then show ?case by simp
next
  case (Cons i ids)
  then obtain oc w2 cs2 where oc: "push_command a p l same i w = (Inr oc, w2)"
    and rest: "for_each (push_command a p l same) ids w2 = (Inr cs2, w1)" and cs: "cs = oc # cs2"
    by (auto simp: andThen_ok)
  show ?case
    using push_command_result [OF oc] Cons.IH [OF rest] cs by (cases oc) (auto simp: push_target_def)
qed

theorem push_reaches_every_cloud_witness:
  "\<exists>cs w1. for_each (push_command 0 empty_path (record_local_new File empty_path 1 9 1 1) []) [1, 2]
       (sample_daemon [Change New empty_path 0 0] [] [] 0) = (Inr cs, w1) \<and> map cmd_id (somes cs) = [1, 2]"
proof -
  let ?l = "record_local_new File empty_path 1 9 1 1"
  obtain cs w1 where r: "for_each (push_command 0 empty_path ?l []) [1, 2] (sample_daemon [Change New empty_path 0 0] [] [] 0) = (Inr cs, w1)"
    by (simp add: push_command_def has_it_def own_command_def setOwner_def andThen_def)
  from push_reaches_every_cloud [OF r] show ?thesis
    using r by (simp add: has_it_def)
qed

text \<open>
  The initial synchronisation crashes over directories when it is run inside the directory
  to be synchronised: whether a path is a directory is asked of the working directory, and there
  the command for the first cloud without it has no data; reading its type goes through a null
  pointer.
\<close>

theorem directory_push_crashes:
  assumes "other_threads P sched w = (Inr (), w1)" and "fr_global_id l \<noteq> 0"
    and "fs_is_directory (w_fs w1) p"
    and "i \<in> set (push_ids R ids (candidates R files p))" and "\<not> has_it (candidates R files p) i"
  shows "fst (push_path P R sched ids files (p, l) w) = Inl NullPointer"
proof -
  let ?s = "candidates R files p"
  have "find (\<lambda>i. \<not> has_it ?s i) (push_ids R ids ?s) \<noteq> None"
    using assms(4,5) by (auto simp: find_None_iff)
  then obtain j where j: "find (\<lambda>i. \<not> has_it ?s i) (push_ids R ids ?s) = Some j" by blast
  have t: "change_getTargetType (setCmdChain_one (new_command CloudUpload j) (Change New p t 0)) = Inl NullPointer" for t
    by (simp add: change_getTargetType_def setCmdChain_one_def Change_def new_command_def)
  have "fst (push_directory P sched p (push_ids R ids ?s) ?s w1) = Inl NullPointer"
    by (simp add: push_directory_def j new_change_def alloc_def handleChange_def deref_change_def t Let_def andThen_def)
  then show ?thesis using assms(1-3) by (simp add: push_path_def Let_def)
qed

theorem directory_push_crashes_witness:
  "let w = sample_manager\<lparr>w_fs := (w_fs sample_manager)\<lparr>fs_cwd := [''home''],
             fs_nodes := [([''home'', ''docs''], \<lparr>n_dir = True, n_data = [], n_mtime = 0, n_ino = 1\<rparr>)]\<rparr>\<rparr>
   in fst (push_path sample_program any_order (\<lambda>_. []) [1] []
       (path_of_string ''docs'', (record_local_new Directory (path_of_string ''docs'') 0 0 0 1)\<lparr>fr_global_id := 4\<rparr>) w) = Inl NullPointer"
proof -
  let ?w = "sample_manager\<lparr>w_fs := (w_fs sample_manager)\<lparr>fs_cwd := [''home''],
             fs_nodes := [([''home'', ''docs''], \<lparr>n_dir = True, n_data = [], n_mtime = 0, n_ino = 1\<rparr>)]\<rparr>\<rparr>"
  have "other_threads sample_program (\<lambda>_. []) ?w = (Inr (), ?w)" by (simp add: other_threads_def)
  from directory_push_crashes [OF this, of _ _ 1 any_order "[1]" "[]"] show ?thesis
    by (simp add: Let_def push_ids_def candidates_def any_order_def has_it_def fs_is_directory_def fs_node_def fs_key_def
        path_of_string_def starts_with_def)
qed

end
