(* ===== verification/ConfigProps.thy ===== *)
theory ConfigProps
  imports FirstSyncProps
begin

text \<open>
  What configuring the program guarantees: the check of permissions and its failure, the local
  directory, and the clouds that are set up from the database.
\<close>

subsection \<open>The check of permissions\<close>

definition same_tree :: "fs \<Rightarrow> fs \<Rightarrow> bool" where
  "same_tree f g \<longleftrightarrow> fs_nodes g = fs_nodes f \<and> fs_cwd g = fs_cwd f"

lemma fs_key_cwd: "fs_cwd g = fs_cwd f \<Longrightarrow> fs_key g p = fs_key f p"
  by (simp add: fs_key_def Let_def)

lemma same_tree_facts:
  assumes "same_tree f g"
  shows "fs_key g p = fs_key f p" "fs_is_directory g p = fs_is_directory f p"
    "fs_is_regular_file g p = fs_is_regular_file f p" "fs_recursive g p = fs_recursive f p"
proof -
  show k: "fs_key g p = fs_key f p" for p using assms by (intro fs_key_cwd) (simp add: same_tree_def)
  then show d: "fs_is_directory g p = fs_is_directory f p" "fs_is_regular_file g p = fs_is_regular_file f p"
    using assms by (simp_all add: same_tree_def fs_is_directory_def fs_is_regular_file_def fs_node_def)
  show "fs_recursive g p = fs_recursive f p"
    using assms by (simp add: fs_recursive_def d k same_tree_def)
qed

lemma key_div_seg:
  assumes "seg_ok s" and "s \<noteq> ''.''"
  shows "fs_key f (path_div_seg p s) = fs_key f p @ [s]"
proof -
  have s: "path_of_string s = \<lparr>rooted = False, segs = [s]\<rparr>"
    using assms(1) path_string_roundtrip [of "\<lparr>rooted = False, segs = [s]\<rparr>"]
    by (simp add: plain_path_def path_string_def)
  have "segs p \<noteq> [] \<Longrightarrow> last (segs p) = [] \<Longrightarrow>
      filter (\<lambda>s. s \<noteq> [] \<and> s \<noteq> ''.'') (segs p) = filter (\<lambda>s. s \<noteq> [] \<and> s \<noteq> ''.'') (butlast (segs p))"
    by (cases "segs p" rule: rev_cases) auto
  then show ?thesis using assms by (auto simp: s path_div_def fs_key_def Let_def seg_ok_def)
qed

lemma probe_ok: "seg_ok probe_name" "probe_name \<noteq> ''.''"
  by (simp_all add: seg_ok_def probe_name_def)

text \<open>No entry has the name of the probe.\<close>

definition no_probe :: "fs \<Rightarrow> bool" where
  "no_probe f \<longleftrightarrow> list_all (\<lambda>e. fst e \<noteq> [] \<longrightarrow> last (fst e) \<noteq> probe_name) (fs_nodes f)"

lemma filter_absent: "map_of xs k = None \<Longrightarrow> filter (\<lambda>e. fst e \<noteq> k) xs = xs"
  by (induction xs) (auto split: if_splits)

lemma probe_restores:
  assumes "fs_is_directory f d" and "no_probe f"
  shows "fst (directoryIsWritable pm d f) = may_write pm (path_div_seg d probe_name)"
    and "same_tree f (snd (directoryIsWritable pm d f))"
proof -
  let ?p = "path_div_seg d probe_name"
  have k: "fs_key f ?p = fs_key f d @ [probe_name]" by (rule key_div_seg [OF probe_ok])
  have new: "map_of (fs_nodes f) (fs_key f d @ [probe_name]) = None"
    using assms(2) by (fastforce simp: no_probe_def list_all_iff map_of_eq_None_iff)
  obtain n where n: "map_of (fs_nodes f) (fs_key f d) = Some n" "n_dir n"
    using assms(1) by (auto simp: fs_is_directory_def fs_node_def split: option.splits)
  let ?node = "(fs_key f d @ [probe_name], \<lparr>n_dir = False, n_data = [], n_mtime = fs_clock f, n_ino = fs_next_ino f\<rparr>)"
  let ?g = "f\<lparr>fs_nodes := fs_nodes f @ [?node], fs_next_ino := fs_next_ino f + 1\<rparr>"
  have out: "fs_open_out ?p f = (Some [], ?g)" using new n by (simp add: fs_open_out_def k Let_def)
  have kg: "fs_key ?g ?p = fs_key f d @ [probe_name]" by (subst fs_key_cwd [of ?g f]) (simp_all add: k)
  have "fs_remove ?p ?g = (Inr True, ?g\<lparr>fs_nodes := fs_nodes f\<rparr>)"
    using new by (simp add: fs_remove_def kg Let_def map_add_def filter_absent)
  with out show "fst (directoryIsWritable pm d f) = may_write pm ?p" "same_tree f (snd (directoryIsWritable pm d f))"
    by (simp_all add: directoryIsWritable_def same_tree_def Let_def)
qed

definition accessible :: "perms \<Rightarrow> fs \<Rightarrow> path \<Rightarrow> bool" where
  "accessible pm f p \<longleftrightarrow>
     (if fs_is_directory f p then may_write pm (path_div_seg p probe_name)
      else fs_is_regular_file f p \<longrightarrow> may_write pm p)"

lemma entry_check:
  assumes "no_probe f"
  shows "fst (entry_accessible pm p f) = accessible pm f p" "same_tree f (snd (entry_accessible pm p f))"
  using probe_restores [OF _ assms, of p pm] by (auto simp: entry_accessible_def accessible_def same_tree_def)

lemma same_tree_no_probe: "same_tree f g \<Longrightarrow> no_probe f \<Longrightarrow> no_probe g"
  by (simp add: same_tree_def no_probe_def)

lemma same_tree_accessible: "same_tree f g \<Longrightarrow> accessible pm g = accessible pm f"
  by (simp add: accessible_def [abs_def] same_tree_facts)

lemma check_entries_app:
  assumes "no_probe f" and "\<And>p. p \<in> set ps \<Longrightarrow> fs_is_directory f p \<Longrightarrow> may_list pm p"
  obtains g where "same_tree f g"
    "check_entries pm (ps @ qs) f =
       (case check_entries pm qs g of (Inl e, h) \<Rightarrow> (Inl e, h)
        | (Inr bad, h) \<Rightarrow> (Inr (filter (\<lambda>p. \<not> accessible pm f p) ps @ bad), h))"
  using assms
proof (induction ps arbitrary: f thesis)
  case Nil
  show ?case by (rule Nil(1) [of f]) (simp_all add: same_tree_def split: prod.split sum.split)
next
  case (Cons p ps)
  obtain b g where b: "entry_accessible pm p f = (b, g)" by fastforce
  have bg: "b = accessible pm f p" "same_tree f g" using entry_check [OF Cons.prems(2), of pm p] b by simp_all
  obtain h where h: "same_tree g h" "check_entries pm (ps @ qs) g =
       (case check_entries pm qs h of (Inl e, h) \<Rightarrow> (Inl e, h)
        | (Inr bad, h) \<Rightarrow> (Inr (filter (\<lambda>p. \<not> accessible pm g p) ps @ bad), h))"
    using Cons.IH [of g] same_tree_no_probe [OF bg(2) Cons.prems(2)] Cons.prems(3) same_tree_facts(2) [OF bg(2)] by auto
  show ?case
  proof (rule Cons.prems(1))
    show "same_tree f h" using bg(2) h(1) by (simp add: same_tree_def)
    show "check_entries pm ((p # ps) @ qs) f =
       (case check_entries pm qs h of (Inl e, h) \<Rightarrow> (Inl e, h)
        | (Inr bad, h) \<Rightarrow> (Inr (filter (\<lambda>p. \<not> accessible pm f p) (p # ps) @ bad), h))"
      using Cons.prems(3) [of p] b bg(1) h(2) same_tree_accessible [OF bg(2), of pm]
      by (auto simp: Let_def split: prod.split sum.split)
  qed
qed

lemma checkLocalPermissions_start:
  assumes "fs_is_directory (w_fs w) (sm_local_dir w)" and "no_probe (w_fs w)"
    and "may_write pm (path_div_seg (sm_local_dir w) probe_name)" and "may_list pm (sm_local_dir w)"
    and "fs_recursive (w_fs w) (sm_local_dir w) = Inr ps"
  obtains f where "same_tree (w_fs w) f"
    "checkLocalPermissions pm w = (let (r, g) = check_entries pm ps f in (r, w\<lparr>w_fs := g\<rparr>))"
proof -
  let ?d = "sm_local_dir w"
  obtain b f where b: "directoryIsWritable pm ?d (w_fs w) = (b, f)" by fastforce
  have f: "b" "same_tree (w_fs w) f" using probe_restores [OF assms(1,2), of pm] assms(3) b by simp_all
  have "fs_exists (w_fs w) ?d" using assms(1) by (auto simp: fs_exists_def fs_is_directory_def split: option.splits)
  then have "checkLocalPermissions pm w = (let (r, g) = check_entries pm ps f in (r, w\<lparr>w_fs := g\<rparr>))"
    using assms(1,4,5) b f(1) same_tree_facts(4) [OF f(2)]
    by (simp add: checkLocalPermissions_def Let_def fs_query_def fs_call_def andThen_def split: prod.split)
  then show ?thesis using that f(2) by blast
qed

text \<open>
  C28. The check of permissions finds what it looks for and leaves no trace: in a directory the
  program may write to and whose directories it may all list, the result is the list of exactly
  the entries it may not write to, in the order of the listing, and no file or directory has
  been made, changed or removed - when nothing has the name of the probe file.
\<close>

theorem permission_check_exact:
  assumes "fs_is_directory (w_fs w) (sm_local_dir w)" and "no_probe (w_fs w)"
    and "may_write pm (path_div_seg (sm_local_dir w) probe_name)" and "may_list pm (sm_local_dir w)"
    and "fs_recursive (w_fs w) (sm_local_dir w) = Inr ps"
    and "\<And>p. p \<in> set ps \<Longrightarrow> fs_is_directory (w_fs w) p \<Longrightarrow> may_list pm p"
  shows "fst (checkLocalPermissions pm w) = Inr (filter (\<lambda>p. \<not> accessible pm (w_fs w) p) ps) \<and>
    fs_nodes (w_fs (snd (checkLocalPermissions pm w))) = fs_nodes (w_fs w)"
proof -
  obtain f where f: "same_tree (w_fs w) f"
    "checkLocalPermissions pm w = (let (r, g) = check_entries pm ps f in (r, w\<lparr>w_fs := g\<rparr>))"
    using checkLocalPermissions_start [OF assms(1-5)] by blast
  have nf: "no_probe f" by (rule same_tree_no_probe [OF f(1) assms(2)])
  have l: "may_list pm p" if "p \<in> set ps" "fs_is_directory f p" for p
    using assms(6) that same_tree_facts(2) [OF f(1)] by simp
  obtain g where g: "same_tree f g" "check_entries pm (ps @ []) f =
       (case check_entries pm [] g of (Inl e, h) \<Rightarrow> (Inl e, h)
        | (Inr bad, h) \<Rightarrow> (Inr (filter (\<lambda>p. \<not> accessible pm f p) ps @ bad), h))"
    by (rule check_entries_app [OF nf l])
  then show ?thesis using f(2) same_tree_accessible [OF f(1), of pm] f(1) by (simp add: same_tree_def)
qed

text \<open>A sample: a directory with a file and a directory below it.\<close>

definition sample_tree :: fs where
  "sample_tree =
     \<lparr>fs_nodes = [([], \<lparr>n_dir = True, n_data = [], n_mtime = 0, n_ino = 1\<rparr>),
                  ([''home''], \<lparr>n_dir = True, n_data = [], n_mtime = 0, n_ino = 2\<rparr>),
                  ([''home'', ''a''], \<lparr>n_dir = False, n_data = ''x'', n_mtime = 0, n_ino = 3\<rparr>),
                  ([''home'', ''d''], \<lparr>n_dir = True, n_data = [], n_mtime = 0, n_ino = 4\<rparr>)],
      fs_cwd = [], fs_dev = 1, fs_next_ino = 5, fs_clock = 0\<rparr>"

definition sample_home :: path where
  "sample_home = \<lparr>rooted = True, segs = [''home'']\<rparr>"

definition sample_setup :: "jv msys" where
  "sample_setup = sample_manager\<lparr>w_fs := sample_tree, sm_local_dir := sample_home\<rparr>"

definition home_file :: path where
  "home_file = \<lparr>rooted = True, segs = [''home'', ''a'']\<rparr>"

definition home_subdir :: path where
  "home_subdir = \<lparr>rooted = True, segs = [''home'', ''d'']\<rparr>"

lemma sample_setup_facts:
  "fs_is_directory (w_fs sample_setup) (sm_local_dir sample_setup)" "no_probe (w_fs sample_setup)"
  "fs_recursive (w_fs sample_setup) (sm_local_dir sample_setup) = Inr [home_file, home_subdir]"
  "fs_is_directory (w_fs sample_setup) home_subdir" "\<not> fs_is_directory (w_fs sample_setup) home_file"
  "fs_is_regular_file (w_fs sample_setup) home_file"
  by (simp_all add: sample_setup_def sample_tree_def sample_home_def home_file_def home_subdir_def
      fs_is_directory_def fs_is_regular_file_def fs_node_def fs_key_def no_probe_def probe_name_def
      fs_recursive_def below_def)

theorem permission_check_exact_witness:
  "fst (checkLocalPermissions \<lparr>may_write = (\<lambda>p. p \<noteq> home_file), may_list = (\<lambda>_. True)\<rparr> sample_setup) = Inr [home_file]"
proof -
  have n: "path_div_seg sample_home probe_name \<noteq> home_file" "path_div_seg home_subdir probe_name \<noteq> home_file"
    by (simp_all add: path_div_def path_of_string_def starts_with_def probe_name_def sample_home_def home_subdir_def home_file_def)
  have h: "sm_local_dir sample_setup = sample_home" by (simp add: sample_setup_def)
  show ?thesis
    using permission_check_exact [of sample_setup "\<lparr>may_write = (\<lambda>p. p \<noteq> home_file), may_list = (\<lambda>_. True)\<rparr>",
        OF sample_setup_facts(1,2) _ _ sample_setup_facts(3)] n h
    by (simp add: accessible_def sample_setup_facts)
qed

text \<open>
  A directory that may not be listed, which the check is there to report, crashes it: going
  on from the directory makes the iterator the end iterator, and its path is taken.
\<close>

theorem unlisted_directory_crashes:
  assumes "fs_is_directory (w_fs w) (sm_local_dir w)" and "no_probe (w_fs w)"
    and "may_write pm (path_div_seg (sm_local_dir w) probe_name)" and "may_list pm (sm_local_dir w)"
    and "fs_recursive (w_fs w) (sm_local_dir w) = Inr (ps @ p # qs)"
    and "\<And>p. p \<in> set ps \<Longrightarrow> fs_is_directory (w_fs w) p \<Longrightarrow> may_list pm p"
    and "fs_is_directory (w_fs w) p" and "\<not> may_list pm p"
  shows "fst (checkLocalPermissions pm w) = Inl NullPointer"
proof -
  obtain f where f: "same_tree (w_fs w) f"
    "checkLocalPermissions pm w = (let (r, g) = check_entries pm (ps @ p # qs) f in (r, w\<lparr>w_fs := g\<rparr>))"
    using checkLocalPermissions_start [OF assms(1-5)] by blast
  have nf: "no_probe f" by (rule same_tree_no_probe [OF f(1) assms(2)])
  have l: "may_list pm p" if "p \<in> set ps" "fs_is_directory f p" for p
    using assms(6) that same_tree_facts(2) [OF f(1)] by simp
  obtain g where g: "same_tree f g" "check_entries pm (ps @ p # qs) f =
       (case check_entries pm (p # qs) g of (Inl e, h) \<Rightarrow> (Inl e, h)
        | (Inr bad, h) \<Rightarrow> (Inr (filter (\<lambda>p. \<not> accessible pm f p) ps @ bad), h))"
    by (rule check_entries_app [OF nf l])
  have "fs_is_directory g p" using assms(7) same_tree_facts(2) f(1) g(1) by simp
  then show ?thesis using f(2) g(2) assms(8) by (simp add: Let_def split: prod.split)
qed

theorem unlisted_directory_crashes_witness:
  "fst (checkLocalPermissions \<lparr>may_write = (\<lambda>_. True), may_list = (\<lambda>p. p \<noteq> home_subdir)\<rparr> sample_setup) = Inl NullPointer"
proof -
  have h: "sm_local_dir sample_setup \<noteq> home_subdir" by (simp add: sample_setup_def sample_home_def home_subdir_def)
  show ?thesis
    using unlisted_directory_crashes [of sample_setup "\<lparr>may_write = (\<lambda>_. True), may_list = (\<lambda>p. p \<noteq> home_subdir)\<rparr>"
        "[home_file]" home_subdir "[]", OF sample_setup_facts(1,2)] h
    by (simp add: sample_setup_facts)
qed

subsection \<open>The local directory\<close>

definition clean :: "string list \<Rightarrow> bool" where
  "clean k \<longleftrightarrow> list_all (\<lambda>s. seg_ok s \<and> s \<noteq> ''.'') k"

lemma clean_key: "clean k \<Longrightarrow> fs_key f \<lparr>rooted = True, segs = k\<rparr> = k"
  by (simp add: fs_key_def clean_def list_all_iff seg_ok_def filter_id_conv)

lemma split_sep_parts: "s \<in> set (split_sep t) \<Longrightarrow> CHR ''/'' \<notin> set s"
  by (induction t arbitrary: s) (auto split: if_splits list.splits)

lemma drop_inner_subset: "set (drop_inner_empty ss) \<subseteq> set ss"
  by (induction ss rule: drop_inner_empty.induct) auto

lemma path_parts: "s \<in> set (segs (path_of_string t)) \<Longrightarrow> CHR ''/'' \<notin> set s"
  using drop_inner_subset [of "split_sep t"] split_sep_parts
  by (auto simp: path_of_string_def Let_def split: if_splits)

lemma key_clean: "clean (fs_cwd f) \<Longrightarrow> (\<And>s. s \<in> set (segs p) \<Longrightarrow> CHR ''/'' \<notin> set s) \<Longrightarrow> clean (fs_key f p)"
  by (auto simp: fs_key_def clean_def list_all_iff seg_ok_def Let_def)

lemma create_directory_result:
  assumes "fs_create_directory \<lparr>rooted = True, segs = k\<rparr> f = (Inr b, g)" and "clean k"
  shows "fs_cwd g = fs_cwd f" "map_of (fs_nodes f) j = Some n \<Longrightarrow> map_of (fs_nodes g) j = Some n"
    "\<exists>n. map_of (fs_nodes g) k = Some n \<and> n_dir n"
  using assms(1) clean_key [OF assms(2), of f]
  by (auto simp: fs_create_directory_def Let_def map_add_def split: option.splits if_splits)

lemma make_dirs_result:
  "make_dirs pre ss f = (Inr (), g) \<Longrightarrow> clean (pre @ ss) \<Longrightarrow>
     fs_cwd g = fs_cwd f \<and> (\<forall>j n. map_of (fs_nodes f) j = Some n \<longrightarrow> map_of (fs_nodes g) j = Some n) \<and>
     (ss \<noteq> [] \<longrightarrow> (\<exists>n. map_of (fs_nodes g) (pre @ ss) = Some n \<and> n_dir n))"
proof (induction pre ss f rule: make_dirs.induct)
  case (1 pre f)
  then show ?case by simp
next
  case (2 pre s ss f)
  obtain b f1 where f1: "fs_create_directory \<lparr>rooted = True, segs = pre @ [s]\<rparr> f = (Inr b, f1)"
    and rest: "make_dirs (pre @ [s]) ss f1 = (Inr (), g)"
    using "2.prems"(1) by (auto split: prod.splits sum.splits)
  have "clean (pre @ [s])" using "2.prems"(2) by (simp add: clean_def)
  note c = create_directory_result [OF f1 this]
  have IH: "fs_cwd g = fs_cwd f1 \<and> (\<forall>j n. map_of (fs_nodes f1) j = Some n \<longrightarrow> map_of (fs_nodes g) j = Some n) \<and>
     (ss \<noteq> [] \<longrightarrow> (\<exists>n. map_of (fs_nodes g) ((pre @ [s]) @ ss) = Some n \<and> n_dir n))"
    using "2.IH" [OF f1 [symmetric] refl rest] "2.prems"(2) by simp
  show ?case using IH c by (cases "ss = []") auto
qed

text \<open>The directory \<open>setLocalDir\<close> has settled on, and what it sets.\<close>

lemma setLocalDir_result:
  assumes "setLocalDir t w = (Inr (), w1)" and "clean (fs_cwd (w_fs w))"
  shows "rooted (sm_local_dir w1)" "clean (segs (sm_local_dir w1))" "fs_is_directory (w_fs w1) (sm_local_dir w1)"
    "ls_home w1 = sm_local_dir w1" "sm_has_local w1" "fs_cwd (w_fs w1) = fs_cwd (w_fs w)"
proof -
  let ?in = "path_of_string t"
  obtain a w2 c where a: "fs_absolute (w_fs w) ?in = Inr a"
    and w2: "(if fs_exists (w_fs w) a
              then (if \<not> fs_is_directory (w_fs w) a then throw (RuntimeError (''This is not a directory: '' @ path_string ?in)) w
                    else ret () w)
              else fs_call (fs_create_directories a) w) = (Inr (), w2)"
    and c: "fs_canonical (w_fs w2) a = Inr c"
    and l: "make_local (w2\<lparr>sm_local_dir := c\<rparr>) = (Inr (), w1)"
    using assms(1) by (auto simp: setLocalDir_def andThen_ok fs_query_def Let_def)
  let ?k = "fs_key (w_fs w2) a"
  have part: "s \<in> set (segs a) \<Longrightarrow> CHR ''/'' \<notin> set s" for s
    using a path_parts assms(2)
    by (auto simp: fs_absolute_def clean_def list_all_iff seg_ok_def split: if_splits)
  have k0: "clean (fs_key (w_fs w) a)" by (rule key_clean [OF assms(2) part])
  have dir: "fs_is_directory (w_fs w2) a \<and> fs_cwd (w_fs w2) = fs_cwd (w_fs w)"
  proof (cases "fs_exists (w_fs w) a")
    case True
    then show ?thesis using w2 by (auto split: if_splits)
  next
    case False
    then obtain g where g: "make_dirs [] (fs_key (w_fs w) a) (w_fs w) = (Inr (), g)" "w2 = w\<lparr>w_fs := g\<rparr>"
      using w2 by (auto simp: fs_call_def fs_create_directories_def split: prod.splits)
    note r = make_dirs_result [OF g(1), simplified, OF k0]
    have kk: "fs_key g a = fs_key (w_fs w) a" using r by (intro fs_key_cwd) simp
    show ?thesis
    proof (cases "fs_key (w_fs w) a = []")
      case True
      then have "fs_exists g a" using c g(2) by (simp add: fs_canonical_def split: if_splits)
      moreover have "g = w_fs w" using g(1) True by simp
      ultimately show ?thesis using False by simp
    next
      case F: False
      then show ?thesis using r kk g(2) by (auto simp: fs_is_directory_def fs_node_def)
    qed
  qed
  have cc: "c = \<lparr>rooted = True, segs = ?k\<rparr>" using c by (simp add: fs_canonical_def split: if_splits)
  have kc: "clean ?k" using key_clean [of "w_fs w2" a] dir assms(2) part by simp
  have d: "fs_is_directory (w_fs w2) c"
    using dir by (simp add: fs_is_directory_def fs_node_def cc clean_key [OF kc])
  then have x: "fs_exists (w_fs w2) c" by (auto simp: fs_exists_def fs_is_directory_def split: option.splits)
  have "w1 = w2\<lparr>sm_local_dir := c, ls_home := c, ls_id := 0, ls_events := q_new, ls_changes := q_new,
      ls_expected := Map.empty, ls_on_change := False, sm_has_local := True\<rparr>"
    using l x by (simp add: make_local_def LocalStorage_def fs_query_def fs_canonical_def cc clean_key [OF kc] andThen_def)
  then show "rooted (sm_local_dir w1)" "clean (segs (sm_local_dir w1))" "fs_is_directory (w_fs w1) (sm_local_dir w1)"
    "ls_home w1 = sm_local_dir w1" "sm_has_local w1" "fs_cwd (w_fs w1) = fs_cwd (w_fs w)"
    using cc kc d dir by simp_all
qed

text \<open>
  The local directory survives a restart: when \<open>setLocalDir\<close> has accepted a path, absolute or
  relative, existing or made now, the directory it has settled on exists, is absolute, and is
  the one of the local storage; and its text, which the initial synchronisation stores, is
  accepted at the next start and gives the same directory with nothing new made.
\<close>

theorem local_dir_restored:
  assumes "setLocalDir t w = (Inr (), w1)" and "clean (fs_cwd (w_fs w))"
  shows "fs_is_directory (w_fs w1) (sm_local_dir w1) \<and> rooted (sm_local_dir w1) \<and> ls_home w1 = sm_local_dir w1 \<and>
    (let (r, w2) = setLocalDir (path_string (sm_local_dir w1)) w1
     in r = Inr () \<and> sm_local_dir w2 = sm_local_dir w1 \<and> w_fs w2 = w_fs w1 \<and> ls_home w2 = sm_local_dir w1)"
proof -
  let ?d = "sm_local_dir w1"
  note r = setLocalDir_result [OF assms]
  have pp: "plain_path ?d" using r(2) by (auto simp: plain_path_def clean_def list_all_iff)
  have k: "fs_key (w_fs w1) ?d = segs ?d" using clean_key [OF r(2)] r(1) by (cases ?d) simp
  have x: "fs_exists (w_fs w1) ?d" using r(3) by (auto simp: fs_exists_def fs_is_directory_def split: option.splits)
  have c: "fs_canonical (w_fs w1) ?d = Inr ?d" using x k r(1) by (cases ?d) (simp add: fs_canonical_def)
  have ab: "fs_absolute (w_fs w1) ?d = Inr ?d" using r(1) by (auto simp: fs_absolute_def)
  show ?thesis using r x c ab
    by (simp add: setLocalDir_def path_string_roundtrip [OF pp] fs_query_def make_local_def LocalStorage_def andThen_def Let_def)
qed

theorem local_dir_restored_witness:
  "sm_local_dir (snd (setLocalDir ''/home/new'' sample_setup)) = \<lparr>rooted = True, segs = [''home'', ''new'']\<rparr> \<and>
   fs_is_directory (w_fs (snd (setLocalDir ''/home/new'' sample_setup))) \<lparr>rooted = True, segs = [''home'', ''new'']\<rparr>"
proof -
  obtain w1 where w1: "setLocalDir ''/home/new'' sample_setup = (Inr (), w1)"
    "sm_local_dir w1 = \<lparr>rooted = True, segs = [''home'', ''new'']\<rparr>"
    by (simp add: setLocalDir_def sample_setup_def sample_tree_def path_of_string_def starts_with_def fs_absolute_def
        fs_query_def fs_exists_def fs_node_def fs_key_def fs_call_def fs_create_directories_def fs_create_directory_def
        fs_canonical_def make_local_def LocalStorage_def andThen_def Let_def)
  have "clean (fs_cwd (w_fs sample_setup))" by (simp add: sample_setup_def sample_tree_def clean_def)
  from local_dir_restored [OF w1(1) this] show ?thesis using w1 by simp
qed

subsection \<open>Connecting a cloud\<close>

definition gd_settings :: "'j google \<Rightarrow> int \<times> path \<times> path \<times> string" where
  "gd_settings g = (gd_id g, gd_home g, gd_local_home g, gd_page_token g)"

definition dx_settings :: "dropbox \<Rightarrow> int \<times> path \<times> path \<times> string" where
  "dx_settings g = (dx_id g, dx_home g, dx_local_home g, dx_page_token g)"

text \<open>Connecting cloud \<open>i\<close> touches no other cloud, and not the settings of this one.\<close>

definition connecting :: "int \<Rightarrow> ('j, 's) csys_scheme \<Rightarrow> ('j, 's) csys_scheme \<Rightarrow> bool" where
  "connecting i w w1 \<longleftrightarrow>
     csys.more w1 = csys.more w \<and> sm_clouds w1 = sm_clouds w \<and> w_db w1 = w_db w \<and> w_fs w1 = w_fs w \<and>
     (\<forall>j. j \<noteq> i \<longrightarrow> w_google w1 j = w_google w j \<and> w_dropbox w1 j = w_dropbox w j) \<and>
     gd_settings (w_google w1 i) = gd_settings (w_google w i) \<and>
     dx_settings (w_dropbox w1 i) = dx_settings (w_dropbox w i)"

interpretation cn: step_rel "connecting i"
  by unfold_locales (auto simp: connecting_def)

lemma connecting_upd:
  "(\<And>g. gd_settings (f g) = gd_settings g) \<Longrightarrow> connecting i w (snd (upd_google i f w))"
  "(\<And>g. dx_settings (k g) = dx_settings g) \<Longrightarrow> connecting i w (snd (upd_dropbox i k w))"
  by (simp_all add: connecting_def upd_google_def upd_dropbox_def)

lemma connecting_ask: "connecting i w (snd (http_sync h w))" "connecting i w (snd (ask J h w))"
proof -
  show s: "connecting i w (snd (http_sync h w))" for h
    by (simp add: http_sync_def connecting_def split: prod.split)
  show "connecting i w (snd (ask J h w))"
    unfolding ask_def by (auto intro!: cn.R_andThen s cn.R_basic simp del: act_simps)
qed

lemmas cn_parts = cn.R_andThen cn.R_refl cn.R_basic connecting_upd connecting_ask

lemma auth_connecting:
  "connecting i w (snd (gd_proccessAuth J i r w))" "connecting i w (snd (dx_proccessAuth J i r w))"
  unfolding gd_proccessAuth_def dx_proccessAuth_def
  by (auto intro!: cn_parts simp: gd_settings_def dx_settings_def simp del: act_simps andThen_basic)

lemma gd_root_connecting:
  fixes w :: "('a, 'b) csys_scheme"
  shows "connecting i w (snd (gd_root_loop J g fa pid h ss w))"
proof -
  have m: "connecting i w (snd (gd_make_root J g name pid h w))" "connecting i w (snd (gd_find_folder J g q f h w))"
    for name pid h q f and w :: "('a, 'b) csys_scheme"
    unfolding gd_make_root_def gd_find_folder_def Let_def by (auto intro!: cn_parts simp del: act_simps andThen_basic)
  show ?thesis
  proof (induction ss arbitrary: fa pid h w)
    case (Cons name ss)
    show ?case
      by (auto intro!: cn_parts m Cons simp: Let_def simp del: act_simps andThen_basic split: option.split)
  qed (simp add: cn.R_refl)
qed

lemma connect_connecting:
  "connecting i w (snd (andThen (gd_refreshAccessToken J i) (\<lambda>_. gd_ensureRootExists J i) w))"
  "connecting i w (snd (andThen (dx_refreshAccessToken J i) (\<lambda>_. dx_ensureRootExists J i) w))"
proof -
  have g: "connecting i w (snd (gd_refreshAccessToken J i w))" "connecting i w (snd (gd_ensureRootExists J i w))"
    "connecting i w (snd (dx_refreshAccessToken J i w))" "connecting i w (snd (dx_ensureRootExists J i w))" for w
    unfolding gd_refreshAccessToken_def gd_ensureRootExists_def dx_refreshAccessToken_def dx_ensureRootExists_def Let_def
    by (auto intro!: cn_parts auth_connecting gd_root_connecting simp: gd_settings_def simp del: act_simps andThen_basic)
  show "connecting i w (snd (andThen (gd_refreshAccessToken J i) (\<lambda>_. gd_ensureRootExists J i) w))"
    "connecting i w (snd (andThen (dx_refreshAccessToken J i) (\<lambda>_. dx_ensureRootExists J i) w))"
    by (auto intro!: cn.R_andThen g)
qed

subsection \<open>The clouds of the database\<close>

text \<open>A row of \<open>cloud_configs\<close> has become a storage with its settings.\<close>

definition cloud_ready :: "'j lib \<Rightarrow> int \<times> string \<times> 'j \<Rightarrow> ('j, 's) msys_scheme \<Rightarrow> bool" where
  "cloud_ready J row w \<longleftrightarrow>
     (case row of (i, ty, data) \<Rightarrow>
        \<exists>t dir token. cloud_type_from_string ty = Inr t \<and> sm_kinds w i = Some t \<and>
          js_text_at J data ''dir'' = Inr dir \<and> js_text_at J data ''start_page_token'' = Inr token \<and>
          (t = GoogleDriveT \<and> gd_settings (w_google w i) = (i, path_of_string dir, sm_local_dir w, token) \<or>
           t = DropboxT \<and> dx_settings (w_dropbox w i) = (i, path_of_string dir, sm_local_dir w, token)))"

lemma create_connected_result:
  assumes "create_connected J ty a b c home ldir i token w = (Inr (), w1)"
  shows "csys.more w1 = csys.more w" "sm_clouds w1 = sm_clouds w" "w_db w1 = w_db w" "w_fs w1 = w_fs w"
    "j \<noteq> i \<Longrightarrow> w_google w1 j = w_google w j \<and> w_dropbox w1 j = w_dropbox w j"
    "ty = GoogleDriveT \<and> gd_settings (w_google w1 i) = (i, home, ldir, token) \<or>
     ty = DropboxT \<and> dx_settings (w_dropbox w1 i) = (i, home, ldir, token)"
proof -
  have t: "ty = GoogleDriveT \<or> ty = DropboxT"
    using assms by (auto simp: create_connected_def split: cloud_provider_type.splits)
  let ?g = "google_new a b c home ldir i token" and ?x = "dropbox_new a b c home ldir i token"
  let ?wg = "w\<lparr>w_google := (w_google w)(i := ?g)\<rparr>" and ?wx = "w\<lparr>w_dropbox := (w_dropbox w)(i := ?x)\<rparr>"
  have "ty = GoogleDriveT \<and> connecting i ?wg w1 \<or> ty = DropboxT \<and> connecting i ?wx w1"
    using t
  proof
    assume "ty = GoogleDriveT"
    then have "andThen (gd_refreshAccessToken J i) (\<lambda>_. gd_ensureRootExists J i) ?wg = (Inr (), w1)"
      using assms by (simp add: create_connected_def gd_connect_def upd_google_def)
    then show ?thesis using connect_connecting(1) [of i ?wg J] \<open>ty = GoogleDriveT\<close> by simp
  next
    assume "ty = DropboxT"
    then have "andThen (dx_refreshAccessToken J i) (\<lambda>_. dx_ensureRootExists J i) ?wx = (Inr (), w1)"
      using assms by (simp add: create_connected_def dx_connect_def upd_dropbox_def)
    then show ?thesis using connect_connecting(2) [of i ?wx J] \<open>ty = DropboxT\<close> by simp
  qed
  then show "csys.more w1 = csys.more w" "sm_clouds w1 = sm_clouds w" "w_db w1 = w_db w" "w_fs w1 = w_fs w"
    "j \<noteq> i \<Longrightarrow> w_google w1 j = w_google w j \<and> w_dropbox w1 j = w_dropbox w j"
    "ty = GoogleDriveT \<and> gd_settings (w_google w1 i) = (i, home, ldir, token) \<or>
     ty = DropboxT \<and> dx_settings (w_dropbox w1 i) = (i, home, ldir, token)"
    by (auto simp: connecting_def gd_settings_def dx_settings_def google_new_def dropbox_new_def)
qed

lemma more_fields:
  assumes "csys.more w1 = csys.more (w :: ('j, 's) msys_scheme)"
  shows "sm_kinds w1 = sm_kinds w" "sm_local_dir w1 = sm_local_dir w" "sm_has_local w1 = sm_has_local w"
  using assms by (cases w; cases w1; simp)+

lemma setup_cloud_result:
  assumes "setup_cloud J (i, ty, data) w = (Inr (), w1)" and "i \<notin> set (sm_clouds w)"
  shows "sm_clouds w1 = sm_clouds w @ [i] \<and> sm_local_dir w1 = sm_local_dir w \<and> cloud_ready J (i, ty, data) w1 \<and>
    (\<forall>j. j \<noteq> i \<longrightarrow> sm_kinds w1 j = sm_kinds w j \<and> w_google w1 j = w_google w j \<and> w_dropbox w1 j = w_dropbox w j)"
proof -
  obtain t dir a b c token w2 where t: "cloud_type_from_string ty = Inr t" "js_text_at J data ''dir'' = Inr dir"
      "js_text_at J data ''start_page_token'' = Inr token"
    and c: "create_connected J t a b c (path_of_string dir) (sm_local_dir w) i token w = (Inr (), w2)"
    and e: "emplace_cloud i t w2 = (Inr (), w1)"
    using assms(1) by (auto simp: setup_cloud_def andThen_ok)
  note r = create_connected_result(1,2,3,5,6) [OF c]
  have w1: "w1 = w2\<lparr>sm_clouds := sm_clouds w2 @ [i], sm_kinds := (sm_kinds w2)(i := Some t)\<rparr>"
    using e r(2) assms(2) by (simp add: emplace_cloud_def)
  show ?thesis using r(2,4,5) more_fields [OF r(1)] t by (auto simp: w1 cloud_ready_def)
qed

lemma cloud_ready_same:
  "cloud_ready J row w \<Longrightarrow> sm_kinds w1 (fst row) = sm_kinds w (fst row) \<Longrightarrow> sm_local_dir w1 = sm_local_dir w \<Longrightarrow>
   gd_settings (w_google w1 (fst row)) = gd_settings (w_google w (fst row)) \<Longrightarrow>
   dx_settings (w_dropbox w1 (fst row)) = dx_settings (w_dropbox w (fst row)) \<Longrightarrow> cloud_ready J row w1"
  by (auto simp: cloud_ready_def split: prod.splits)

lemma setup_all:
  assumes "for_each (setup_cloud J) rows w = (Inr us, w1)" and "distinct (map fst rows)"
    and "set (map fst rows) \<inter> set (sm_clouds w) = {}"
  shows "sm_clouds w1 = sm_clouds w @ map fst rows \<and> sm_local_dir w1 = sm_local_dir w \<and>
    list_all (\<lambda>row. cloud_ready J row w1) rows \<and>
    (\<forall>j. j \<notin> set (map fst rows) \<longrightarrow> sm_kinds w1 j = sm_kinds w j \<and> w_google w1 j = w_google w j \<and> w_dropbox w1 j = w_dropbox w j)"
  using assms
proof (induction rows arbitrary: w us)
  case Nil
  then show ?case by simp
next
  case (Cons row rows)
  obtain i ty data where row: "row = (i, ty, data)" by (cases row) auto
  obtain w2 us2 where s: "setup_cloud J (i, ty, data) w = (Inr (), w2)" and rest: "for_each (setup_cloud J) rows w2 = (Inr us2, w1)"
    using Cons.prems(1) row by (auto simp: andThen_ok)
  have r: "sm_clouds w2 = sm_clouds w @ [i] \<and> sm_local_dir w2 = sm_local_dir w \<and> cloud_ready J (i, ty, data) w2 \<and>
    (\<forall>j. j \<noteq> i \<longrightarrow> sm_kinds w2 j = sm_kinds w j \<and> w_google w2 j = w_google w j \<and> w_dropbox w2 j = w_dropbox w j)"
    using setup_cloud_result [OF s] Cons.prems(3) row by simp
  have IH: "sm_clouds w1 = sm_clouds w2 @ map fst rows \<and> sm_local_dir w1 = sm_local_dir w2 \<and>
    list_all (\<lambda>row. cloud_ready J row w1) rows \<and>
    (\<forall>j. j \<notin> set (map fst rows) \<longrightarrow> sm_kinds w1 j = sm_kinds w2 j \<and> w_google w1 j = w_google w2 j \<and> w_dropbox w1 j = w_dropbox w2 j)"
    using Cons.IH [OF rest] Cons.prems(2,3) r row by auto
  have "i \<notin> set (map fst rows)" using Cons.prems(2) row by simp
  then have same: "sm_kinds w1 i = sm_kinds w2 i" "w_google w1 i = w_google w2 i" "w_dropbox w1 i = w_dropbox w2 i"
    using IH by blast+
  have ready: "cloud_ready J (i, ty, data) w1"
  proof (rule cloud_ready_same)
    show "cloud_ready J (i, ty, data) w2" using r by blast
    show "sm_local_dir w1 = sm_local_dir w2" using IH by blast
  qed (simp_all only: same fst_conv)
  have others: "sm_kinds w1 j = sm_kinds w j \<and> w_google w1 j = w_google w j \<and> w_dropbox w1 j = w_dropbox w j"
    if "j \<noteq> i" "j \<notin> set (map fst rows)" for j
    using IH r that by metis
  have "sm_clouds w1 = sm_clouds w @ i # map fst rows" "sm_local_dir w1 = sm_local_dir w"
    "list_all (\<lambda>row. cloud_ready J row w1) rows" using IH r by simp_all
  then show ?case using ready others row by simp
qed

lemma make_local_frame:
  "make_local w = (Inr (), w1) \<Longrightarrow> sm_clouds w1 = sm_clouds w \<and> sm_num_clouds w1 = sm_num_clouds w \<and>
     sm_local_dir w1 = sm_local_dir w \<and> sm_kinds w1 = sm_kinds w \<and> w_google w1 = w_google w \<and> w_dropbox w1 = w_dropbox w"
  by (auto simp: make_local_def LocalStorage_def andThen_ok fs_query_def)

lemma setLocalDir_frame: "setLocalDir t w = (Inr (), w1) \<Longrightarrow> sm_clouds w1 = sm_clouds w"
  by (auto simp: setLocalDir_def andThen_ok fs_query_def fs_call_def Let_def split: if_splits prod.splits
      dest!: make_local_frame)

lemma setupClouds_result:
  assumes "setupClouds J w = (Inr (), w1)" and "sm_clouds w = []"
    and "fst (get_clouds (js_parse J) (w_rc w (w_calls w)) (w_db w)) = Inr rows" and "distinct (map fst rows)"
  shows "sm_clouds w1 = map fst rows" "sm_num_clouds w1 = int (length rows)" "list_all (\<lambda>row. cloud_ready J row w1) rows"
proof -
  obtain w2 dir w3 w4 us w5 where w2: "db_call (get_clouds (js_parse J)) w = (Inr rows, w2)"
    and w3: "db_call getLocalDir w2 = (Inr dir, w3)" and w4: "setLocalDir dir w3 = (Inr (), w4)"
    and w5: "for_each (setup_cloud J) rows w4 = (Inr us, w5)"
    and w1: "make_local (w5\<lparr>sm_num_clouds := int (length (sm_clouds w5))\<rparr>) = (Inr (), w1)"
    using assms(1,3) by (auto simp: setupClouds_def andThen_ok set_num_clouds_def db_call_def split: prod.splits)
  have "sm_clouds w4 = []"
    using setLocalDir_frame [OF w4] w2 w3 assms(2) by (auto simp: db_call_def split: prod.splits)
  then have a: "sm_clouds w5 = map fst rows" "list_all (\<lambda>row. cloud_ready J row w5) rows"
    using setup_all [OF w5 assms(4)] by simp_all
  note f = make_local_frame [OF w1]
  show "sm_clouds w1 = map fst rows" "sm_num_clouds w1 = int (length rows)" using f a(1) by simp_all
  have "cloud_ready J row w1" if "cloud_ready J row w5" for row
    by (rule cloud_ready_same [OF that]) (use f in simp_all)
  then show "list_all (\<lambda>row. cloud_ready J row w1) rows" using a(2) by (simp add: list_all_iff)
qed

definition same_settings :: "('j, 's) msys_scheme \<Rightarrow> ('j, 's) msys_scheme \<Rightarrow> bool" where
  "same_settings w w1 \<longleftrightarrow>
     sm_clouds w1 = sm_clouds w \<and> sm_num_clouds w1 = sm_num_clouds w \<and> sm_local_dir w1 = sm_local_dir w \<and>
     sm_kinds w1 = sm_kinds w \<and> (\<forall>j. gd_settings (w_google w1 j) = gd_settings (w_google w j)) \<and>
     (\<forall>j. dx_settings (w_dropbox w1 j) = dx_settings (w_dropbox w j))"

interpretation ss: step_rel same_settings
  by unfold_locales (auto simp: same_settings_def)

lemma set_on_change_settings: "same_settings w (snd (set_on_change i w))"
  by (auto simp: set_on_change_def same_settings_def gd_setOnChange_def dx_setOnChange_def upd_google_def upd_dropbox_def
      gd_settings_def dx_settings_def split: option.splits cloud_provider_type.splits)


text \<open>A database with one Dropbox account, its configuration being the given value.\<close>

definition sample_stored :: "jv msys" where
  "sample_stored = sample_setup
     \<lparr>w_db := conn_open (sample_tables\<lparr>t_metadata := [(''local_dir'', ''/home'')],
                t_clouds := [\<lparr>c_config_id = 1, c_name = ''d'', c_type = ''Dropbox'', c_data = ''cfg''\<rparr>]\<rparr>),
      w_answers := answers_of [''tok'', []], sm_clouds := []\<rparr>"

definition sample_account :: "(string \<times> jv) list \<Rightarrow> jv" where
  "sample_account extra = JObj ([(''dir'', JText ''/S''), (''client_id'', JText ''c''), (''client_secret'', JText ''s''),
     (''refresh_token'', JText ''r'')] @ extra)"

definition sample_texts :: "(string \<times> jv) list \<Rightarrow> jv lib" where
  "sample_texts extra = table_lib
     [(''cfg'', sample_account extra), (''tok'', JObj [(''access_token'', JText ''t''), (''expires_in'', JNum 5)])]"

lemma sample_rows:
  "get_clouds (js_parse (sample_texts extra)) (w_rc sample_stored (w_calls sample_stored)) (w_db sample_stored) =
     (Inr [(1, ''Dropbox'', sample_account extra)], w_db sample_stored)"
  by (simp add: get_clouds_def sample_stored_def sample_setup_def sample_manager_def sample_daemon_def csys.defs
      sample_texts_def table_lib_def conn_open_def sql_defs narrow_int_id)

lemma sample_local:
  assumes "w_fs w = sample_tree"
  shows "setLocalDir ''/home'' w =
    (Inr (), w\<lparr>sm_local_dir := sample_home, ls_home := sample_home, ls_id := 0, ls_events := q_new, ls_changes := q_new,
       ls_expected := Map.empty, ls_on_change := False, sm_has_local := True\<rparr>)"
  using assms by (simp add: setLocalDir_def sample_tree_def sample_home_def path_of_string_def starts_with_def fs_absolute_def
      fs_query_def fs_exists_def fs_is_directory_def fs_node_def fs_key_def fs_canonical_def make_local_def LocalStorage_def
      andThen_def Let_def)

lemma sample_start:
  "\<exists>v. db_call (get_clouds (js_parse (sample_texts extra))) sample_stored = (Inr [(1, ''Dropbox'', sample_account extra)], v) \<and>
     (\<exists>v1. db_call getLocalDir v = (Inr ''/home'', v1) \<and> w_fs v1 = sample_tree \<and> sm_clouds v1 = [] \<and>
        w_answers v1 = answers_of [''tok'', []] \<and> w_requests v1 = 0 \<and> w_h0 v1 = RequestHandle True [])"
  using sample_rows [of extra]
  by (simp add: db_call_def getLocalDir_def run_query_def sql_defs sample_stored_def sample_setup_def sample_manager_def
      sample_daemon_def csys.defs conn_open_def)

lemma sample_connect:
  assumes "w_answers w = answers_of [''tok'', []]" "w_requests w = 0" "w_h0 w = RequestHandle True []"
  shows "\<exists>w1. create_connected (sample_texts extra) DropboxT a b c home ldir 1 t w = (Inr (), w1)"
  using assms
  by (simp add: create_connected_def dx_connect_def upd_dropbox_def dx_refreshAccessToken_def dx_ensureRootExists_def
      dx_token_request_def Let_def andThen_def http_sync_once settled_def classify_def answers_of_def ok_answer_def
      dx_proccessAuth_def sample_texts_def table_lib_def js_text_at_def retry_code_def RequestHandle_def
      setCommonCURLOpt_def setopt_def addHeaders_def)


text \<open>
  Without a finished initial synchronisation the daemon does not get as far as saying so: a
  registered cloud has no start token yet, and setting the clouds up, which comes first, throws
  over it.
\<close>

theorem daemon_needs_start_token:
  assumes "db_call (get_clouds (js_parse (pg_lib P))) w = (Inr ((i, ty, data) # rows), w2)"
    and "db_call getLocalDir w2 = (Inr dir, w3)" and "setLocalDir dir w3 = (Inr (), w4)"
    and "cloud_type_from_string ty = Inr t" and "js_text_at (pg_lib P) data ''dir'' = Inr home"
    and "js_text_at (pg_lib P) data ''client_id'' = Inr a" and "js_text_at (pg_lib P) data ''client_secret'' = Inr b"
    and "js_text_at (pg_lib P) data ''refresh_token'' = Inr c"
    and "js_text_at (pg_lib P) data ''start_page_token'' = Inl e"
  shows "sm_run P R sched DaemonMode w = (Inl e, w4)"
  using assms by (simp add: sm_run_def sm_init_def setupClouds_def setup_cloud_def andThen_def)

theorem daemon_needs_start_token_witness:
  "fst (sm_run (sample_program\<lparr>pg_lib := sample_texts []\<rparr>) any_order (\<lambda>_. []) DaemonMode sample_stored) =
     Inl (JsonError ''type_error 302'')"
proof -
  let ?J = "sample_texts []"
  obtain v v1 where v: "db_call (get_clouds (js_parse ?J)) sample_stored = (Inr [(1, ''Dropbox'', sample_account [])], v)"
      "db_call getLocalDir v = (Inr ''/home'', v1)" and v1: "w_fs v1 = sample_tree"
    using sample_start [of "[]"] by blast
  note l = sample_local [OF v1]
  have t: "js_text_at ?J (sample_account []) k = Inr x" if "(k, x) \<in>
      {(''dir'', ''/S''), (''client_id'', ''c''), (''client_secret'', ''s''), (''refresh_token'', ''r'')}" for k x
    using that by (auto simp: sample_account_def sample_texts_def table_lib_def js_text_at_def)
  have e: "js_text_at ?J (sample_account []) ''start_page_token'' = Inl (JsonError ''type_error 302'')"
    by (simp add: sample_account_def sample_texts_def table_lib_def js_text_at_def)
  have "cloud_type_from_string ''Dropbox'' = Inr DropboxT" by (simp add: cloud_type_from_string_def provider_table_def)
  from daemon_needs_start_token [where P = "sample_program\<lparr>pg_lib := ?J\<rparr>" and R = any_order and sched = "\<lambda>_. []",
      simplified, OF v(1,2) l this t t t t e]
  show ?thesis by simp
qed

end
