(* ===== verification/Wizard.thy ===== *)
theory Wizard
  imports FirstSync "HOL-Library.Char_ord" "HOL-Library.List_Lexorder"
begin

text \<open>
  \<open>src/main.cpp\<close> and \<open>include/cloud-registry.h\<close>: where the data of a configuration lies, the
  dialogue that configures the program, the command line, and stopping the daemon. The prompts
  that are printed are left out, the POSIX branch of the conditional compilation is taken, and
  logging is off.
\<close>

subsection \<open>Standard input\<close>

text \<open>
  What is left to read, and whether the stream has failed. A failed stream reads nothing and
  stays failed. An \<open>int\<close> that is read from it keeps what it was, here the value \<open>u\<close> of an
  uninitialised variable; text that is no number makes it zero.
\<close>

record stdin =
  in_rest :: string
  in_fail :: bool

definition is_space :: "char \<Rightarrow> bool" where
  "is_space c \<longleftrightarrow> c \<in> {CHR '' '', CHR 0x09, CHR 0x0A, CHR 0x0B, CHR 0x0C, CHR 0x0D}"

definition int_max :: int where
  "int_max = 2147483647"

text \<open>\<open>cin >> n\<close> for an \<open>int\<close>, which is 32 bits wide: beyond the range it is the bound, and a failure.\<close>

definition read_int :: "int \<Rightarrow> stdin \<Rightarrow> int \<times> stdin" where
  "read_int u i =
     (let r = dropWhile is_space (in_rest i)
      in if in_fail i \<or> r = [] then (u, i\<lparr>in_rest := if in_fail i then in_rest i else [], in_fail := True\<rparr>)
         else
           (let neg = (hd r = CHR ''-''); r1 = (if hd r = CHR ''-'' \<or> hd r = CHR ''+'' then tl r else r);
                ds = takeWhile is_digit r1; r2 = dropWhile is_digit r1;
                n = (if neg then - digits_val ds else digits_val ds)
            in if ds = [] then (0, \<lparr>in_rest = r2, in_fail = True\<rparr>)
               else if int_max < n then (int_max, \<lparr>in_rest = r2, in_fail = True\<rparr>)
               else if n < - int_max - 1 then (- int_max - 1, \<lparr>in_rest = r2, in_fail = True\<rparr>)
               else (n, \<lparr>in_rest = r2, in_fail = False\<rparr>)))"

text \<open>\<open>cin >> s\<close> for a new string.\<close>

definition read_word :: "stdin \<Rightarrow> string \<times> stdin" where
  "read_word i =
     (let r = dropWhile is_space (in_rest i)
      in if in_fail i \<or> r = [] then ([], i\<lparr>in_fail := True\<rparr>)
         else (takeWhile (\<lambda>c. \<not> is_space c) r, i\<lparr>in_rest := dropWhile (\<lambda>c. \<not> is_space c) r\<rparr>))"

text \<open>\<open>readLine\<close>: white space is skipped, line ends included, then the rest of the line is taken.\<close>

definition readLine :: "stdin \<Rightarrow> string \<times> stdin" where
  "readLine i =
     (let r = dropWhile is_space (in_rest i)
      in if in_fail i \<or> r = [] then ([], i\<lparr>in_fail := True\<rparr>)
         else (takeWhile (\<lambda>c. c \<noteq> CHR 0x0A) r, i\<lparr>in_rest := tl (dropWhile (\<lambda>c. c \<noteq> CHR 0x0A) r)\<rparr>))"

definition tolower :: "char \<Rightarrow> char" where
  "tolower c = (if CHR ''A'' \<le> c \<and> c \<le> CHR ''Z'' then char_of (of_char c + 32 :: nat) else c)"

text \<open>
  \<open>askYesNo\<close> reads characters until one is a y or an n; what follows stays in the stream. On a
  stream that has failed it asks for ever, which is \<open>None\<close>.
\<close>

fun answer_in :: "string \<Rightarrow> (bool \<times> string) option" where
  "answer_in [] = None"
| "answer_in (c # r) =
     (if \<not> is_space c \<and> tolower c \<in> {CHR ''y'', CHR ''n''} then Some (tolower c = CHR ''y'', r) else answer_in r)"

definition askYesNo :: "stdin \<Rightarrow> (bool \<times> stdin) option" where
  "askYesNo i =
     (if in_fail i then None else map_option (\<lambda>(b, r). (b, i\<lparr>in_rest := r\<rparr>)) (answer_in (in_rest i)))"

lemma answer_in_shorter: "answer_in s = Some (b, r) \<Longrightarrow> length r < length s"
  by (induction s) (auto split: if_splits)

lemma askYesNo_shorter: "askYesNo i = Some (b, i1) \<Longrightarrow> length (in_rest i1) < length (in_rest i)"
  by (auto simp: askYesNo_def dest: answer_in_shorter split: if_splits)

lemma drop_le: "length (dropWhile P xs) \<le> length xs"
  by (rule length_dropWhile_le)

lemma readLine_shorter: "length (in_rest (snd (readLine i))) \<le> length (in_rest i)"
proof -
  let ?r = "dropWhile is_space (in_rest i)"
  have "length (tl (dropWhile (\<lambda>c. c \<noteq> CHR 0x0A) ?r)) \<le> length (in_rest i)"
    using drop_le [of is_space "in_rest i"] drop_le [of "\<lambda>c. c \<noteq> CHR 0x0A" ?r] by simp
  then show ?thesis by (simp add: readLine_def Let_def)
qed

lemma read_int_shorter: "length (in_rest (snd (read_int u i))) \<le> length (in_rest i)"
proof -
  let ?r = "dropWhile is_space (in_rest i)"
  have "length (dropWhile is_digit (tl ?r)) \<le> length (in_rest i)" "length (dropWhile is_digit ?r) \<le> length (in_rest i)"
    using drop_le [of is_space "in_rest i"] drop_le [of is_digit "tl ?r"] drop_le [of is_digit ?r] by auto
  then show ?thesis by (simp add: read_int_def Let_def)
qed

subsection \<open>Where the data lies\<close>

text \<open>
  What the program finds outside: the environment, permissions, what an uninitialised variable
  holds, the contents of the database files (empty tables for a new one), the iteration order
  of the registry, the answers to \<open>kill\<close> for the process of the pid file, the return codes of
  opening a database and of going to the background, and the id of the process.
\<close>

record host =
  ho_env :: "string \<Rightarrow> string option"
  ho_perms :: perms
  ho_uninit :: int
  ho_db :: "path \<Rightarrow> tables"
  ho_order :: "string list \<Rightarrow> string list"
  ho_alive :: "nat \<Rightarrow> bool"
  ho_term :: bool
  ho_open :: "path \<Rightarrow> open_rc"
  ho_fork :: bool
  ho_setsid :: bool
  ho_refork :: bool
  ho_chdir :: bool
  ho_pid :: int

definition getenv_nonempty :: "host \<Rightarrow> string \<Rightarrow> string option" where
  "getenv_nonempty H name = (case ho_env H name of Some s \<Rightarrow> (if s = [] then None else Some s) | None \<Rightarrow> None)"

definition sub_dir :: "path \<Rightarrow> string \<Rightarrow> path" where
  "sub_dir p s = path_div p (path_of_string s)"

definition getBaseDataDir :: "host \<Rightarrow> fs \<Rightarrow> path" where
  "getBaseDataDir H f =
     (case getenv_nonempty H ''SYNCHARBOR_DATA_DIR'' of
        Some env \<Rightarrow> path_of_string env
      | None \<Rightarrow>
          (case getenv_nonempty H ''XDG_DATA_HOME'' of
             Some xdg \<Rightarrow> sub_dir (path_of_string xdg) ''syncharbor''
           | None \<Rightarrow>
               (case getenv_nonempty H ''HOME'' of
                  Some home \<Rightarrow> sub_dir (sub_dir (sub_dir (path_of_string home) ''.local'') ''share'') ''syncharbor''
                | None \<Rightarrow> sub_dir \<lparr>rooted = True, segs = fs_cwd f\<rparr> ''.syncharbor'')))"

definition getDataDirForConfig :: "host \<Rightarrow> fs \<Rightarrow> string \<Rightarrow> path" where
  "getDataDirForConfig H f config_name = sub_dir (getBaseDataDir H f) config_name"

text \<open>The directories directly in the base directory, sorted by their names.\<close>

definition listConfigs :: "host \<Rightarrow> fs \<Rightarrow> string list res" where
  "listConfigs H f =
     (let base = getBaseDataDir H f; k = fs_key f base
      in if \<not> fs_exists f base then Inr []
         else if \<not> fs_is_directory f base then Inl (FilesystemError ''directory iterator cannot open directory'')
         else Inr (sort (map (\<lambda>e. last (fst e))
                (filter (\<lambda>e. below k (fst e) \<and> length (fst e) = Suc (length k) \<and> n_dir (snd e)) (fs_nodes f)))))"

subsection \<open>The dialogue\<close>

text \<open>Choosing a configuration by its number, or naming a new one.\<close>

definition chooseOrCreateConfig :: "host \<Rightarrow> fs \<Rightarrow> stdin \<Rightarrow> (string \<times> stdin) res" where
  "chooseOrCreateConfig H f i =
     res_bind (listConfigs H f)
       (\<lambda>configs. if configs = [] then Inr (read_word i)
          else (let (choice, i1) = read_int (ho_uninit H) i
                in if \<not> in_fail i1 \<and> 0 < choice \<and> choice \<le> int (length configs)
                   then Inr (configs ! nat (choice - 1), i1)
                   else Inr (read_word i1)))"

text \<open>The handlers catch what derives from \<open>std::exception\<close>; the others end the program or hang.\<close>

definition caught :: "exn \<Rightarrow> bool" where
  "caught e \<longleftrightarrow> e \<notin> {NullPointer, SelfDeadlock, Diverges, UndefinedFormat}"

text \<open>\<open>None\<close> for the input: the user gave up and the program has ended with the code 1.\<close>

function configureLocalDirectory ::
  "host \<Rightarrow> stdin \<Rightarrow> ('j, 's) msys_scheme \<Rightarrow> stdin option res \<times> ('j, 's) msys_scheme" where
  "configureLocalDirectory H i w =
     (let (local, i1) = readLine i
      in case andThen (setLocalDir local) (\<lambda>_. checkLocalPermissions (ho_perms H)) w of
           (Inr bad, w1) \<Rightarrow> (Inr (Some i1), w1)
         | (Inl e, w1) \<Rightarrow>
             if \<not> caught e then (Inl e, w1)
             else (case askYesNo i1 of
                     None \<Rightarrow> (Inl Diverges, w1)
                   | Some (again, i2) \<Rightarrow> if again then configureLocalDirectory H i2 w1 else (Inr None, w1)))"
  by pat_completeness auto
termination
  by (relation "measure (\<lambda>(H, i, w). length (in_rest i))")
     (auto dest!: askYesNo_shorter, metis (no_types) le_less_trans less_le_trans readLine_shorter snd_conv)

declare configureLocalDirectory.simps [simp del]

text \<open>\<open>CloudRegistry\<close>: the class of a provider and the credentials the program brings along.\<close>

record cloud_info =
  ci_type :: cloud_provider_type
  ci_client_id :: string
  ci_client_secret :: string

definition cloud_registry :: "(string \<times> cloud_info) list" where
  "cloud_registry =
     [(''GoogleDrive'', \<lparr>ci_type = GoogleDriveT,
         ci_client_id = ''425163723279-2mqd9578g7tkd7gpq2butd4sjae59djg.apps.googleusercontent.com'',
         ci_client_secret = ''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''\<rparr>),
      (''Dropbox'', \<lparr>ci_type = DropboxT, ci_client_id = ''qc1cw5yaa3dac1d'', ci_client_secret = ''d0bcxwa1ejd56u0''\<rparr>)]"

text \<open>One of the two credentials: the one brought along, unless the user says no and types another.\<close>

definition ask_credential :: "string \<Rightarrow> stdin \<Rightarrow> (string \<times> stdin) option" where
  "ask_credential dflt i =
     (if dflt = [] then Some (dflt, i)
      else (case askYesNo i of
              None \<Rightarrow> None
            | Some (use_default, i1) \<Rightarrow> Some (if use_default then (dflt, i1) else readLine i1)))"

definition read_default :: "string \<Rightarrow> stdin \<Rightarrow> string \<times> stdin" where
  "read_default dflt i = (let (s, i1) = readLine i in (if s = [] then dflt else s, i1))"

text \<open>The questions about one provider: client id, client secret, directory, name.\<close>

definition ask_cloud :: "cloud_info \<Rightarrow> stdin \<Rightarrow> (string \<times> string \<times> string \<times> string \<times> stdin) option" where
  "ask_cloud info i =
     (case ask_credential (ci_client_id info) i of
        None \<Rightarrow> None
      | Some (cid, i1) \<Rightarrow>
          (case ask_credential (ci_client_secret info) i1 of
             None \<Rightarrow> None
           | Some (csec, i2) \<Rightarrow>
               (let (dir, i3) = read_default ''/'' i2; (name, i4) = read_default ''my-cloud'' i3
                in Some (cid, csec, dir, name, i4))))"

lemma ask_cloud_shorter: "ask_cloud info i = Some (a, b, c, d, i1) \<Longrightarrow> length (in_rest i1) \<le> length (in_rest i)"
proof -
  have c: "length (in_rest j1) \<le> length (in_rest j)" if "ask_credential x j = Some (y, j1)" for x y j j1
    using that askYesNo_shorter [of j] readLine_shorter
    by (auto simp: ask_credential_def split: if_splits option.splits)
       (metis less_imp_le order_trans snd_conv)+
  have d: "length (in_rest j1) \<le> length (in_rest j)" if "read_default x j = (y, j1)" for x y j j1
    using that readLine_shorter [of j] by (auto simp: read_default_def split: prod.splits)
  show "ask_cloud info i = Some (a, b, c, d, i1) \<Longrightarrow> length (in_rest i1) \<le> length (in_rest i)"
    by (auto simp: ask_cloud_def split: option.splits prod.splits) (meson c d order_trans)
qed

text \<open>
  The loop over clouds. After a failed registration the answer no leads back to the menu, and yes
  to the question for another cloud.
\<close>

function configureClouds ::
  "'j lib \<Rightarrow> host \<Rightarrow> stdin \<Rightarrow> ('j, 's) msys_scheme \<Rightarrow> stdin res \<times> ('j, 's) msys_scheme" where
  "configureClouds J H i w =
     (let keys = ho_order H (map fst cloud_registry); (choice, i1) = read_int (ho_uninit H) i
      in if choice \<le> 0 \<or> int (length keys) < choice then (Inr i1, w)
         else (case map_of cloud_registry (keys ! nat (choice - 1)) of
             None \<Rightarrow> (Inl OutOfRange, w)
           | Some info \<Rightarrow>
             (case ask_cloud info i1 of
                None \<Rightarrow> (Inl Diverges, w)
              | Some (cid, csec, dir, name, i2) \<Rightarrow>
                  (case registerCloud J name (ci_type info) cid csec (path_of_string dir) w of
                     (Inr _, w1) \<Rightarrow>
                       (case askYesNo i2 of
                          None \<Rightarrow> (Inl Diverges, w1)
                        | Some (other, i3) \<Rightarrow> if other then configureClouds J H i3 w1 else (Inr i3, w1))
                   | (Inl e, w1) \<Rightarrow>
                       if \<not> caught e then (Inl e, w1)
                       else (case askYesNo i2 of
                               None \<Rightarrow> (Inl Diverges, w1)
                             | Some (retry, i3) \<Rightarrow>
                                 if \<not> retry then configureClouds J H i3 w1
                                 else (case askYesNo i3 of
                                         None \<Rightarrow> (Inl Diverges, w1)
                                       | Some (other, i4) \<Rightarrow>
                                           if other then configureClouds J H i4 w1 else (Inr i4, w1)))))))"
  by pat_completeness auto
termination
proof (relation "measure (\<lambda>(J, H, i, w). length (in_rest i))")
qed (auto dest!: askYesNo_shorter ask_cloud_shorter,
     (metis (no_types) le_less_trans less_le_trans less_trans order_trans read_int_shorter snd_conv)+)

declare configureClouds.simps [simp del]

subsection \<open>Stopping the daemon\<close>

text \<open>
  The signals that are sent, in order. The process is probed with signal 0: once before, then at
  most fifty times while it is given time to end, and once more; \<open>ho_alive n\<close> is the answer to the
  probe number \<open>n\<close>.
\<close>

datatype process_signal = SIGTERM | SIGKILL

fun probes_until_gone :: "host \<Rightarrow> nat \<Rightarrow> nat \<Rightarrow> nat" where
  "probes_until_gone H 0 k = k"
| "probes_until_gone H (Suc n) k = (if ho_alive H k then probes_until_gone H n (Suc k) else Suc k)"

definition pid_file_of :: "host \<Rightarrow> fs \<Rightarrow> string \<Rightarrow> path" where
  "pid_file_of H f config_name = sub_dir (getDataDirForConfig H f config_name) (config_name @ ''.pid'')"

definition stopDaemon :: "host \<Rightarrow> string \<Rightarrow> fs \<Rightarrow> (int \<times> (int \<times> process_signal) list) res \<times> fs" where
  "stopDaemon H config_name f =
     (let pid_file = pid_file_of H f config_name;
          remove_then = (\<lambda>code. case fs_remove pid_file f of (Inl e, f1) \<Rightarrow> (Inl e, f1) | (Inr _, f1) \<Rightarrow> (Inr (code, []), f1))
      in if config_name = [] then (Inr (1, []), f)
         else (case fs_read f pid_file of
             None \<Rightarrow> (Inr (1, []), f)
           | Some text \<Rightarrow>
               (let pid = fst (read_int 0 \<lparr>in_rest = text, in_fail = False\<rparr>)
                in if pid \<le> 0 then remove_then 1
                   else if \<not> ho_alive H 0 then remove_then 1
                   else if \<not> ho_term H then (Inr (1, []), f)
                   else (let k = probes_until_gone H 50 1; hard = (if ho_alive H k then [(pid, SIGKILL)] else [])
                         in (Inr (0, (pid, SIGTERM) # hard), snd (fs_remove pid_file f))))))"

subsection \<open>\<open>main\<close>\<close>

text \<open>
  The outcome: the exit code with the signals sent, the directory printed with the exit code 0, or
  the daemon running while \<open>main\<close> waits to be
  told to stop. Opening a configuration opens its database file.
\<close>

text \<open>
  The build types of \<open>CMakeLists.txt\<close>: \<open>Debug\<close>, the default, logs and stays in the foreground,
  \<open>Release\<close> does not log; both others have the modes for developers.
\<close>

datatype build = Debug | RelWithDebInfo | Release

definition with_ndebug :: "build \<Rightarrow> bool" where
  "with_ndebug b \<longleftrightarrow> b \<noteq> Debug"

definition with_logging :: "build \<Rightarrow> bool" where
  "with_logging b \<longleftrightarrow> b \<noteq> Release"

definition with_dev_modes :: "build \<Rightarrow> bool" where
  "with_dev_modes b \<longleftrightarrow> b \<noteq> Release"

datatype outcome = Exited int "(int \<times> process_signal) list" | Shown path | Serving

definition open_config :: "host \<Rightarrow> string \<Rightarrow> (('j, 's) msys_scheme, unit) act" where
  "open_config H config_name w =
     (let p = sub_dir (getDataDirForConfig H (w_fs w) config_name) (config_name @ ''.sqlite3'')
      in andThen (lift_res (database_open (ho_open H p) (ho_db H p))) (\<lambda>d. modify (\<lambda>w. w\<lparr>w_db := d\<rparr>)) w)"

text \<open>
  The log file: its directory is made, and the file is truncated. The result is false when the
  directory cannot be made, which ends the program; what is logged later is not kept here.
\<close>

definition open_log :: "host \<Rightarrow> build \<Rightarrow> path \<Rightarrow> string \<Rightarrow> fs \<Rightarrow> bool \<times> fs" where
  "open_log H b data_dir name f =
     (if \<not> with_logging b then (True, f)
      else (case fs_create_directories (sub_dir data_dir ''logs'') f of
              (Inl e, f1) \<Rightarrow> (False, f1)
            | (Inr _, f1) \<Rightarrow>
                (let log = sub_dir (sub_dir data_dir ''logs'') name
                 in (True, if may_write (ho_perms H) log then snd (fs_open_out log f1) else f1))))"

definition start_log :: "host \<Rightarrow> build \<Rightarrow> string \<Rightarrow> string \<Rightarrow> (('j, 's) msys_scheme, bool) act" where
  "start_log H b config_name name w =
     (let (opened, f) = open_log H b (getDataDirForConfig H (w_fs w) config_name) name (w_fs w)
      in ret opened (w\<lparr>w_fs := f\<rparr>))"

definition main_config ::
  "'j program \<Rightarrow> orders \<Rightarrow> (('j, 's) msys_scheme \<Rightarrow> turn list) \<Rightarrow> host \<Rightarrow> build \<Rightarrow> string \<Rightarrow> stdin \<Rightarrow>
   (('j, 's) msys_scheme, outcome) act" where
  "main_config P R sched H b config_name0 i w =
     andThen (lift_res (if config_name0 = [] then chooseOrCreateConfig H (w_fs w) i else Inr (config_name0, i)))
       (\<lambda>(config_name, i1). andThen (fs_call (fs_create_directories (getDataDirForConfig H (w_fs w) config_name)))
       (\<lambda>_. andThen (start_log H b config_name ''syncharbor-initial.log'')
       (\<lambda>logs. if \<not> logs then ret (Exited 1 []) else
          andThen (open_config H config_name)
       (\<lambda>_. andThen (configureLocalDirectory H i1)
       (\<lambda>i2. case i2 of
            None \<Rightarrow> ret (Exited 1 [])
          | Some i3 \<Rightarrow>
              andThen (configureClouds (pg_lib P) H i3)
                (\<lambda>_. andThen (sm_run P R sched InitialSync)
                (\<lambda>_. andThen shutdown (\<lambda>_. ret (Exited 0 []))))))))) w"

text \<open>Writing the pid file may fail, which is only reported.\<close>

definition write_pid :: "host \<Rightarrow> path \<Rightarrow> fs \<Rightarrow> fs" where
  "write_pid H pid_file f =
     (if \<not> may_write (ho_perms H) pid_file then f
      else (case fs_open_out pid_file f of
              (None, f1) \<Rightarrow> f1
            | (Some _, f1) \<Rightarrow> set_file pid_file (int_string (ho_pid H) @ [CHR 0x0A]) f1))"

text \<open>
  \<open>backgroundize\<close> on POSIX, for the process that goes on: after each successful \<open>fork\<close> the parent
  exits with the code 0. A failure leaves the process where it is; only the working directory
  is state of the model.
\<close>

definition backgroundize :: "host \<Rightarrow> fs \<Rightarrow> bool \<times> fs" where
  "backgroundize H f =
     (if \<not> ho_fork H then (False, f)
      else if \<not> ho_setsid H then (False, f)
      else if \<not> ho_refork H then (False, f)
      else (True, if ho_chdir H then f\<lparr>fs_cwd := []\<rparr> else f))"

text \<open>Into the background, which may fail, and the pid file.\<close>

definition background :: "host \<Rightarrow> build \<Rightarrow> string \<Rightarrow> (('j, 's) msys_scheme, unit) act" where
  "background H b config_name = modify (\<lambda>w.
     if with_ndebug b
     then w\<lparr>w_fs := write_pid H (pid_file_of H (w_fs w) config_name)
            (snd (backgroundize H (w_fs w)))\<rparr>
     else w)"

definition main_daemon ::
  "'j program \<Rightarrow> orders \<Rightarrow> (('j, 's) msys_scheme \<Rightarrow> turn list) \<Rightarrow> host \<Rightarrow> build \<Rightarrow> string \<Rightarrow> stdin \<Rightarrow>
   (('j, 's) msys_scheme, outcome) act" where
  "main_daemon P R sched H b config_name0 i w =
     andThen (lift_res (if config_name0 \<noteq> [] then Inr (Some config_name0)
                        else res_bind (listConfigs H (w_fs w))
                          (\<lambda>configs. if configs = [] then Inr None
                             else (let choice = fst (read_int (ho_uninit H) i)
                                   in if choice < 1 \<or> int (length configs) < choice then Inr None
                                      else Inr (Some (configs ! nat (choice - 1)))))))
       (\<lambda>name. case name of
            None \<Rightarrow> ret (Exited 1 [])
          | Some config_name \<Rightarrow>
              andThen (start_log H b config_name ''syncharbor-daemon.log'')
                (\<lambda>logs. if \<not> logs then ret (Exited 1 []) else
                   andThen (open_config H config_name)
                (\<lambda>_. andThen (background H b config_name)
                (\<lambda>_. andThen (sm_run P R sched DaemonMode) (\<lambda>_. ret Serving))))) w"

text \<open>The modes for developers take the clouds from the file that is named.\<close>

definition main_file_initial ::
  "'j program \<Rightarrow> orders \<Rightarrow> (('j, 's) msys_scheme \<Rightarrow> turn list) \<Rightarrow> host \<Rightarrow> build \<Rightarrow> string \<Rightarrow>
   (('j, 's) msys_scheme, outcome) act" where
  "main_file_initial P R sched H b config_name w =
     (if config_name = [] then ret (Exited 1 []) w
      else andThen (fs_call (fs_create_directories (getDataDirForConfig H (w_fs w) config_name)))
       (\<lambda>_. andThen (start_log H b config_name ''syncharbor-daemon.log'')
       (\<lambda>logs. if \<not> logs then ret (Exited 1 []) else
          andThen (open_config H config_name)
       (\<lambda>_. andThen (SyncManager_config (pg_lib P) (path_of_string config_name) InitialSync)
       (\<lambda>_. andThen (sm_run P R sched InitialSync)
       (\<lambda>_. andThen shutdown (\<lambda>_. ret (Exited 0 []))))))) w)"

definition main_file_daemon ::
  "'j program \<Rightarrow> orders \<Rightarrow> (('j, 's) msys_scheme \<Rightarrow> turn list) \<Rightarrow> host \<Rightarrow> build \<Rightarrow> string \<Rightarrow>
   (('j, 's) msys_scheme, outcome) act" where
  "main_file_daemon P R sched H b config_name w =
     (if config_name = [] then ret (Exited 1 []) w
      else andThen (start_log H b config_name ''syncharbor-daemon.log'')
       (\<lambda>logs. if \<not> logs then ret (Exited 1 []) else
          andThen (open_config H config_name)
       (\<lambda>_. andThen (SyncManager_config (pg_lib P) (path_of_string config_name) DaemonMode)
       (\<lambda>_. andThen (background H b config_name)
       (\<lambda>_. andThen (sm_run P R sched DaemonMode) (\<lambda>_. ret Serving))))) w)"

definition show_data_dir :: "host \<Rightarrow> fs \<Rightarrow> string \<Rightarrow> path" where
  "show_data_dir H f config_name =
     getDataDirForConfig H f (if config_name = [] then ''default'' else config_name)"

definition sh_main ::
  "'j program \<Rightarrow> orders \<Rightarrow> (('j, 's) msys_scheme \<Rightarrow> turn list) \<Rightarrow> host \<Rightarrow> build \<Rightarrow> string list \<Rightarrow> stdin \<Rightarrow>
   (('j, 's) msys_scheme, outcome) act" where
  "sh_main P R sched H b args i w =
     (case args of
        [] \<Rightarrow> ret (Exited 1 []) w
      | mode # rest \<Rightarrow>
          (let config_name = (case rest of [] \<Rightarrow> [] | c # _ \<Rightarrow> c)
           in if mode = ''--stop-daemon'' then
                andThen (fs_call (stopDaemon H config_name)) (\<lambda>(code, sent). ret (Exited code sent)) w
              else if mode = ''--show-data-dir'' then ret (Shown (show_data_dir H (w_fs w) config_name)) w
              else if mode = ''--config'' then main_config P R sched H b config_name i w
              else if mode = ''--run-daemon'' then main_daemon P R sched H b config_name i w
              else if mode = ''--config-file-initial'' \<and> with_dev_modes b
                then main_file_initial P R sched H b config_name w
              else if mode = ''--config-file-daemon'' \<and> with_dev_modes b
                then main_file_daemon P R sched H b config_name w
              else ret (Exited 1 []) w))"

text \<open>SIGINT or SIGTERM ends the wait of \<open>main\<close>.\<close>

definition main_stop :: "(('j, 's) msys_scheme, outcome) act" where
  "main_stop = andThen shutdown (\<lambda>_. ret (Exited 0 []))"

end
