(* ===== verification/WizardProps.thy ===== *)
theory WizardProps
  imports ConfigProps Wizard
begin

text \<open>
  What the command line guarantees: the pid file leads to the process that wrote it; and where the
  dialogue goes wrong: answers in words, and text where a number is asked for.
\<close>

subsection \<open>Numbers\<close>

lemma digits_val_snoc: "digits_val (ds @ [c]) = 10 * digits_val ds + digit_val c"
  by (simp add: digits_val_def)

lemma written_digit:
  assumes "n < (10 :: nat)"
  shows "is_digit (char_of (48 + n))" "digit_val (char_of (48 + n)) = int n" "\<not> is_space (char_of (48 + n))"
    "char_of (48 + n) \<noteq> CHR ''-''" "char_of (48 + n) \<noteq> CHR ''+''"
proof -
  have v: "of_char (char_of (48 + n)) = 48 + n" using assms by (simp add: of_char_of)
  have ne: "char_of (48 + n) \<noteq> c" if "of_char c < (48 :: nat)" for c using v that by auto
  have "digit_val (char_of (48 + n)) = int (of_char (char_of (48 + n))) - 48" by (simp add: digit_val_def)
  then show "digit_val (char_of (48 + n)) = int n" using v by simp
  have "list_all (\<lambda>n. char_of (48 + n) = ''0123456789'' ! n) [0 ..< 10]" by code_simp
  then have "char_of (48 + n) = ''0123456789'' ! n" using assms by (simp add: list_all_iff)
  then show "is_digit (char_of (48 + n))" using nth_mem [of n "''0123456789''"] assms by (simp add: is_digit_def)
  show "\<not> is_space (char_of (48 + n))" unfolding is_space_def using ne by simp
  show "char_of (48 + n) \<noteq> CHR ''-''" "char_of (48 + n) \<noteq> CHR ''+''" using ne by simp_all
qed

lemma nat_string_reads:
  "digits_val (nat_string n) = int n \<and> list_all is_digit (nat_string n) \<and> nat_string n \<noteq> [] \<and>
   \<not> is_space (hd (nat_string n)) \<and> hd (nat_string n) \<noteq> CHR ''-'' \<and> hd (nat_string n) \<noteq> CHR ''+''"
proof (induction n rule: nat_string.induct)
  case (1 n)
  show ?case
  proof (cases "n < 10")
    case True
    then show ?thesis using written_digit [OF True] by (simp add: nat_string.simps [of n] digits_val_def)
  next
    case False
    then have "10 * (int n div 10) + int n mod 10 = int n" by simp
    then show ?thesis
      using 1 [OF False] written_digit [of "n mod 10"] False
      by (simp add: nat_string.simps [of n] digits_val_snoc zdiv_int zmod_int)
  qed
qed

lemma read_int_written:
  assumes "0 \<le> n" and "n \<le> int_max"
  shows "fst (read_int u \<lparr>in_rest = int_string n @ CHR 0x0A # r, in_fail = False\<rparr>) = n"
proof -
  let ?s = "nat_string (nat n)"
  note s = nat_string_reads [of "nat n"]
  have nl: "\<not> is_digit (CHR 0x0A)" by (simp add: is_digit_def)
  have d: "dropWhile is_space (?s @ CHR 0x0A # r) = ?s @ CHR 0x0A # r"
    using s by (cases ?s) auto
  have t: "takeWhile is_digit (?s @ CHR 0x0A # r) = ?s"
    using s nl by (simp add: list_all_iff takeWhile_append2)
  have h: "hd (?s @ CHR 0x0A # r) = hd ?s" using s by simp
  show ?thesis using assms s t by (simp add: read_int_def int_string_def d h Let_def)
qed

subsection \<open>The pid file\<close>

lemma map_of_update: "map_of (map (\<lambda>e. if fst e = k then (k, g (snd e)) else e) m) k = map_option g (map_of m k)"
  by (induction m) auto

lemma opened_file:
  assumes o: "fs_open_out p f = (Some d, f1)"
  shows "\<exists>n. fs_node f1 p = Some n \<and> \<not> n_dir n" "fs_cwd f1 = fs_cwd f"
proof -
  show c: "fs_cwd f1 = fs_cwd f"
    using o by (auto simp: fs_open_out_def Let_def split: option.splits if_splits)
  then have k: "fs_key f1 p = fs_key f p" by (simp add: fs_key_def Let_def)
  show "\<exists>n. fs_node f1 p = Some n \<and> \<not> n_dir n"
  proof (cases "map_of (fs_nodes f) (fs_key f p)")
    case None
    then show ?thesis using o k by (auto simp: fs_open_out_def Let_def fs_node_def map_add_def split: option.splits if_splits)
  next
    case (Some n)
    then have "fs_nodes f1 = map (\<lambda>e. if fst e = fs_key f p then (fs_key f p, (snd e)\<lparr>n_data := [], n_mtime := fs_clock f\<rparr>) else e) (fs_nodes f)"
      "\<not> n_dir n"
      using o by (auto simp: fs_open_out_def Let_def split: if_splits)
    then show ?thesis using Some k
      by (simp add: fs_node_def map_of_update [where g = "\<lambda>n. n\<lparr>n_data := [], n_mtime := fs_clock f\<rparr>"])
  qed
qed

lemma node_set_file:
  assumes "fs_node f p = Some n" and "\<not> n_dir n"
  shows "fs_node (set_file p s f) p = Some (n\<lparr>n_data := s\<rparr>)"
proof -
  have "map_of (map (\<lambda>(k, n). (k, if k = x then n\<lparr>n_data := s\<rparr> else n)) m) x = map_option (\<lambda>n. n\<lparr>n_data := s\<rparr>) (map_of m x)"
    for x and m :: "(string list \<times> node) list"
    by (induction m) auto
  moreover have "fs_key (set_file p s f) p = fs_key f p" by (simp add: fs_key_def set_file_def Let_def)
  ultimately show ?thesis using assms by (simp add: fs_node_def set_file_def)
qed

lemma removed_file:
  assumes "fs_node f p = Some n" and "\<not> n_dir n"
  shows "\<exists>f1. fs_remove p f = (Inr True, f1) \<and> fs_node f1 p = None"
proof -
  have "map_of (filter (\<lambda>e. fst e \<noteq> k) m) k = None" for k and m :: "(string list \<times> node) list"
    by (induction m) auto
  then show ?thesis using assms by (simp add: fs_remove_def Let_def fs_node_def fs_key_def)
qed

lemma pid_file_cwd: "fs_cwd f1 = fs_cwd f \<Longrightarrow> pid_file_of H f1 c = pid_file_of H f c"
  by (simp add: pid_file_of_def getDataDirForConfig_def getBaseDataDir_def split: option.split)

text \<open>
  C31. \<open>--stop-daemon\<close> reaches the daemon that was started: the number written to the pid file is
  read back, exactly that process is sent SIGTERM, and SIGKILL only if it is still there when the
  program has given up waiting; then the pid file is gone.
\<close>

theorem stop_reaches_daemon:
  assumes "may_write (ho_perms H) (pid_file_of H f name)" and "fst (fs_open_out (pid_file_of H f name) f) \<noteq> None"
    and "name \<noteq> []" and "0 < ho_pid H" and "ho_pid H \<le> int_max" and "ho_alive H 0" and "ho_term H"
  shows "let (r, f1) = stopDaemon H name (write_pid H (pid_file_of H f name) f)
    in r = Inr (0, (ho_pid H, SIGTERM) # (if ho_alive H (probes_until_gone H 50 1) then [(ho_pid H, SIGKILL)] else [])) \<and>
       \<not> fs_exists f1 (pid_file_of H f name)"
proof -
  let ?p = "pid_file_of H f name" and ?s = "int_string (ho_pid H) @ [CHR 0x0A]"
  obtain d f0 where o: "fs_open_out ?p f = (Some d, f0)" using assms(2) by (cases "fs_open_out ?p f") auto
  note n = opened_file [OF o]
  let ?f = "set_file ?p ?s f0"
  have w: "write_pid H ?p f = ?f" using assms(1) o by (simp add: write_pid_def)
  have c: "pid_file_of H ?f name = ?p" by (rule pid_file_cwd) (simp add: set_file_def n(2))
  obtain m0 where m0: "fs_node f0 ?p = Some m0" "\<not> n_dir m0" using n(1) by blast
  have rd: "fs_read ?f ?p = Some ?s" by (simp add: fs_read_def node_set_file [OF m0] m0(2))
  have i: "fst (read_int 0 \<lparr>in_rest = ?s, in_fail = False\<rparr>) = ho_pid H"
    using read_int_written [of "ho_pid H" 0 "[]"] assms(4,5) by simp
  obtain m where "fs_node ?f ?p = Some m" "\<not> n_dir m" using node_set_file [OF m0] m0(2) by simp
  then obtain f1 where rm: "fs_remove ?p ?f = (Inr True, f1)" "fs_node f1 ?p = None" using removed_file by blast
  show ?thesis
    using assms(3-7) rm(2)
    by (simp add: w stopDaemon_def Let_def c rd i rm(1) fs_exists_def)
qed

definition sample_host :: host where
  "sample_host =
     \<lparr>ho_env = [''HOME'' \<mapsto> ''/home''], ho_perms = \<lparr>may_write = (\<lambda>_. True), may_list = (\<lambda>_. True)\<rparr>, ho_uninit = 0,
      ho_db = (\<lambda>_. create_tables), ho_order = (\<lambda>ks. ks), ho_alive = (\<lambda>n. n < 3), ho_term = True,
      ho_open = (\<lambda>_. \<lparr>od_open = True, od_pragmas = [True, True, True], od_tables = True, od_error = []\<rparr>),
      ho_fork = True, ho_setsid = True, ho_refork = True, ho_chdir = True, ho_pid = 4711\<rparr>"

text \<open>A tree with the data directory of one configuration, \<open>c\<close>.\<close>

definition data_segs :: "string list" where
  "data_segs = [''home'', ''.local'', ''share'', ''syncharbor'']"

definition sample_data :: fs where
  "sample_data =
     \<lparr>fs_nodes = map (\<lambda>k. (k, \<lparr>n_dir = True, n_data = [], n_mtime = 0, n_ino = 1\<rparr>))
          [[], [''home''], [''home'', ''.local''], [''home'', ''.local'', ''share''], data_segs, data_segs @ [''c'']],
      fs_cwd = [], fs_dev = 1, fs_next_ino = 7, fs_clock = 0\<rparr>"

lemma sample_base: "getBaseDataDir sample_host sample_data = \<lparr>rooted = True, segs = data_segs\<rparr>"
  by (simp add: getBaseDataDir_def getenv_nonempty_def sample_host_def sub_dir_def path_div_def path_of_string_def
      starts_with_def data_segs_def)

lemma sample_pid_file:
  "pid_file_of sample_host sample_data ''c'' = \<lparr>rooted = True, segs = data_segs @ [''c'', ''c.pid'']\<rparr>"
  by (simp add: pid_file_of_def getDataDirForConfig_def sample_base sub_dir_def path_div_def path_of_string_def
      starts_with_def data_segs_def)

theorem stop_reaches_daemon_witness:
  "fst (stopDaemon sample_host ''c'' (write_pid sample_host (pid_file_of sample_host sample_data ''c'') sample_data)) =
     Inr (0, [(4711, SIGTERM)])"
proof -
  have "fst (fs_open_out (pid_file_of sample_host sample_data ''c'') sample_data) \<noteq> None"
    unfolding sample_pid_file by (simp add: sample_data_def fs_open_out_def fs_key_def data_segs_def)
  from stop_reaches_daemon [of sample_host sample_data "''c''", OF _ this] show ?thesis
    by (simp add: sample_host_def int_max_def eval_nat_numeral split: prod.splits)
qed

subsection \<open>The dialogue\<close>

lemma tolower_n: "tolower CHR ''n'' = CHR ''n''" "tolower CHR ''N'' = CHR ''n''"
  by code_simp+

lemma andThen_throws: "fst (m w) = Inl e \<Longrightarrow> fst (andThen m f w) = Inl e"
  by (auto simp: andThen_def split: prod.split sum.split)

lemma no_answer: "c \<in> {CHR ''n'', CHR ''N''} \<Longrightarrow> answer_in (c # r) = Some (False, r)"
  by (elim insertE) (simp_all add: is_space_def tolower_n)

lemma line_split:
  "x \<notin> set word \<Longrightarrow> takeWhile (\<lambda>c. c \<noteq> x) (word @ x # r) = word"
  "x \<notin> set word \<Longrightarrow> dropWhile (\<lambda>c. c \<noteq> x) (word @ x # r) = x # r"
  by (induction word) auto

text \<open>
  An answer in words answers the next question as well: when the user declines a default
  credential with a word that starts with an n, like \<open>no\<close>, the rest of the word becomes the
  credential, and what is then typed as the credential is left for the questions after it.
\<close>

theorem worded_answer_spills:
  assumes "dflt \<noteq> []" and "\<not> in_fail i" and "in_rest i = c # word @ CHR 0x0A # r" and "c \<in> {CHR ''n'', CHR ''N''}"
    and "word \<noteq> []" and "\<not> is_space (hd word)" and "CHR 0x0A \<notin> set word"
  shows "ask_credential dflt i = Some (word, i\<lparr>in_rest := r\<rparr>)"
proof -
  have d: "dropWhile is_space (word @ CHR 0x0A # r) = word @ CHR 0x0A # r"
    using assms(5,6) by (cases word) auto
  have ns: "\<not> (\<forall>x \<in> set word. is_space x)" using assms(5,6) hd_in_set by blast
  have l: "readLine (i\<lparr>in_rest := word @ CHR 0x0A # r\<rparr>) = (word, i\<lparr>in_rest := r\<rparr>)"
    using assms(2) d line_split [OF assms(7)] ns by (simp add: readLine_def Let_def ball_Un)
  show ?thesis
    using assms(1,2,3) no_answer [OF assms(4), of "word @ CHR 0x0A # r"] l
    by (simp add: ask_credential_def askYesNo_def del: answer_in.simps)
qed

theorem worded_answer_spills_witness:
  "ask_credential ''default'' \<lparr>in_rest = ''no'' @ [CHR 0x0A] @ ''my-id'' @ [CHR 0x0A], in_fail = False\<rparr> =
     Some (''o'', \<lparr>in_rest = ''my-id'' @ [CHR 0x0A], in_fail = False\<rparr>)"
  using worded_answer_spills [of "''default''" "\<lparr>in_rest = ''no'' @ [CHR 0x0A] @ ''my-id'' @ [CHR 0x0A], in_fail = False\<rparr>"
      "CHR ''n''" "''o''" "''my-id'' @ [CHR 0x0A]"]
  by (simp add: is_space_def)

text \<open>
  C32. Text where a number is asked for hangs the program: when there are configurations to choose
  from and the answer starts with neither a digit nor a sign, the input stream has failed; the
  name of the configuration is empty, no local directory can be read, and the question whether to
  choose another one is repeated for ever.
\<close>

theorem text_for_number_hangs:
  assumes "listConfigs H (w_fs w) = Inr (conf # confs)" and "\<not> in_fail i"
    and "dropWhile is_space (in_rest i) = c # r" and "\<not> is_digit c" and "c \<noteq> CHR ''-''" and "c \<noteq> CHR ''+''"
    and "fst (fs_create_directories (getDataDirForConfig H (w_fs w) []) (w_fs w)) = Inr ()"
    and "fst (start_log H b [] ''syncharbor-initial.log''
           (w\<lparr>w_fs := snd (fs_create_directories (getDataDirForConfig H (w_fs w) []) (w_fs w))\<rparr>)) = Inr True"
    and "\<And>p. open_ok (ho_open H p)"
  shows "fst (main_config P R sched H b [] i w) = Inl Diverges"
proof -
  have "read_int (ho_uninit H) i = (0, \<lparr>in_rest = c # r, in_fail = True\<rparr>)"
    using assms(2-6) by (simp add: read_int_def Let_def)
  then have ch: "chooseOrCreateConfig H (w_fs w) i = Inr ([], \<lparr>in_rest = c # r, in_fail = True\<rparr>)"
    using assms(1) by (simp add: chooseOrCreateConfig_def read_word_def Let_def)
  have hang: "fst (configureLocalDirectory H \<lparr>in_rest = c # r, in_fail = True\<rparr> v) = Inl Diverges" for v :: "('a, 'b) msys_scheme"
    by (simp add: configureLocalDirectory.simps [of H] readLine_def Let_def setLocalDir_def path_of_string_def fs_query_def
        fs_absolute_def andThen_def caught_def askYesNo_def starts_with_def)
  obtain f1 where f1: "fs_create_directories (getDataDirForConfig H (w_fs w) []) (w_fs w) = (Inr (), f1)"
    using assms(7) by (cases "fs_create_directories (getDataDirForConfig H (w_fs w) []) (w_fs w)") auto
  obtain v where v: "start_log H b [] ''syncharbor-initial.log'' (w\<lparr>w_fs := f1\<rparr>) = (Inr True, v)"
    using assms(8) f1 by (cases "start_log H b [] ''syncharbor-initial.log'' (w\<lparr>w_fs := f1\<rparr>)") auto
  show ?thesis
    by (simp add: main_config_def ch fs_call_def f1 v open_config_def assms(9) Let_def andThen_throws hang)
qed

lemma sample_configs: "listConfigs sample_host sample_data = Inr [''c'']"
  unfolding listConfigs_def sample_base
  by (simp add: sample_data_def fs_key_def fs_exists_def fs_is_directory_def fs_node_def data_segs_def below_def)

lemma sample_dirs: "fst (fs_create_directories (getDataDirForConfig sample_host sample_data []) sample_data) = Inr ()"
  unfolding getDataDirForConfig_def sample_base
  by (simp add: sub_dir_def path_of_string_def path_div_def starts_with_def
      fs_create_directories_def fs_create_directory_def fs_key_def sample_data_def data_segs_def)

lemma sample_log:
  "fst (let f = snd (fs_create_directories (getDataDirForConfig sample_host sample_data []) sample_data)
        in open_log sample_host Debug (getDataDirForConfig sample_host f []) ''syncharbor-initial.log'' f)"
  by code_simp

theorem text_for_number_hangs_witness:
  "fst (main_config sample_program any_order (\<lambda>_. []) sample_host Debug [] \<lparr>in_rest = ''new'' @ [CHR 0x0A], in_fail = False\<rparr>
     (sample_manager\<lparr>w_fs := sample_data\<rparr>)) = Inl Diverges"
proof (rule text_for_number_hangs)
  let ?w = "sample_manager\<lparr>w_fs := sample_data\<rparr>"
  show "listConfigs sample_host (w_fs ?w) = Inr (''c'' # [])" by (simp add: sample_configs)
  show "fst (fs_create_directories (getDataDirForConfig sample_host (w_fs ?w) []) (w_fs ?w)) = Inr ()"
    by (simp add: sample_dirs)
  show "fst (start_log sample_host Debug [] ''syncharbor-initial.log''
      (?w\<lparr>w_fs := snd (fs_create_directories (getDataDirForConfig sample_host (w_fs ?w) []) (w_fs ?w))\<rparr>)) = Inr True"
    using sample_log by (simp add: start_log_def case_prod_beta Let_def)
  show "open_ok (ho_open sample_host p)" for p by (simp add: open_ok_def sample_host_def)
  show "\<not> in_fail \<lparr>in_rest = ''new'' @ [CHR 0x0A], in_fail = False\<rparr>" by simp
  show "dropWhile is_space (in_rest \<lparr>in_rest = ''new'' @ [CHR 0x0A], in_fail = False\<rparr>) = CHR ''n'' # ''ew'' @ [CHR 0x0A]"
    by (simp add: is_space_def)
  show "\<not> is_digit (CHR ''n'')" by (simp add: is_digit_def)
qed simp_all

end
