(* ===== verification/Completion.thy ===== *)
theory Completion
  imports Daemon
begin

text \<open>
  When nothing is lost every change is completed in the end: the runs of the daemon in which
  no request fails for good and the limit of concurrent requests is not hit, and what holds
  when such a run has come to rest.
\<close>

subsection \<open>Runs without a loss\<close>

text \<open>
  A turn of the HTTP worker loses a command when a transfer fails without a retry, or when
  the limit is hit while commands are queued. No other turn loses one.
\<close>

fun lossless_turn :: "turn \<Rightarrow> 's dsys_scheme \<Rightarrow> bool" where
  "lossless_turn (HttpTurn curl_ok messages now) w \<longleftrightarrow> below_limit w \<and> loses_none messages"
| "lossless_turn _ w \<longleftrightarrow> True"

definition lossless_run :: "'j program \<Rightarrow> turn \<Rightarrow> (('j, 's) csys_scheme, unit) act" where
  "lossless_run P t w = (if lossless_turn t w then run_turn P t w else throw Diverges w)"

text \<open>The wait of the process loop, with the turns of the other threads all without a loss.\<close>

definition lossless_wait :: "'j program \<Rightarrow> (('j, 's) csys_scheme \<Rightarrow> turn list) \<Rightarrow> (('j, 's) csys_scheme, unit) act" where
  "lossless_wait P sched w =
     andThen (for_each (lossless_run P) (sched w))
       (\<lambda>_ w1. if ac_idle (cb_active w1) then ret () w1 else throw Diverges w1) w"

inductive lossless_reach :: "'j program \<Rightarrow> ('j, 's) csys_scheme \<Rightarrow> ('j, 's) csys_scheme \<Rightarrow> bool" for P w where
  start: "lossless_reach P w w"
| thread: "lossless_reach P w w1 \<Longrightarrow> lossless_run P t w1 = (Inr (), w2) \<Longrightarrow> lossless_reach P w w2"
| processor: "lossless_reach P w w1 \<Longrightarrow>
    process_step (pg_stores P) (lossless_wait P sched) (pg_create P) w1 = (Inr r, w2) \<Longrightarrow> lossless_reach P w w2"

text \<open>Nothing is queued, running or delayed.\<close>

definition at_rest :: "'s dsys_scheme \<Rightarrow> bool" where
  "at_rest w \<longleftrightarrow> q_items (cb_queue w) = [] \<and> q_items (http_queue w) = [] \<and> http_inflight w = [] \<and> http_delayed w = []"

subsection \<open>They are runs of the daemon\<close>

text \<open>An action that succeeds only where another does, with the same result.\<close>

definition within :: "('w, 'a) act \<Rightarrow> ('w, 'a) act \<Rightarrow> bool" where
  "within m n \<longleftrightarrow> (\<forall>w r w1. m w = (Inr r, w1) \<longrightarrow> n w = (Inr r, w1))"

lemma withinD: "within m n \<Longrightarrow> m w = (Inr r, w1) \<Longrightarrow> n w = (Inr r, w1)"
  by (simp add: within_def)

lemma within_refl [intro]: "within m m"
  by (simp add: within_def)

lemma within_andThen [intro]:
  assumes "within m n" and "\<And>x. within (f x) (g x)"
  shows "within (andThen m f) (andThen n g)"
  using assms by (force simp: within_def andThen_ok)

lemma within_for_each [intro]: "(\<And>x. within (f x) (g x)) \<Longrightarrow> within (for_each f xs) (for_each g xs)"
  by (induction xs) (auto simp del: act_simps)

lemma within_if [intro]: "within m1 n1 \<Longrightarrow> within m2 n2 \<Longrightarrow> within (if b then m1 else m2) (if b then n1 else n2)"
  by simp

lemma lossless_run_within: "within (lossless_run P t) (run_turn P t)"
  by (simp add: within_def lossless_run_def)

lemma wait_within:
  assumes "\<And>t. within (run t) (run_turn P t)"
  shows "within (\<lambda>w. andThen (for_each run (sched w)) (\<lambda>_ w1. if ac_idle (cb_active w1) then ret () w1 else throw Diverges w1) w)
    (pg_wait P sched)"
proof -
  have "within (andThen (for_each run ts) f) (andThen (for_each (run_turn P) ts) f)"
    for ts and f :: "unit list \<Rightarrow> (('a, 'b) csys_scheme, unit) act"
    by (intro within_andThen within_for_each assms within_refl)
  note w = withinD [OF this]
  show ?thesis unfolding within_def pg_wait_def by (intro allI impI) (rule w)
qed

lemma lossless_wait_within: "within (lossless_wait P sched) (pg_wait P sched)"
  using wait_within [OF lossless_run_within] by (simp only: lossless_wait_def [abs_def])

lemma handleChange_within:
  assumes "within u v"
  shows "within (handleChange stores u create_in a) (handleChange stores v create_in a)"
proof -
  have p: "within (sm_createPath u create_in q m) (sm_createPath v create_in q m)" for q m
    unfolding sm_createPath_def Let_def by (intro within_andThen within_for_each within_refl assms)
  have e: "within (ensure_path u create_in q) (ensure_path v create_in q)" for q
    unfolding ensure_path_def by (intro within_andThen within_if within_refl p)
  have c: "within (case cur of None \<Rightarrow> m1 | Some b \<Rightarrow> m2 b) (case cur of None \<Rightarrow> n1 | Some b \<Rightarrow> n2 b)"
    if "within m1 n1" "\<And>b. within (m2 b) (n2 b)" for cur and m1 n1 :: "('s ssys_scheme, unit) act" and m2 n2 :: "nat \<Rightarrow> ('s ssys_scheme, unit) act"
    using that by (cases cur) auto
  show ?thesis unfolding handleChange_def Let_def
    by (intro within_andThen within_if within_refl c e)
qed

lemma process_step_within:
  assumes "within u v"
  shows "within (process_step stores u create_in) (process_step stores v create_in)"
proof -
  have "within (andThen (handleChange stores u create_in a) (\<lambda>_. ret (Some True)))
      (andThen (handleChange stores v create_in a) (\<lambda>_. ret (Some True)))" for a
    by (intro within_andThen handleChange_within assms within_refl)
  then show ?thesis unfolding within_def process_step_def
    by (auto split: prod.splits popped.splits)
qed

lemma lossless_is_run: "lossless_reach P w w1 \<Longrightarrow> daemon_reach P w w1"
proof (induction rule: lossless_reach.induct)
  case start
  show ?case by (rule daemon_reach.start)
next
  case (thread w1 t w2)
  then have "run_turn P t w1 = (Inr (), w2)" using lossless_run_within unfolding within_def by blast
  then show ?case using thread.IH by (blast intro: daemon_reach.step daemon_step.thread)
next
  case (processor w1 sched r w2)
  then have "process_step (pg_stores P) (pg_wait P sched) (pg_create P) w1 = (Inr r, w2)"
    using process_step_within [OF lossless_wait_within] unfolding within_def by blast
  then show ?case using processor.IH by (blast intro: daemon_reach.step daemon_step.processor)
qed

subsection \<open>Nothing is lost in them\<close>

abbreviation both :: "ledger_kind set" where
  "both \<equiv> UNIV"

lemma lossless_run_keeps: "keeps_in both (lossless_run P t :: (('j, 's) csys_scheme, unit) act)"
proof (cases t)
  case (HttpTurn curl_ok messages now)
  show ?thesis unfolding keeps_in_def valid_def
  proof (intro ballI allI impI)
    fix k hand and w :: "('j, 's) csys_scheme"
    assume w: "ledger k hand w"
    show "case lossless_run P t w of (Inl e, w1) \<Rightarrow> ledger_end k w1 | (Inr x, w1) \<Rightarrow> ledger k hand w1"
    proof (cases "below_limit w \<and> loses_none messages")
      case True
      have "case http_worker_step curl_ok messages now w of (Inl e, w1) \<Rightarrow> ledger_end k w1 | (Inr x, w1) \<Rightarrow> ledger k hand w1"
        by (rule http_worker_ledger [OF w]) (use True in blast)
      then show ?thesis using True HttpTurn
        by (auto simp: lossless_run_def andThen_def split: prod.splits sum.splits)
    next
      case False
      then show ?thesis using HttpTurn ledger_drop [OF w] by (auto simp: lossless_run_def)
    qed
  qed
next
  case CallbackTurn
  then show ?thesis using turn_keeps_in [of CallbackTurn both P]
    by (simp add: lossless_run_def [abs_def] is_http_turn_def del: run_turn.simps)
next
  case (PollTurn due)
  then show ?thesis using turn_keeps_in [of t both P]
    by (simp add: lossless_run_def [abs_def] is_http_turn_def del: run_turn.simps)
next
  case (WatchTurn canon evt)
  then show ?thesis using turn_keeps_in [of t both P]
    by (simp add: lossless_run_def [abs_def] is_http_turn_def del: run_turn.simps)
next
  case (UserTurn f)
  then show ?thesis using turn_keeps_in [of t both P]
    by (simp add: lossless_run_def [abs_def] is_http_turn_def del: run_turn.simps)
qed

lemma lossless_wait_keeps: "keeps_in both (lossless_wait P sched :: (('j, 's) csys_scheme, unit) act)"
  unfolding keeps_in_def
proof (intro ballI allI)
  fix k :: ledger_kind and hand
  have idle: "keeps_in both (\<lambda>w1 :: ('j, 's) csys_scheme. if ac_idle (cb_active w1) then ret () w1 else throw Diverges w1)"
    by (intro quiet_keeps) (simp add: quiet_def cm.R_refl)
  have "keeps_in both (andThen (for_each (lossless_run P) ts)
     (\<lambda>_ w1 :: ('j, 's) csys_scheme. if ac_idle (cb_active w1) then ret () w1 else throw Diverges w1))" for ts
    by (intro keeps_andThen keeps_for_each lossless_run_keeps idle)
  note run = validD [OF keeps_inD [OF this UNIV_I]]
  show "valid (ledger k hand) (lossless_wait P sched :: (('j, 's) csys_scheme, unit) act) (\<lambda>_. ledger k hand) (ledger_end k)"
    unfolding valid_def lossless_wait_def by (intro allI impI) (rule run)
qed

interpretation lossless: daemon_env "pg_stores P" both "lossless_wait P sched" "pg_create P"
  by unfold_locales (rule lossless_wait_keeps pg_keeps)+

lemma lossless_ledger:
  assumes "lossless_reach P w w1" and "ledger k [] w"
  shows "ledger k [] w1"
  using assms
proof (induction rule: lossless_reach.induct)
  case (thread w1 t w2)
  then show ?case using validD [OF keeps_inD [OF lossless_run_keeps UNIV_I], of k "[]" w1 P t] by simp
next
  case (processor w1 sched r w2)
  then show ?case using validD [OF keeps_inD [OF lossless.process_step_keeps UNIV_I], of k "[]" w1 P sched] by simp
qed simp

lemma start_paid: "daemon_start w \<Longrightarrow> h_curl (w_h0 w) \<Longrightarrow> all_paid [] w"
  by (simp add: daemon_start_def all_paid_def)

lemma rest_completed:
  assumes "accounts_ok w" and "all_paid [] w" and "at_rest w"
    and "a < length (w_heap w)" and "chain_commands (w_heap w ! a) = []"
  shows "ch_status (w_heap w ! a) = CompletedS"
proof -
  have "outstanding a w = 0" using assms(3) by (simp add: at_rest_def outstanding_def)
  then have "0 \<le> ch_pending (w_heap w ! a)" "ch_pending (w_heap w ! a) \<le> 0"
    using assms(1,2,4,5) by (force simp: work_ok_def all_paid_def)+
  then show ?thesis using assms(2,4) by (simp add: all_paid_def)
qed


subsection \<open>A sample run\<close>

text \<open>
  The user deletes a file: the watcher reports it, the change is made, handed on and completed,
  with one turn of a thread each.
\<close>

definition del_path :: path where
  "del_path = \<lparr>rooted = True, segs = [''h'', ''a'']\<rparr>"

definition del_event :: wtr_event where
  "del_event = \<lparr>we_path = del_path, we_effect = EDestroy, we_type = PFile, we_time = 5, we_associated = None\<rparr>"

definition del_command :: command where
  "del_command = Command LocalDelete 0
     (Some (DeletedDTO (deleted_local \<lparr>rooted = False, segs = [''a'']\<rparr> 1 (fromWatcherTime 5)))) None (Some 0) []"

definition del_change :: change where
  "del_change = (Change Delete \<lparr>rooted = False, segs = [''a'']\<rparr> (fromWatcherTime 5) 0)
     \<lparr>ch_pending := 1, ch_chain := [Some del_command]\<rparr>"

definition del_seen :: "jv csys" where
  "del_seen = (sample_daemon [] [] [] 0)
     \<lparr>ls_events := \<lparr>q_items = [file_event_plain del_path (fromWatcherTime 5) Delete], q_closed = False\<rparr>, ls_signal := True\<rparr>"

definition del_polled :: "jv csys" where
  "del_polled = (sample_daemon [del_change] [] [] 0)\<lparr>w_calls := 1, sm_buff := \<lparr>q_items = [0], q_closed = False\<rparr>\<rparr>"

definition del_started :: "jv csys" where
  "del_started = (sample_daemon [del_change\<lparr>ch_chain := [None], ch_on_complete := Some (ch_path del_change)\<rparr>] [] [] 0)
     \<lparr>w_calls := 1, cb_queue := \<lparr>q_items = [del_command], q_closed = False\<rparr>, cb_active := 1,
      sm_current := [(ch_path del_change, 0)]\<rparr>"

lemma del_path_facts:
  "\<not> fs_exists sample_fs del_path" "\<not> ignoreTmp del_path" "\<not> thatFileTmpExists sample_fs del_path"
  "lexically_relative del_path \<lparr>rooted = True, segs = [''h'']\<rparr> = \<lparr>rooted = False, segs = [''a'']\<rparr>"
  "\<not> is_dot \<lparr>rooted = False, segs = [''a'']\<rparr>"
  by code_simp+

lemma del_watch: "run_turn sample_program (WatchTurn (\<lambda>_. None) del_event) (sample_daemon [] [] [] 0) = (Inr (), del_seen)"
  using del_path_facts
  by (simp add: del_seen_def sample_daemon_def onFsEvent_def del_event_def Let_def push_event_def onChange_def q_push_def q_new_def)

lemma del_row:
  obtains f where "getFileByPath rc_ok \<lparr>rooted = False, segs = [''a'']\<rparr> sample_conn = (Inr (Some f), sample_conn)"
    and "fr_global_id f = 1"
  using that by (simp add: getFileByPath_def run_query_ok sample_tables_def path_string_def record_local_info_def
      c_str_no_nul narrow_int_def)

lemma del_poll: "run_turn sample_program (PollTurn False) del_seen = (Inr (), del_polled)"
proof -
  obtain f where "getFileByPath rc_ok \<lparr>rooted = False, segs = [''a'']\<rparr> sample_conn = (Inr (Some f), sample_conn)"
    "fr_global_id f = 1" by (rule del_row)
  then show ?thesis using del_path_facts
    by (simp add: del_seen_def sample_daemon_def q_push_def q_new_def polling_step_def collect_changes_def pg_hasChanges_def
        local_hasChanges_def pg_proccessChanges_def local_proccessChanges_def handle_event_def file_event_plain_def
        handleDeleted_def expected_miss andThen_def q_empty_def emit_def Let_def makeDelete_def make_eq db_call_def
        del_polled_def deleted_local_def stage_ids_def numeral_2_eq_2 del_change_def del_command_def head_command_def
        new_command_def)
qed

lemma del_process:
  "process_step (pg_stores sample_program) wait (pg_create sample_program) del_polled = (Inr (Some True), del_started)"
  by (simp add: del_started_def process_step_def del_polled_def sample_daemon_def q_pop_def handleChange_def
      deref_change_def deref_def del_change_def Change_def andThen_def query_def startChange_def dispatch_change_def
      dispatch_def Let_def change_getTargetType_def setOnComplete_def modify_change_def update_at_def cb_submit_def
      set_current_def q_push_def q_new_def del_command_def ac_increment_def deleted_local_def)

lemma del_callback:
  obtains w where "run_turn sample_program CallbackTurn del_started = (Inr (), w)" and "at_rest w"
    and "length (w_heap w) = 1" and "chain_commands (w_heap w ! 0) = []"
proof -
  obtain d where "delete_file_and_links rc_ok 1 sample_conn = (Inr (), d)"
    by (simp add: delete_file_and_links_def stmt_delete_file_and_links_def run_write_eq rc_ok_def)
  then show ?thesis using that
    by (simp add: cb_worker_step_def del_started_def sample_daemon_def q_pop_def completionCallback_def del_command_def
        andThen_def complete_LocalDelete_def Let_def pg_stores_def local_ops_def local_proccesDelete_def
        deleted_local_def db_call_def tell_owner_def notify_owner_def deref_def onCommandFinished_def del_change_def
        Change_def pg_onComplete_def onChangeCompleted_def continueChain_def needRepeat_def cb_decrement_def at_rest_def
        chain_commands_def q_new_def update_at_def)
qed


end
