(* ===== verification/Draining.thy ===== *)
theory Draining
  imports Completion
begin

text \<open>
  The daemon comes to rest between two polls. Every command is worth the most it can still cost:
  seven answers of its server and one callback for itself, and the same for the commands
  that follow it. Submitting, dispatching and completing only move this sum around; every
  answer and every callback takes one from it, and nothing but a poll adds to it. So the two
  workers have something to do for a bounded number of turns only, whatever is repeated,
  fails or waits as a dependent.
\<close>

subsection \<open>What is left to do\<close>

fun cost :: "command \<Rightarrow> nat" where
  "cost (Command k i d h ow ns) = 8 + sum_list (map cost ns)"

definition costs :: "command list \<Rightarrow> nat" where
  "costs cs = sum_list (map cost cs)"

definition tries :: "command \<Rightarrow> nat" where
  "tries c = (case cmd_handle c of Some h \<Rightarrow> h_retry h | None \<Rightarrow> 0)"

text \<open>A command waiting for its callback, and one whose request is under way.\<close>

definition callback_cost :: "command \<Rightarrow> nat" where
  "callback_cost c = 1 + costs (cmd_next c)"

definition request_cost :: "command \<Rightarrow> nat" where
  "request_cost c = 2 + (6 - tries c) + costs (cmd_next c)"

definition work_left :: "'s dsys_scheme \<Rightarrow> nat" where
  "work_left w =
     sum_list (map callback_cost (q_items (cb_queue w))) +
     sum_list (map request_cost (q_items (http_queue w) @ http_inflight w @ http_delayed w)) +
     sum_list (map (\<lambda>c. costs (chain_commands c)) (w_heap w))"

lemma costs_simps [simp]: "costs [] = 0" "costs (c # cs) = cost c + costs cs" "costs (cs @ ds) = costs cs + costs ds"
  by (simp_all add: costs_def)

lemma cost_next: "cost c = 8 + costs (cmd_next c)"
  by (cases c) (simp add: costs_def)

lemma request_le_cost: "request_cost c \<le> cost c"
  by (simp add: request_cost_def cost_next)

lemma callback_le_cost: "callback_cost c \<le> cost c"
  by (simp add: callback_cost_def cost_next)

lemma cost_skel: "skel c = skel c' \<Longrightarrow> cost c = cost c'"
proof (induction c arbitrary: c' rule: cost.induct)
  case (1 k i d h ow ns)
  obtain d' h' ns' where c': "c' = Command k i d' h' ow ns'" "map skel ns = map skel ns'"
    using "1.prems" by (cases c') auto
  have l: "length ns = length ns'" using c'(2) by (rule map_eq_imp_length_eq)
  have "map cost ns = map cost ns'"
  proof (rule nth_equalityI)
    show "map cost ns ! j = map cost ns' ! j" if "j < length (map cost ns)" for j
      using "1.IH" [of "ns ! j" "ns' ! j"] that l arg_cong [OF c'(2), of "\<lambda>xs. xs ! j"] by simp
  qed (use l in simp)
  then show ?case using c'(1) by (simp only: cost.simps)
qed

lemma next_skel: "skel c = skel c' \<Longrightarrow> costs (cmd_next c) = costs (cmd_next c')"
  using cost_skel [of c c'] by (simp add: cost_next)

text \<open>When nothing is left the workers are at rest.\<close>

lemma no_work_rest: "work_left w = 0 \<Longrightarrow> at_rest w"
  by (auto simp: work_left_def at_rest_def callback_cost_def request_cost_def)

subsection \<open>Actions with a credit\<close>

text \<open>
  \<open>pays k g m\<close>: with a credit of \<open>k\<close> on entry the action covers what it adds to the work, and has a
  credit of \<open>g x\<close> left when it returns \<open>x\<close>.
\<close>

definition pays :: "nat \<Rightarrow> ('a \<Rightarrow> nat) \<Rightarrow> ('s dsys_scheme, 'a) act \<Rightarrow> bool" where
  "pays k g m \<longleftrightarrow>
     (\<forall>w. case m w of
        (Inl e, w1) \<Rightarrow> work_left w1 \<le> work_left w + k
      | (Inr x, w1) \<Rightarrow> work_left w1 + g x \<le> work_left w + k)"

abbreviation thrifty :: "('s dsys_scheme, 'a) act \<Rightarrow> bool" where
  "thrifty \<equiv> pays 0 (\<lambda>_. 0)"

lemma paysI:
  "(\<And>w e w1. m w = (Inl e, w1) \<Longrightarrow> work_left w1 \<le> work_left w + k) \<Longrightarrow>
   (\<And>w x w1. m w = (Inr x, w1) \<Longrightarrow> work_left w1 + g x \<le> work_left w + k) \<Longrightarrow> pays k g m"
  unfolding pays_def by (simp split: prod.split sum.split)

lemma paysD:
  assumes "pays k g m"
  shows "m w = (Inr x, w1) \<Longrightarrow> work_left w1 + g x \<le> work_left w + k"
    "m w = (Inl e, w1) \<Longrightarrow> work_left w1 \<le> work_left w + k"
  using spec [OF assms [unfolded pays_def], of w] by simp_all

lemma pays_ret: "g x \<le> k \<Longrightarrow> pays k g (ret x)"
  by (simp add: pays_def)

lemma pays_throw: "pays k g (throw e)"
  by (simp add: pays_def)

lemma pays_andThen:
  assumes m: "pays k g m" and f: "\<And>x. pays (g x) h (f x)"
  shows "pays k h (andThen m f)"
proof (rule paysI)
  fix w e w2
  assume "andThen m f w = (Inl e, w2)"
  then consider "m w = (Inl e, w2)" | x w1 where "m w = (Inr x, w1)" "f x w1 = (Inl e, w2)"
    by (auto simp: andThen_def split: prod.splits sum.splits)
  then show "work_left w2 \<le> work_left w + k"
    by cases (use paysD [OF m] paysD [OF f] in \<open>blast intro: order_trans\<close>)+
next
  fix w y w2
  assume "andThen m f w = (Inr y, w2)"
  then obtain x w1 where "m w = (Inr x, w1)" "f x w1 = (Inr y, w2)"
    by (auto simp: andThen_def split: prod.splits sum.splits)
  then show "work_left w2 + h y \<le> work_left w + k"
    using paysD(1) [OF m] paysD(1) [OF f] by (blast intro: order_trans)
qed

lemma pays_less:
  assumes "pays k g m" and "k \<le> k'" and "\<And>x. g' x \<le> g x"
  shows "pays k' g' m"
proof (rule paysI)
  show "work_left w1 \<le> work_left w + k'" if "m w = (Inl e, w1)" for w e w1
    using paysD(2) [OF assms(1) that] assms(2) by linarith
  show "work_left w1 + g' x \<le> work_left w + k'" if "m w = (Inr x, w1)" for w x w1
    using paysD(1) [OF assms(1) that] assms(2) assms(3) [of x] by linarith
qed

lemma pays_frame:
  assumes "pays k g m"
  shows "pays (k + j) (\<lambda>x. g x + j) m"
proof (rule paysI)
  show "work_left w1 \<le> work_left w + (k + j)" if "m w = (Inl e, w1)" for w e w1
    using paysD(2) [OF assms that] by linarith
  show "work_left w1 + (g x + j) \<le> work_left w + (k + j)" if "m w = (Inr x, w1)" for w x w1
    using paysD(1) [OF assms that] by linarith
qed

lemma thrifty_frame: "thrifty m \<Longrightarrow> pays j (\<lambda>_. j) m"
  using pays_frame [of 0 "\<lambda>_. 0" m j] by simp

lemma thrifty_andThen [intro]: "thrifty m \<Longrightarrow> (\<And>x. thrifty (f x)) \<Longrightarrow> thrifty (andThen m f)"
  by (rule pays_andThen)

lemma pays_for_each:
  assumes "\<And>x. pays (k x) (\<lambda>_. g x) (f x)"
  shows "pays (sum_list (map k xs)) (\<lambda>_. sum_list (map g xs)) (for_each f xs)"
proof (induction xs)
  case Nil
  show ?case unfolding for_each.simps by (rule pays_ret) simp
next
  case (Cons x xs)
  have h: "pays (k x + sum_list (map k xs)) (\<lambda>_. g x + sum_list (map k xs)) (f x)"
    by (rule pays_frame [OF assms])
  have t: "pays (g x + sum_list (map k xs)) (\<lambda>_. g x + sum_list (map g xs)) (for_each f xs)"
    using pays_frame [OF Cons.IH, of "g x"] by (simp add: add.commute)
  show ?case unfolding for_each.simps list.map sum_list.Cons
    by (intro pays_andThen [OF h] pays_andThen [OF t] pays_ret) simp
qed

lemma thrifty_for_each [intro]:
  assumes "\<And>x. thrifty (f x)"
  shows "thrifty (for_each f xs)"
  using pays_for_each [of "\<lambda>_. 0" "\<lambda>_. 0" f xs] assms by simp

subsection \<open>Submitting and completing\<close>

lemma work_same: "same_work w w1 \<Longrightarrow> work_left w1 = work_left w"
  by (simp add: same_work_def work_left_def)

lemma quiet_work: "quiet m \<Longrightarrow> m w = (r, w1) \<Longrightarrow> work_left w1 = work_left w"
  by (rule work_same) (metis calm_def quiet_def snd_conv)

lemma quiet_thrifty: "quiet m \<Longrightarrow> thrifty m"
  by (rule paysI) (simp_all add: quiet_work)

lemma quiet_credit:
  assumes "quiet m" and "\<And>w x w1. m w = (Inr x, w1) \<Longrightarrow> g x \<le> k"
  shows "pays k g m"
proof (rule paysI)
  show "work_left w1 \<le> work_left w + k" if "m w = (Inl e, w1)" for w e w1
    using quiet_work [OF assms(1) that] by simp
  show "work_left w1 + g x \<le> work_left w + k" if "m w = (Inr x, w1)" for w x w1
    using quiet_work [OF assms(1) that] assms(2) [OF that] by simp
qed

lemma credit_lift: "pays k (\<lambda>_. k) (lift_res r)"
  by (cases r) (simp_all add: pays_def)

lemma pays_modify:
  assumes "\<And>w. work_left (f w) + g \<le> work_left w + k"
  shows "pays k (\<lambda>_. g) (modify f)"
  by (rule paysI) (use assms in \<open>auto simp: modify_def\<close>)

lemma cb_submit_callback: "pays (callback_cost c) (\<lambda>_. 0) (cb_submit c)"
  unfolding cb_submit_def
  by (rule pays_andThen [OF credit_lift], rule pays_modify) (simp add: work_left_def q_push_def)

lemma cb_submit_pays: "pays (cost c) (\<lambda>_. 0) (cb_submit c)"
  by (rule pays_less [OF cb_submit_callback callback_le_cost]) simp

lemma submit_all_pays:
  assumes "\<And>c. pays (cost c) (\<lambda>_. 0) (f c)"
  shows "pays (costs cs) (\<lambda>_. 0) (for_each f cs)"
  using pays_for_each [of cost "\<lambda>_. 0" f cs, OF assms] by (simp add: costs_def)

lemma notify_chain:
  assumes "notify_owner ow hp = (f, hp1)"
  shows "map chain_commands hp1 = map chain_commands hp"
proof -
  have "map chain_commands (update_at a (\<lambda>_. c1) hp) = map chain_commands hp"
    if "deref hp a = Some c" "onCommandFinished c = (f, c1)" for a c f c1
    using that onCommandFinished_fields(4) [of c] by (auto simp: update_at_def deref_def list_eq_iff_nth_eq nth_list_update chain_commands_def split: if_splits)
  then show ?thesis using assms by (auto simp: notify_owner_def split: option.splits prod.splits)
qed

lemma tell_owner_thrifty:
  assumes "\<And>p deps. thrifty (oc p deps)"
  shows "thrifty (tell_owner oc ow)"
proof -
  have v: "thrifty (case f of NotLast \<Rightarrow> ret () | NoCallback \<Rightarrow> throw BadFunctionCall | Fire p deps \<Rightarrow> oc p deps)" for f
    by (cases f) (simp_all add: assms pays_ret pays_throw)
  have h: "work_left (w\<lparr>w_heap := hp\<rparr>) = work_left w" if "notify_owner ow (w_heap w) = (f, hp)"
    for f hp and w :: "'a dsys_scheme"
  proof -
    have "map (\<lambda>c. costs (chain_commands c)) hp = map (\<lambda>c. costs (chain_commands c)) (w_heap w)"
      using arg_cong [OF notify_chain [OF that], of "map costs"] by (simp add: o_def)
    then show ?thesis by (simp add: work_left_def)
  qed
  have eq: "tell_owner oc ow w = (case fst (notify_owner ow (w_heap w)) of NotLast \<Rightarrow> ret ()
      | NoCallback \<Rightarrow> throw BadFunctionCall | Fire p deps \<Rightarrow> oc p deps) (w\<lparr>w_heap := snd (notify_owner ow (w_heap w))\<rparr>)"
    for w :: "'a dsys_scheme"
    by (simp add: tell_owner_def Let_def split: prod.split finished.split)
  show ?thesis
  proof (rule paysI)
    fix w e and w1 :: "'a dsys_scheme"
    assume "tell_owner oc ow w = (Inl e, w1)"
    from paysD(2) [OF v this [unfolded eq]] show "work_left w1 \<le> work_left w + 0"
      by (simp add: h [OF surjective_pairing])
  next
    fix w x and w1 :: "'a dsys_scheme"
    assume "tell_owner oc ow w = (Inr x, w1)"
    from paysD(1) [OF v this [unfolded eq]] show "work_left w1 + 0 \<le> work_left w + 0"
      by (simp add: h [OF surjective_pairing])
  qed
qed

context storage_contract
begin

lemma http_submit_pays: "pays (cost c) (\<lambda>_. 0) (http_submit stores c)"
  unfolding http_submit_def
proof (rule pays_andThen [OF credit_lift], rule pays_andThen)
  have "quiet (\<lambda>w. execute (stores (cmd_id c)) (w_h0 w) c w)"
    using quiet_execute [of "cmd_id c" _ c] by (simp add: quiet_def)
  then show "pays (cost c) cost (\<lambda>w. execute (stores (cmd_id c)) (w_h0 w) c w)"
    by (rule quiet_credit) (simp add: cost_skel [OF execute_skel])
  show "pays (cost c1) (\<lambda>_. 0) (if \<not> has_curl c1 then ret ()
          else modify (\<lambda>w. w\<lparr>http_active := ac_increment (http_active w), http_queue := q_push c1 (http_queue w)\<rparr>))" for c1
    using request_le_cost [of c1] by (auto intro!: pays_ret pays_modify simp: work_left_def q_push_def)
qed

lemma continueChain_pays: "pays (costs (cmd_next c)) (\<lambda>_. 0) (continueChain stores c)"
  unfolding continueChain_def
  by (intro pays_andThen [OF submit_all_pays] pays_ret) (simp_all add: http_submit_pays cb_submit_pays)

lemma completionCallback_pays:
  assumes "\<And>p deps. thrifty (oc p deps)"
  shows "pays (costs (cmd_next c)) (\<lambda>_. 0) (completionCallback stores oc c)"
  unfolding completionCallback_def
proof (rule pays_andThen)
  show "pays (costs (cmd_next c)) (\<lambda>c1. costs (cmd_next c1)) (completion (stores (cmd_id c)) c)"
    by (rule quiet_credit [OF quiet_completion]) (simp add: next_skel [OF conjunct1 [OF completion_spec]] completion_spec)
  show "pays (costs (cmd_next c1)) (\<lambda>_. 0) (andThen (tell_owner oc (cmd_owner c1)) (\<lambda>_. continueChain stores c1))" for c1
    by (intro pays_andThen [OF thrifty_frame [OF tell_owner_thrifty]] assms continueChain_pays)
qed

text \<open>A callback takes one from the work.\<close>

lemma cb_worker_pays:
  assumes "\<And>p deps. thrifty (oc p deps)"
  shows "pays 0 (\<lambda>x. if x = Some True then 1 else 0) (cb_worker_step stores oc)"
proof -
  let ?g = "\<lambda>x :: bool option. if x = Some True then 1 else (0 :: nat)"
  let ?m = "\<lambda>c. andThen (lift_res (getTarget c))
            (\<lambda>_. andThen (completionCallback stores oc c)
            (\<lambda>_. andThen (if needRepeat c then http_submit stores c else ret ())
            (\<lambda>_. andThen cb_decrement (\<lambda>_. ret (Some True)))))"
  have m: "pays (callback_cost c) ?g (?m c)" for c
  proof (rule pays_andThen [OF credit_lift], rule pays_andThen)
    show "pays (callback_cost c) (\<lambda>_. 1) (completionCallback stores oc c)"
      using pays_frame [OF completionCallback_pays [OF assms], of c 1] by (simp add: callback_cost_def)
    have d: "pays 1 (\<lambda>_. 1) (cb_decrement :: ('s ssys_scheme, unit) act)"
      unfolding cb_decrement_def by (rule pays_modify) (simp add: work_left_def)
    show "pays 1 ?g (andThen (if needRepeat c then http_submit stores c else ret ())
        (\<lambda>_. andThen cb_decrement (\<lambda>_. ret (Some True))))"
      by (simp only: needRepeat_def if_False) (intro pays_andThen [OF pays_ret [of "\<lambda>_. 1"]] pays_andThen [OF d] pays_ret; simp)
  qed
  have w: "work_left w = work_left (w\<lparr>cb_queue := q\<rparr>) + callback_cost c" if "q_pop (cb_queue w) = (Got c, q)"
    for q c and w :: "'s ssys_scheme"
    using q_pop_got [OF that] by (simp add: work_left_def)
  have eq: "cb_worker_step stores oc w = (case q_pop (cb_queue w) of
      (WouldBlock, q) \<Rightarrow> ret None w | (PopClosed, q) \<Rightarrow> ret (Some False) w | (Got c, q) \<Rightarrow> ?m c (w\<lparr>cb_queue := q\<rparr>))" for w
    by (simp only: cb_worker_step_def)
  show ?thesis
  proof (rule paysI)
    fix w e w1
    assume "cb_worker_step stores oc w = (Inl e, w1)"
    then obtain c q where "q_pop (cb_queue w) = (Got c, q)" "?m c (w\<lparr>cb_queue := q\<rparr>) = (Inl e, w1)"
      unfolding eq by (auto simp: ret_def simp del: act_simps andThen_basic split: prod.splits popped.splits)
    then show "work_left w1 \<le> work_left w + 0" using w paysD(2) [OF m] by fastforce
  next
    fix w x w1
    assume s: "cb_worker_step stores oc w = (Inr x, w1)"
    show "work_left w1 + ?g x \<le> work_left w + 0"
    proof (cases "\<exists>c q. q_pop (cb_queue w) = (Got c, q)")
      case True
      then obtain c q where "q_pop (cb_queue w) = (Got c, q)" "?m c (w\<lparr>cb_queue := q\<rparr>) = (Inr x, w1)"
        using s unfolding eq by auto
      then show ?thesis using w paysD(1) [OF m] by fastforce
    next
      case False
      then show ?thesis
        using s unfolding eq by (auto simp: ret_def simp del: act_simps andThen_basic split: prod.splits popped.splits)
    qed
  qed
qed

end

subsection \<open>The requests\<close>

lemma admit_work: "work_left (http_admit n w) \<le> work_left w"
proof (induction n w rule: http_admit.induct)
  case (1 w)
  show ?case by simp
next
  case (2 n w)
  obtain r q where p: "q_try_pop (http_queue w) = (r, q)" by fastforce
  show ?case
  proof (cases r)
    case None
    then show ?thesis using p by simp
  next
    case (Some c)
    have i: "q_items (http_queue w) = c # q_items q" by (rule q_try_pop_got [OF p [unfolded Some]])
    have "work_left (http_add c (w\<lparr>http_queue := q\<rparr>)) = work_left w"
      by (simp add: i work_left_def http_add_def)
    moreover have "work_left (w\<lparr>http_queue := q\<rparr>) \<le> work_left w" by (simp add: i work_left_def)
    ultimately show ?thesis using "2.IH" [OF p [symmetric] Some] by (auto simp: http_admit.simps p Some)
  qed
qed

lemma take_work:
  assumes "http_take w = Some w1"
  shows "work_left w1 \<le> work_left w"
proof (cases "ac_idle (http_active w)")
  case False
  then show ?thesis using assms admit_work [of "Suc (length (q_items (http_queue w)))" w]
    by (simp add: http_take_def del: http_admit.simps)
next
  case True
  obtain r q where p: "q_pop (http_queue w) = (r, q)" by fastforce
  have "work_left (http_add c (w\<lparr>http_queue := q\<rparr>)) = work_left w" if "r = Got c" for c
    using q_pop_got [OF p [unfolded that]] by (simp add: work_left_def http_add_def)
  then show ?thesis using assms True p by (cases r) (auto simp: http_take_def)
qed

lemma sum_list_pick: "i < length xs \<Longrightarrow> sum_list (map f (take i xs @ drop (Suc i) xs)) + f (xs ! i) = sum_list (map f xs)"
  for f :: "'a \<Rightarrow> nat"
  using arg_cong [OF id_take_nth_drop [of i xs], of "\<lambda>xs. sum_list (map f xs)"] by simp

lemma sum_list_filter: "sum_list (map f (filter P xs)) + sum_list (map f (filter (\<lambda>x. \<not> P x) xs)) = sum_list (map f xs)"
  for f :: "'a \<Rightarrow> nat"
  by (induction xs) auto

lemma check_work: "work_left (checkDelayedRequests now w) = work_left w"
  using sum_list_filter [of request_cost "is_due now" "http_delayed w"]
  by (simp add: work_left_def checkDelayedRequests_def q_push_all_items)

lemma decrement_work [simp]: "work_left (http_decrement w) = work_left w"
  by (simp add: work_left_def http_decrement_def)

lemma deliver_retry: "deliver body h = (h1, fl) \<Longrightarrow> h_retry h1 = h_retry h"
  by (auto simp: deliver_def Let_def writeCallback_def split: option.splits if_splits prod.splits)

lemma cmd_with_handle [simp]: "cmd_next (with_handle h c) = cmd_next c" "tries (with_handle h c) = h_retry h"
  by (cases c; simp add: tries_def)+

text \<open>An answer takes one from the work, whatever it is.\<close>

lemma message_pays: "pays 0 (\<lambda>_. 1) (http_message i a)"
proof -
  let ?v = "\<lambda>c1 h1. case classify (an_ok a) (an_code a) of
       CurlFailed \<Rightarrow> modify http_decrement
     | HttpFailed \<Rightarrow> modify http_decrement
     | RetryLater \<Rightarrow>
         (\<lambda>w :: 'a dsys_scheme. case scheduleRetry (an_jitter a) (an_now a) h1 of
            (Inl e, h2) \<Rightarrow> throw e w
          | (Inr _, h2) \<Rightarrow> ret () (w\<lparr>http_delayed := http_delayed w @ [with_handle h2 c1]\<rparr>))
     | Succeeded \<Rightarrow> andThen (cb_submit c1) (\<lambda>_. modify http_decrement)"
  have v: "pays (request_cost c1) (\<lambda>_. 1) (?v c1 h1)" if t: "tries c1 = h_retry h1" for c1 h1
  proof (cases "classify (an_ok a) (an_code a)")
    case RetryLater
    have "request_cost (with_handle h2 c1) + 1 \<le> request_cost c1"
      if "scheduleRetry (an_jitter a) (an_now a) h1 = (Inr u, h2)" for u h2
      using scheduleRetry_Inr [OF that] unfolding request_cost_def cmd_with_handle t by arith
    then show ?thesis using RetryLater
      by (auto intro!: paysI simp: work_left_def split: prod.splits sum.splits)
  next
    case Succeeded
    have "callback_cost c1 + 1 \<le> request_cost c1" by (simp add: callback_cost_def request_cost_def)
    then have "pays (request_cost c1) (\<lambda>_. 1) (cb_submit c1 :: ('a dsys_scheme, unit) act)"
      by (intro pays_less [OF pays_frame [OF cb_submit_callback, of c1 1]]) simp_all
    then show ?thesis using Succeeded by (auto intro!: pays_andThen pays_modify)
  qed (auto intro!: pays_modify simp: request_cost_def)
  have f: "\<exists>c1 h1 w2. tries c1 = h_retry h1 \<and> work_left w2 + request_cost c1 \<le> work_left w \<and>
      http_message i a w = andThen (lift_res (getTarget c1)) (\<lambda>_. ?v c1 h1) w2"
    if "i < length (http_inflight w)" for w
  proof -
    let ?c = "http_inflight w ! i"
    obtain h1 fl where d: "deliver (an_body a) (case cmd_handle ?c of Some h \<Rightarrow> h | None \<Rightarrow> w_h0 w) = (h1, fl)"
      by fastforce
    let ?c1 = "with_handle h1 ?c"
    let ?w1 = "w\<lparr>http_inflight := take i (http_inflight w) @ drop (Suc i) (http_inflight w),
                 w_fs := (case fl of None \<Rightarrow> w_fs w | Some (p, s) \<Rightarrow> set_file p s (w_fs w))\<rparr>"
    have "tries ?c \<le> h_retry h1" using deliver_retry [OF d] by (simp add: tries_def split: option.splits)
    then have "request_cost ?c1 \<le> request_cost ?c" by (simp add: request_cost_def)
    then have "work_left ?w1 + request_cost ?c1 \<le> work_left w"
      using sum_list_pick [OF that, of request_cost] by (simp add: work_left_def)
    moreover have "http_message i a w = andThen (lift_res (getTarget ?c1)) (\<lambda>_. ?v ?c1 h1) ?w1"
      using that d by (simp add: http_message_def Let_def)
    ultimately show ?thesis by (intro exI [of _ ?c1] exI [of _ h1] exI [of _ ?w1]) simp
  qed
  note g = pays_andThen [OF credit_lift v]
  show ?thesis
  proof (rule paysI)
    fix w e and w1 :: "'a dsys_scheme"
    assume m: "http_message i a w = (Inl e, w1)"
    show "work_left w1 \<le> work_left w + 0"
    proof (cases "i < length (http_inflight w)")
      case True
      from f [OF this] m show ?thesis using paysD(2) [OF g] by fastforce
    qed (use m in \<open>simp add: http_message_def\<close>)
  next
    fix w x and w1 :: "'a dsys_scheme"
    assume m: "http_message i a w = (Inr x, w1)"
    then have "i < length (http_inflight w)" by (auto simp: http_message_def split: if_splits)
    from f [OF this] m show "work_left w1 + 1 \<le> work_left w + 0" using paysD(1) [OF g] by fastforce
  qed
qed

lemma http_worker_pays:
  "pays 0 (\<lambda>x. if x = Some True then length messages else 0) (http_worker_step curl_ok messages now)"
proof -
  let ?g = "\<lambda>x :: bool option. if x = Some True then length messages else 0"
  have e: "pays 0 (\<lambda>_. length messages) (for_each (\<lambda>(i, a). http_message i a :: ('a dsys_scheme, unit) act) messages)"
  proof -
    have "pays 0 (\<lambda>_. 1) ((\<lambda>(i, a). http_message i a :: ('a dsys_scheme, unit) act) m)" for m
      by (cases m) (simp only: prod.case message_pays)
    from pays_for_each [of "\<lambda>_. 0" "\<lambda>_. 1", OF this] show ?thesis by (simp add: sum_list_triv)
  qed
  have m: "pays 0 ?g (andThen (for_each (\<lambda>(i, a). http_message i a :: ('a dsys_scheme, unit) act) messages)
      (\<lambda>_. andThen (modify (checkDelayedRequests now)) (\<lambda>_. ret (Some True))))"
    by (intro pays_andThen [OF e] pays_andThen [OF pays_modify [of _ "length messages"]] pays_ret) (simp_all add: check_work)
  show ?thesis
  proof (rule paysI)
    fix w e and w1 :: "'a dsys_scheme"
    assume s: "http_worker_step curl_ok messages now w = (Inl e, w1)"
    then obtain w2 where t: "http_take w = Some w2" by (auto simp: http_worker_step_def split: if_splits option.splits)
    show "work_left w1 \<le> work_left w + 0"
      using s t take_work [OF t] paysD(2) [OF m, of w2 e w1] by (auto simp: http_worker_step_def split: if_splits)
  next
    fix w x and w1 :: "'a dsys_scheme"
    assume s: "http_worker_step curl_ok messages now w = (Inr x, w1)"
    show "work_left w1 + ?g x \<le> work_left w + 0"
    proof (cases "http_take w")
      case None
      then show ?thesis using s by (auto simp: http_worker_step_def split: if_splits)
    next
      case (Some w2)
      then show ?thesis using s take_work [OF Some] paysD(1) [OF m, of w2 x w1]
        by (auto simp: http_worker_step_def split: if_splits)
    qed
  qed
qed

subsection \<open>The changes\<close>

text \<open>\<open>dispatch\<close> pays for the commands out of the chain it empties.\<close>

context storage_contract
begin

lemma dispatch_thrifty: "thrifty (dispatch_change stores a)"
proof -
  have d: "\<exists>r w1. dispatch_change stores a w = andThen (lift_res r) (\<lambda>to. andThen (case to of
        Inl cmds \<Rightarrow> for_each cb_submit cmds | Inr cmds \<Rightarrow> for_each (http_submit stores) cmds) (\<lambda>_. ret ())) w1 \<and>
      work_left w1 + (case r of Inl e \<Rightarrow> 0 | Inr to \<Rightarrow> costs (case to of Inl cs \<Rightarrow> cs | Inr cs \<Rightarrow> cs)) \<le> work_left w"
    if h: "deref (w_heap w) a = Some c" for c and w :: "'s ssys_scheme"
  proof -
    obtain r c1 where r: "dispatch c = (r, c1)" by fastforce
    let ?w1 = "w\<lparr>w_heap := update_at a (\<lambda>_. c1) (w_heap w)\<rparr>"
    have a: "a < length (w_heap w)" "w_heap w ! a = c" using h by (auto simp: deref_def split: if_splits)
    have c1: "chain_commands c1 = []" using r by (auto elim!: dispatch_cases simp: chain_commands_def o_def)
    let ?f = "\<lambda>c. costs (chain_commands c)"
    have "sum_list (map ?f (update_at a (\<lambda>_. c1) (w_heap w))) + ?f c = sum_list (map ?f (w_heap w))"
      using sum_list_pick [OF a(1), of ?f] a c1 by (simp add: update_at_def upd_conv_take_nth_drop)
    then have "work_left ?w1 + ?f c \<le> work_left w" by (simp add: work_left_def)
    moreover have "(case r of Inl e \<Rightarrow> 0 | Inr to \<Rightarrow> costs (case to of Inl cs \<Rightarrow> cs | Inr cs \<Rightarrow> cs)) \<le> ?f c"
      using r by (auto elim!: dispatch_cases)
    moreover have "dispatch_change stores a w = andThen (lift_res r) (\<lambda>to. andThen (case to of
        Inl cmds \<Rightarrow> for_each cb_submit cmds | Inr cmds \<Rightarrow> for_each (http_submit stores) cmds) (\<lambda>_. ret ())) ?w1"
      using h r by (simp add: dispatch_change_def deref_change_def andThen_def modify_change_def)
    ultimately show ?thesis by (intro exI [of _ r] exI [of _ ?w1] conjI) simp_all
  qed
  have g: "pays (costs (case to of Inl cs \<Rightarrow> cs | Inr cs \<Rightarrow> cs)) (\<lambda>_. 0) (andThen (case to of
        Inl cmds \<Rightarrow> for_each cb_submit cmds | Inr cmds \<Rightarrow> for_each (http_submit stores) cmds)
        (\<lambda>_. ret () :: ('s ssys_scheme, unit) act))" for to
    by (cases to; simp only: sum.case; intro pays_andThen [OF submit_all_pays] pays_ret; simp add: cb_submit_pays http_submit_pays)
  have l: "pays (case r of Inl e \<Rightarrow> 0 | Inr to \<Rightarrow> k to) (\<lambda>_. 0) (andThen (lift_res r) f)"
    if "\<And>to. pays (k to) (\<lambda>_. 0) (f to)" for r :: "(command list + command list) res" and k
      and f :: "command list + command list \<Rightarrow> ('s ssys_scheme, unit) act"
    using that by (cases r) (simp_all add: pays_def)
  have n: "deref (w_heap w) a \<noteq> None" if "dispatch_change stores a w = (Inr x, w1)" for w x w1
    using that by (auto simp: dispatch_change_def deref_change_def andThen_def split: option.splits)
  have none: "work_left w1 = work_left w" if "dispatch_change stores a w = (q, w1)" "deref (w_heap w) a = None" for w q w1
    using that by (simp add: dispatch_change_def deref_change_def andThen_def)
  show ?thesis
  proof (rule paysI)
    fix w e w1
    assume s: "dispatch_change stores a w = (Inl e, w1)"
    show "work_left w1 \<le> work_left w + 0"
    proof (cases "deref (w_heap w) a")
      case None
      then show ?thesis using none [OF s] by simp
    next
      case (Some c)
      from d [OF this] obtain q w2 where
        e: "dispatch_change stores a w = andThen (lift_res q) (\<lambda>to. andThen (case to of
          Inl cmds \<Rightarrow> for_each cb_submit cmds | Inr cmds \<Rightarrow> for_each (http_submit stores) cmds) (\<lambda>_. ret ())) w2"
        "work_left w2 + (case q of Inl e \<Rightarrow> 0 | Inr to \<Rightarrow> costs (case to of Inl cs \<Rightarrow> cs | Inr cs \<Rightarrow> cs)) \<le> work_left w"
        by blast
      from paysD(2) [OF l [OF g] s [unfolded e(1)]] e(2) show ?thesis by linarith
    qed
  next
    fix w x w1
    assume s: "dispatch_change stores a w = (Inr x, w1)"
    then obtain c where "deref (w_heap w) a = Some c" using n by blast
    from d [OF this] obtain q w2 where
      e: "dispatch_change stores a w = andThen (lift_res q) (\<lambda>to. andThen (case to of
        Inl cmds \<Rightarrow> for_each cb_submit cmds | Inr cmds \<Rightarrow> for_each (http_submit stores) cmds) (\<lambda>_. ret ())) w2"
      "work_left w2 + (case q of Inl e \<Rightarrow> 0 | Inr to \<Rightarrow> costs (case to of Inl cs \<Rightarrow> cs | Inr cs \<Rightarrow> cs)) \<le> work_left w"
      by blast
    from paysD(1) [OF l [OF g] s [unfolded e(1)]] e(2) show "work_left w1 + 0 \<le> work_left w + 0" by linarith
  qed
qed

end

lemma setter_thrifty:
  assumes "\<And>c. chain_commands (g c) = chain_commands c"
  shows "thrifty (modify_change a g)"
proof -
  have "map (\<lambda>c. costs (chain_commands c)) (update_at a g hp) = map (\<lambda>c. costs (chain_commands c)) hp" for hp
    by (auto simp: update_at_def list_eq_iff_nth_eq nth_list_update assms)
  then show ?thesis unfolding modify_change_def by (intro pays_modify) (simp add: work_left_def)
qed

lemma setters_thrifty: "thrifty (modify_change a (setOnComplete p))" "thrifty (modify_change a (addDependent b))"
  by (rule setter_thrifty; simp add: setOnComplete_def addDependent_def)+

text \<open>What a run relies on: the wait of the process loop and \<open>createPath\<close> make no work either.\<close>

locale thrifty_env = storage_contract stores for stores :: "int \<Rightarrow> ('s ssys_scheme) storage_ops" +
  fixes wait :: "('s ssys_scheme, unit) act"
    and create_in :: "int \<Rightarrow> path \<Rightarrow> path \<Rightarrow> ('s ssys_scheme, file_record_dto list) act"
  assumes wait_thrifty: "thrifty wait"
    and create_thrifty: "thrifty (create_in i p missing)"
begin

lemma sm_createPath_thrifty: "thrifty (sm_createPath wait create_in p missing)"
  unfolding sm_createPath_def Let_def
  by (intro thrifty_andThen thrifty_for_each wait_thrifty create_thrifty quiet_thrifty [OF local_createPath_quiet]
      quiet_thrifty [OF quiet_syncDbWrite(3)] quiet_thrifty [OF quiet_link] quiet_thrifty [OF quiet_ret(1)]
      quiet_thrifty [OF quiet_ret(4)])

lemma ensure_path_thrifty: "thrifty (ensure_path wait create_in p)"
  unfolding ensure_path_def
  by (rule thrifty_andThen [OF quiet_thrifty [OF quiet_getMissing]])
     (simp add: sm_createPath_thrifty quiet_thrifty quiet_ret)

lemma set_current_thrifty: "thrifty (modify (\<lambda>w. w\<lparr>sm_current := f w\<rparr>))"
  by (rule pays_modify) (simp add: work_left_def)

lemma startChange_thrifty: "thrifty (startChange stores p a)"
  unfolding startChange_def
  by (intro thrifty_andThen setters_thrifty set_current_thrifty dispatch_thrifty)

lemma handleChange_thrifty: "thrifty (handleChange stores wait create_in a)"
proof -
  have b: "thrifty (case cur of None \<Rightarrow>
              andThen (if ch_type c = New then ensure_path wait create_in (parent_path (ch_path c)) else ret ())
                (\<lambda>_. startChange stores (ch_path c) a)
            | Some b \<Rightarrow> modify_change b (addDependent a))" for cur c
    by (cases cur) (auto intro!: thrifty_andThen ensure_path_thrifty startChange_thrifty setters_thrifty
        pays_ret simp del: act_simps)
  show ?thesis unfolding handleChange_def Let_def
    by (rule thrifty_andThen [OF quiet_thrifty [OF quiet_deref]], rule thrifty_andThen [OF quiet_thrifty [OF quiet_ret(3)]])
       (simp add: ensure_path_thrifty thrifty_andThen [OF quiet_thrifty [OF quiet_ret(4)] b])
qed

lemma onChangeCompleted_thrifty: "thrifty (onChangeCompleted stores wait create_in p deps)"
  unfolding onChangeCompleted_def
  by (intro thrifty_andThen set_current_thrifty thrifty_for_each handleChange_thrifty pays_ret) simp

lemma process_step_thrifty: "thrifty (process_step stores wait create_in)"
proof -
  have g: "thrifty (andThen (handleChange stores wait create_in a) (\<lambda>_. ret (Some True)))" for a
    by (intro thrifty_andThen handleChange_thrifty pays_ret) simp
  have w: "work_left (w\<lparr>sm_buff := q\<rparr>) = work_left w" for w :: "'s ssys_scheme" and q
    by (simp add: work_left_def)
  show ?thesis
  proof (rule paysI)
    fix w e w1
    assume "process_step stores wait create_in w = (Inl e, w1)"
    then obtain a q where "andThen (handleChange stores wait create_in a) (\<lambda>_. ret (Some True)) (w\<lparr>sm_buff := q\<rparr>) = (Inl e, w1)"
      by (auto simp: process_step_def ret_def simp del: act_simps andThen_basic split: prod.splits popped.splits)
    from paysD(2) [OF g this] w show "work_left w1 \<le> work_left w + 0" by simp
  next
    fix w x w1
    assume s: "process_step stores wait create_in w = (Inr x, w1)"
    obtain r q where p: "q_pop (sm_buff w) = (r, q)" by fastforce
    show "work_left w1 + 0 \<le> work_left w + 0"
    proof (cases r)
      case (Got a)
      then have "andThen (handleChange stores wait create_in a) (\<lambda>_. ret (Some True)) (w\<lparr>sm_buff := q\<rparr>) = (Inr x, w1)"
        using s p by (simp add: process_step_def)
      from paysD(1) [OF g this] w show ?thesis by simp
    qed (use s p in \<open>auto simp: process_step_def\<close>)
  qed
qed

end

subsection \<open>Runs between two polls\<close>

text \<open>How many answers and callbacks a turn handled: those of a worker that found something to do.\<close>

fun handled :: "'j program \<Rightarrow> turn \<Rightarrow> ('j, 's) csys_scheme \<Rightarrow> nat" where
  "handled P CallbackTurn w = (if fst (cb_worker_step (pg_stores P) (pg_onComplete P) w) = Inr (Some True) then 1 else 0)"
| "handled P (HttpTurn curl_ok messages now) w =
     (if fst (http_worker_step curl_ok messages now w) = Inr (Some True) then length messages else 0)"
| "handled P _ w = 0"

fun is_poll :: "turn \<Rightarrow> bool" where
  "is_poll (PollTurn due) \<longleftrightarrow> True"
| "is_poll _ \<longleftrightarrow> False"

definition unpolled_wait :: "'j program \<Rightarrow> (('j, 's) csys_scheme \<Rightarrow> turn list) \<Rightarrow> (('j, 's) csys_scheme, unit) act" where
  "unpolled_wait P sched = pg_wait P (\<lambda>w. filter (\<lambda>t. \<not> is_poll t) (sched w))"

text \<open>The runs without a poll, with the number of answers and callbacks handled.\<close>

inductive unpolled :: "'j program \<Rightarrow> ('j, 's) csys_scheme \<Rightarrow> nat \<Rightarrow> ('j, 's) csys_scheme \<Rightarrow> bool" for P w where
  start: "unpolled P w 0 w"
| thread: "unpolled P w n w1 \<Longrightarrow> \<not> is_poll t \<Longrightarrow> run_turn P t w1 = (Inr (), w2) \<Longrightarrow>
    unpolled P w (n + handled P t w1) w2"
| processor: "unpolled P w n w1 \<Longrightarrow>
    process_step (pg_stores P) (unpolled_wait P sched) (pg_create P) w1 = (Inr r, w2) \<Longrightarrow> unpolled P w n w2"

lemma unpolled_is_run: "unpolled P w n w1 \<Longrightarrow> daemon_reach P w w1"
proof (induction rule: unpolled.induct)
  case (processor n w1 sched r w2)
  then show ?case unfolding unpolled_wait_def by (blast intro: daemon_reach.step daemon_step.processor)
qed (blast intro: daemon_reach.intros daemon_step.thread)+

lemma create_thrifty: "thrifty (pg_create P i p missing)"
  by (auto simp: pg_create_def split: option.split cloud_provider_type.split
      intro!: quiet_thrifty quiet_ret gd_createPath_quiet dx_createPath_quiet)

lemma callback_pays:
  "pays 0 (\<lambda>x. if x = Some True then 1 else 0)
     (cb_worker_step (pg_stores P) (pg_onComplete P) :: (('j, 's) csys_scheme, bool option) act)"
proof -
  have "thrifty_env (pg_stores P :: int \<Rightarrow> (('j, 's) csys_scheme) storage_ops) worker_wait (pg_create P)"
    using prog.storage_contract_axioms
    by (simp add: thrifty_env_def thrifty_env_axioms_def worker_wait_def pays_throw create_thrifty)
  then show ?thesis
    unfolding pg_onComplete_def by (rule prog.cb_worker_pays [OF thrifty_env.onChangeCompleted_thrifty])
qed

lemma turn_work:
  assumes "\<not> is_poll t" and "run_turn P t w = (Inr (), w1)"
  shows "work_left w1 + handled P t w \<le> work_left w"
proof (cases t)
  case CallbackTurn
  then obtain x where x: "cb_worker_step (pg_stores P) (pg_onComplete P) w = (Inr x, w1)"
    using assms(2) by (auto simp: andThen_ok)
  from paysD(1) [OF callback_pays this] show ?thesis by (simp add: x CallbackTurn split: if_splits)
next
  case (HttpTurn curl_ok messages now)
  then obtain x where x: "http_worker_step curl_ok messages now w = (Inr x, w1)"
    using assms(2) by (auto simp: andThen_ok)
  from paysD(1) [OF http_worker_pays this] show ?thesis by (simp add: x HttpTurn split: if_splits)
next
  case (PollTurn due)
  then show ?thesis using assms(1) by simp
next
  case (WatchTurn canon evt)
  then show ?thesis using assms(2) quiet_work [OF onFsEvent_quiet, of canon evt w] by simp
next
  case (UserTurn f)
  then show ?thesis using assms(2) by (auto simp: work_left_def)
qed

lemma turn_thrifty: "\<not> is_poll t \<Longrightarrow> thrifty (run_turn P t)"
proof (cases t)
  case CallbackTurn
  show ?thesis unfolding CallbackTurn run_turn.simps
    by (intro pays_andThen [OF pays_less [OF callback_pays, of 0 "\<lambda>_. 0"]] pays_ret) simp_all
next
  case (HttpTurn curl_ok messages now)
  show ?thesis unfolding HttpTurn run_turn.simps
    by (intro pays_andThen [OF pays_less [OF http_worker_pays, of 0 "\<lambda>_. 0"]] pays_ret) simp_all
next
  case (WatchTurn canon evt)
  show ?thesis unfolding WatchTurn run_turn.simps by (rule quiet_thrifty [OF onFsEvent_quiet])
next
  case (UserTurn f)
  show ?thesis unfolding UserTurn run_turn.simps by (rule pays_modify) (simp add: work_left_def)
qed simp

lemma wait_thrifty: "thrifty (unpolled_wait P sched :: (('j, 's) csys_scheme, unit) act)"
proof -
  let ?idle = "\<lambda>w1 :: ('j, 's) csys_scheme. if ac_idle (cb_active w1) then ret () w1 else throw Diverges w1"
  have "quiet ?idle" by (simp add: quiet_def cm.R_refl)
  then have i: "thrifty ?idle" by (rule quiet_thrifty)
  have "thrifty (for_each (run_turn P) (filter (\<lambda>t. \<not> is_poll t) ts) :: (('j, 's) csys_scheme, unit list) act)" for ts
    by (induction ts) (auto intro!: thrifty_andThen turn_thrifty pays_ret simp del: act_simps andThen_basic run_turn.simps)
  then have g: "thrifty (andThen (for_each (run_turn P) (filter (\<lambda>t. \<not> is_poll t) ts)) (\<lambda>_. ?idle))" for ts
    by (rule thrifty_andThen) (rule i)
  show ?thesis
    by (rule paysI) (use paysD [OF g] in \<open>auto simp: unpolled_wait_def pg_wait_def simp del: act_simps andThen_basic\<close>)
qed

interpretation unpolled: thrifty_env "pg_stores P" "unpolled_wait P sched" "pg_create P"
  by unfold_locales (rule wait_thrifty create_thrifty)+

text \<open>
  C5. The daemon comes to rest: between two polls the answers of servers and the callbacks the
  workers handle are bounded by what is left to do at the start, seven answers and a
  callback for every command anywhere (those handled while the process loop waits come out of
  the same sum); whatever the servers answer, however often they ask
  to retry, in whatever order the threads run and whatever the user does meanwhile.
\<close>

theorem daemon_drains:
  assumes "unpolled P w n w1"
  shows "n + work_left w1 \<le> work_left w"
  using assms
proof (induction rule: unpolled.induct)
  case start
  show ?case by simp
next
  case (thread n w1 t w2)
  then show ?case using turn_work [OF thread.hyps(2,3)] by simp
next
  case (processor n w1 sched r w2)
  from paysD(1) [OF unpolled.process_step_thrifty processor.hyps(2)] processor.IH show ?case by simp
qed

text \<open>
  The deletion of the sample: one change with one command for the local side, worth eight
  units; after a step of the process loop and one callback the daemon is at rest.
\<close>

theorem daemon_drains_witness:
  "\<exists>w. unpolled sample_program del_polled 1 w \<and> at_rest w \<and> 1 + work_left w \<le> 8"
proof -
  obtain w where w: "run_turn sample_program CallbackTurn del_started = (Inr (), w)" "at_rest w"
    "length (w_heap w) = 1" "chain_commands (w_heap w ! 0) = []" by (rule del_callback)
  have h: "handled sample_program CallbackTurn del_started = 1"
    using w(1) by (auto simp: andThen_ok cb_worker_step_def del_started_def sample_daemon_def q_pop_def split: if_splits)
  have "unpolled sample_program del_polled 0 del_started"
    by (rule unpolled.processor [OF unpolled.start del_process [of "unpolled_wait sample_program (\<lambda>_. [])"]])
  from unpolled.thread [OF this _ w(1)] have r: "unpolled sample_program del_polled 1 w" by (simp add: h del: handled.simps)
  have "work_left del_polled = 8"
    by (simp add: work_left_def del_polled_def sample_daemon_def q_new_def chain_commands_def del_change_def
        Change_def del_command_def)
  then show ?thesis using daemon_drains [OF r] r w(2) by auto
qed

end
