(* ===== verification/Undisturbed.thy ===== *)
theory Undisturbed
  imports Completion
begin

text \<open>
  Most of what the threads do leaves the changes, the table of the running ones and the queue of
  the process loop as they are: submitting and answering requests, and whatever is quiet.
\<close>

definition undisturbed :: "'s ssys_scheme \<Rightarrow> 's ssys_scheme \<Rightarrow> bool" where
  "undisturbed w w1 \<longleftrightarrow> w_heap w1 = w_heap w \<and> sm_current w1 = sm_current w \<and> sm_buff w1 = sm_buff w"

interpretation ud: step_rel undisturbed
  by unfold_locales (simp_all add: undisturbed_def)

lemma calm_und: "calm w w1 \<Longrightarrow> undisturbed w w1"
  by (simp add: calm_def same_work_def undisturbed_def)

lemma quiet_und: "quiet m \<Longrightarrow> undisturbed w (snd (m w))"
  by (simp add: quiet_def calm_und)

lemma undI: "w_heap w1 = w_heap w \<Longrightarrow> sm_current w1 = sm_current w \<Longrightarrow> sm_buff w1 = sm_buff w \<Longrightarrow> undisturbed w w1"
  by (simp add: undisturbed_def)

subsection \<open>Commands and requests\<close>

lemma modify_und:
  assumes "\<And>w. w_heap (f w) = w_heap w" and "\<And>w. sm_current (f w) = sm_current w" and "\<And>w. sm_buff (f w) = sm_buff w"
  shows "undisturbed w (snd (modify f w))"
  by (simp add: undI assms)

lemma cb_submit_und: "undisturbed w (snd (cb_submit c w))"
  unfolding cb_submit_def by (intro ud.R_andThen ud.R_basic modify_und) simp_all

context storage_contract
begin

lemma http_submit_und: "undisturbed w (snd (http_submit stores c w))"
proof -
  have q: "quiet (\<lambda>w. execute (stores (cmd_id c)) (w_h0 w) c w)"
    using quiet_execute [of "cmd_id c" _ c] by (simp add: quiet_def)
  show ?thesis unfolding http_submit_def
    by (intro ud.R_andThen ud.R_basic quiet_und [OF q]) (auto simp: ud.R_refl undI)
qed

lemma submit_all_und:
  "undisturbed w (snd (for_each (http_submit stores) cs w))" "undisturbed w (snd (for_each cb_submit cs w))"
  by (rule ud.R_for_each, rule http_submit_und cb_submit_und)+

lemma continueChain_und: "undisturbed w (snd (continueChain stores c w))"
  unfolding continueChain_def by (cases "is_local (cmd_kind c)") (simp_all add: ud.R_andThen submit_all_und ud.R_basic del: act_simps)

end

lemma admit_und: "undisturbed w (http_admit n w)"
proof (induction n w rule: http_admit.induct)
  case (2 n w)
  obtain r q where p: "q_try_pop (http_queue w) = (r, q)" by fastforce
  have "undisturbed w (http_add c (w\<lparr>http_queue := q\<rparr>))" for c by (simp add: undI http_add_def)
  then show ?case using "2.IH" [OF p [symmetric]] p
    by (cases r) (auto simp: ud.R_refl undI intro: ud.R_trans)
qed (simp add: ud.R_refl)

lemma take_und: "http_take w = Some w1 \<Longrightarrow> undisturbed w w1"
  by (auto simp: http_take_def http_add_def undI ud.R_refl split: if_splits prod.splits popped.splits
      intro: admit_und simp del: http_admit.simps)

lemma decrement_und: "undisturbed w (http_decrement w)"
  by (simp add: undI http_decrement_def)

lemma message_und:
  fixes w :: "'s ssys_scheme"
  shows "undisturbed w (snd (http_message i a w))"
proof -
  have v: "undisturbed w (snd (andThen (lift_res t) (\<lambda>_. case classify (an_ok a) (an_code a) of
                 CurlFailed \<Rightarrow> modify http_decrement
               | HttpFailed \<Rightarrow> modify http_decrement
               | RetryLater \<Rightarrow>
                   (\<lambda>w. case scheduleRetry (an_jitter a) (an_now a) h1 of
                      (Inl e, h2) \<Rightarrow> throw e w
                    | (Inr _, h2) \<Rightarrow> ret () (w\<lparr>http_delayed := http_delayed w @ [with_handle h2 c1]\<rparr>))
               | Succeeded \<Rightarrow> andThen (cb_submit c1) (\<lambda>_. modify http_decrement)) w2))"
    if "undisturbed w w2" for t h1 c1 and w2 :: "'s ssys_scheme"
  proof (rule ud.R_trans [OF that], rule ud.R_andThen, rule ud.R_basic(4))
    fix w1
    show "undisturbed w1 (snd ((case classify (an_ok a) (an_code a) of
                 CurlFailed \<Rightarrow> modify http_decrement
               | HttpFailed \<Rightarrow> modify http_decrement
               | RetryLater \<Rightarrow>
                   (\<lambda>w. case scheduleRetry (an_jitter a) (an_now a) h1 of
                      (Inl e, h2) \<Rightarrow> throw e w
                    | (Inr _, h2) \<Rightarrow> ret () (w\<lparr>http_delayed := http_delayed w @ [with_handle h2 c1]\<rparr>))
               | Succeeded \<Rightarrow> andThen (cb_submit c1) (\<lambda>_. modify http_decrement)) w1))"
      by (cases "classify (an_ok a) (an_code a)")
         (auto intro!: ud.R_andThen cb_submit_und decrement_und simp: ud.R_refl undI split: prod.split sum.split
           simp del: andThen_basic)
  qed
  show ?thesis unfolding http_message_def Let_def
    by (auto intro!: v simp: ud.R_refl undI split: prod.split simp del: andThen_basic)
qed

lemma http_worker_und: "undisturbed w (snd (http_worker_step curl_ok messages now w))"
proof (cases "http_take w")
  case (Some w1)
  have "undisturbed w1 (snd (andThen (for_each (\<lambda>(i, a). http_message i a) messages)
      (\<lambda>_. andThen (modify (checkDelayedRequests now)) (\<lambda>_. ret (Some True))) w1))"
    by (intro ud.R_andThen ud.R_for_each modify_und ud.R_basic)
       (auto simp: message_und checkDelayedRequests_def)
  then show ?thesis using take_und [OF Some] Some
    by (auto simp: http_worker_step_def ud.R_refl simp del: andThen_basic intro: ud.R_trans)
qed (simp add: http_worker_step_def ud.R_refl)

end
