(* ===== verification/OnePerPath.thy ===== *)
theory OnePerPath
  imports Undisturbed
begin

text \<open>
  At most one change per path: what \<open>_current_changes\<close> of \<open>SyncManager\<close> is for. A change is
  under way once it has been started and as long as it has commands to finish. The table has
  an entry for the path of each such change, and it leads to that change, so two changes of
  one path are never under way together. The table is looked up before the wait for missing
  directories and written after it; the invariant needs that no other thread starts a change
  in between.
\<close>

subsection \<open>Changes under way\<close>

definition under_way :: "'s lsys_scheme \<Rightarrow> nat \<Rightarrow> bool" where
  "under_way w a \<longleftrightarrow>
     a < length (w_heap w) \<and> ch_on_complete (w_heap w ! a) \<noteq> None \<and> 0 < ch_pending (w_heap w ! a)"

definition alone :: "'s ssys_scheme \<Rightarrow> bool" where
  "alone w \<longleftrightarrow>
     (\<forall>a < length (w_heap w). \<forall>p. ch_on_complete (w_heap w ! a) = Some p \<longrightarrow>
        p = ch_path (w_heap w ! a) \<and> (0 < ch_pending (w_heap w ! a) \<longrightarrow> map_of (sm_current w) (ch_path (w_heap w ! a)) = Some a))"

lemma alone_entry:
  assumes "alone w" and "under_way w a"
  shows "map_of (sm_current w) (ch_path (w_heap w ! a)) = Some a"
  using assms unfolding alone_def under_way_def by blast

lemma alone_unique:
  assumes "alone w" and "under_way w a" and "under_way w b" and "ch_path (w_heap w ! a) = ch_path (w_heap w ! b)"
  shows "a = b"
  using alone_entry [OF assms(1,2)] alone_entry [OF assms(1,3)] unfolding assms(4) by (simp only: option.inject)

text \<open>Changes stay on the heap and keep their path.\<close>

definition older :: "'s lsys_scheme \<Rightarrow> 's lsys_scheme \<Rightarrow> bool" where
  "older w w1 \<longleftrightarrow>
     length (w_heap w) \<le> length (w_heap w1) \<and>
     (\<forall>a < length (w_heap w). ch_path (w_heap w1 ! a) = ch_path (w_heap w ! a))"

lemma older_trans: "older w w1 \<Longrightarrow> older w1 w2 \<Longrightarrow> older w w2"
  by (simp add: older_def)

definition keeps_alone :: "'s ssys_scheme \<Rightarrow> 's ssys_scheme \<Rightarrow> bool" where
  "keeps_alone w w1 \<longleftrightarrow> (alone w \<longrightarrow> alone w1) \<and> older w w1"

text \<open>A step that starts nothing: no path gets an entry.\<close>

definition starts_none :: "'s ssys_scheme \<Rightarrow> 's ssys_scheme \<Rightarrow> bool" where
  "starts_none w w1 \<longleftrightarrow>
     keeps_alone w w1 \<and> (\<forall>p. map_of (sm_current w) p = None \<longrightarrow> map_of (sm_current w1) p = None)"

definition face :: "change \<Rightarrow> path option \<times> int \<times> path" where
  "face c = (ch_on_complete c, ch_pending c, ch_path c)"

definition same_faces :: "'s ssys_scheme \<Rightarrow> 's ssys_scheme \<Rightarrow> bool" where
  "same_faces w w1 \<longleftrightarrow> map face (w_heap w1) = map face (w_heap w) \<and> sm_current w1 = sm_current w"

interpretation ka: step_rel keeps_alone
  by unfold_locales (auto simp: keeps_alone_def older_def)

interpretation sn: step_rel starts_none
  by unfold_locales (auto simp: starts_none_def elim: ka.R_trans intro: ka.R_refl)

interpretation sf: step_rel same_faces
  by unfold_locales (auto simp: same_faces_def)

lemma faces_nth: "map face hp1 = map face hp \<Longrightarrow> a < length hp \<Longrightarrow> face (hp1 ! a) = face (hp ! a)"
  by (metis length_map nth_map)

lemma faces_starts_none: "same_faces w w1 \<Longrightarrow> starts_none w w1"
proof -
  assume s: "same_faces w w1"
  then have l: "length (w_heap w1) = length (w_heap w)" by (auto simp: same_faces_def dest: map_eq_imp_length_eq)
  have f: "face (w_heap w1 ! a) = face (w_heap w ! a)" if "a < length (w_heap w)" for a
    by (rule faces_nth [OF _ that]) (use s in \<open>simp add: same_faces_def\<close>)
  have c: "sm_current w1 = sm_current w" using s by (simp add: same_faces_def)
  have "alone w1" if "alone w"
    unfolding alone_def
  proof (intro allI impI)
    fix a p assume "a < length (w_heap w1)" "ch_on_complete (w_heap w1 ! a) = Some p"
    then have e: "a < length (w_heap w)" "ch_on_complete (w_heap w ! a) = Some p"
      "ch_path (w_heap w1 ! a) = ch_path (w_heap w ! a)" "ch_pending (w_heap w1 ! a) = ch_pending (w_heap w ! a)"
      using f [of a] l by (simp_all add: face_def)
    then show "p = ch_path (w_heap w1 ! a) \<and>
        (0 < ch_pending (w_heap w1 ! a) \<longrightarrow> map_of (sm_current w1) (ch_path (w_heap w1 ! a)) = Some a)"
      using that e(1,2) unfolding alone_def c e(3,4) by blast
  qed
  moreover have "older w w1" using l f by (simp add: older_def face_def)
  ultimately show ?thesis using c by (simp add: starts_none_def keeps_alone_def)
qed

lemma starts_none_keeps: "starts_none w w1 \<Longrightarrow> keeps_alone w w1"
  by (simp add: starts_none_def)

lemma faces_keeps: "same_faces w w1 \<Longrightarrow> keeps_alone w w1"
  by (simp add: faces_starts_none starts_none_keeps)

lemma und_faces: "undisturbed w w1 \<Longrightarrow> same_faces w w1"
  by (simp add: undisturbed_def same_faces_def)

lemma quiet_faces: "quiet m \<Longrightarrow> same_faces w (snd (m w))"
  by (rule und_faces [OF quiet_und])

lemma untouched_faces: "w_heap w1 = w_heap w \<Longrightarrow> sm_current w1 = sm_current w \<Longrightarrow> same_faces w w1"
  by (simp add: same_faces_def)

subsection \<open>Commands and requests\<close>

lemma modify_change_faces:
  assumes "\<And>c. deref (w_heap w) a = Some c \<Longrightarrow> face (g c) = face c"
  shows "same_faces w (snd (modify_change a g w))"
  using assms
  by (auto simp: modify_change_def same_faces_def update_at_def deref_def list_eq_iff_nth_eq nth_list_update split: if_splits)

lemma dispatch_face: "dispatch c = (r, c1) \<Longrightarrow> face c1 = face c"
  by (auto elim!: dispatch_cases simp: face_def)

context storage_contract
begin

lemma dispatch_change_faces: "same_faces w (snd (dispatch_change stores a w))"
proof (cases "deref (w_heap w) a")
  case None
  then show ?thesis by (simp add: dispatch_change_def deref_change_def andThen_def sf.R_refl)
next
  case (Some c)
  obtain r c1 where d: "dispatch c = (r, c1)" by fastforce
  have "dispatch_change stores a w = andThen (modify_change a (\<lambda>_. c1)) (\<lambda>_. andThen (lift_res r)
      (\<lambda>to. andThen (case to of Inl cmds \<Rightarrow> for_each cb_submit cmds | Inr cmds \<Rightarrow> for_each (http_submit stores) cmds)
        (\<lambda>_. ret ()))) w"
    using Some d by (simp add: dispatch_change_def deref_change_def)
  also have "same_faces w (snd \<dots>)"
    by (intro sf.R_andThen sf.R_basic modify_change_faces)
       (use Some dispatch_face [OF d] in \<open>auto intro: und_faces submit_all_und split: sum.split\<close>)
  finally show ?thesis .
qed

end

subsection \<open>Starting and completing a change\<close>

lemma map_of_without: "map_of (filter (\<lambda>e. fst e \<noteq> p) xs) q = (if q = p then None else map_of xs q)"
  by (induction xs) auto

lemma alone_start:
  assumes w: "alone w" and a: "a < length (w_heap w)" "ch_path (w_heap w ! a) = p" and p: "map_of (sm_current w) p = None"
  shows "alone (w\<lparr>w_heap := update_at a (setOnComplete p) (w_heap w), sm_current := set_current p a (sm_current w)\<rparr>)"
    (is "alone ?w")
  unfolding alone_def
proof (intro allI impI)
  fix b q
  assume b: "b < length (w_heap ?w)" "ch_on_complete (w_heap ?w ! b) = Some q"
  show "q = ch_path (w_heap ?w ! b) \<and>
      (0 < ch_pending (w_heap ?w ! b) \<longrightarrow> map_of (sm_current ?w) (ch_path (w_heap ?w ! b)) = Some b)"
  proof (cases "b = a")
    case True
    have h: "w_heap ?w ! b = setOnComplete p (w_heap w ! a)" using True a(1) by (simp add: update_at_def)
    have "q = p" using b(2) unfolding h by (simp add: setOnComplete_def)
    moreover have "map_of (sm_current ?w) p = Some b" using True by (simp add: set_current_def)
    ultimately show ?thesis unfolding h using a(2) by (simp add: setOnComplete_def)
  next
    case False
    have h: "w_heap ?w ! b = w_heap w ! b" using False a(1) by (simp add: update_at_def)
    have l: "b < length (w_heap w)" using b(1) by simp
    have o: "q = ch_path (w_heap w ! b) \<and>
        (0 < ch_pending (w_heap w ! b) \<longrightarrow> map_of (sm_current w) (ch_path (w_heap w ! b)) = Some b)"
      using w l b(2) unfolding alone_def h by blast
    have "map_of (sm_current ?w) q = map_of (sm_current w) q" if "q \<noteq> p"
      using that by (simp add: set_current_def map_of_without)
    then show ?thesis using o p unfolding h by (cases "q = p") simp_all
  qed
qed

context storage_contract
begin

lemma startChange_alone:
  fixes w :: "'s ssys_scheme"
  assumes "a < length (w_heap w)" and "ch_path (w_heap w ! a) = p" and "map_of (sm_current w) p = None"
  shows "keeps_alone w (snd (startChange stores p a w))"
proof -
  let ?w = "w\<lparr>w_heap := update_at a (setOnComplete p) (w_heap w), sm_current := set_current p a (sm_current w)\<rparr>"
  have "startChange stores p a w = dispatch_change stores a ?w"
    by (simp add: startChange_def modify_change_def)
  moreover have "keeps_alone ?w (snd (dispatch_change stores a ?w))"
    by (rule faces_keeps [OF dispatch_change_faces])
  moreover have "keeps_alone w ?w"
    using alone_start [OF _ assms] by (auto simp: keeps_alone_def older_def update_at_def nth_list_update setOnComplete_def)
  ultimately show ?thesis using ka.R_trans by simp
qed

end

text \<open>No change under way has the path: its entry may be removed.\<close>

definition path_free :: "path \<Rightarrow> 's ssys_scheme \<Rightarrow> bool" where
  "path_free p w \<longleftrightarrow>
     (\<forall>a < length (w_heap w). ch_on_complete (w_heap w ! a) = Some p \<longrightarrow> \<not> 0 < ch_pending (w_heap w ! a))"

lemma alone_remove:
  assumes "alone w" and "path_free p w"
  shows "alone (w\<lparr>sm_current := filter (\<lambda>e. fst e \<noteq> p) (sm_current w)\<rparr>)"
  unfolding alone_def
proof (intro allI impI)
  fix a q
  assume a: "a < length (w_heap (w\<lparr>sm_current := filter (\<lambda>e. fst e \<noteq> p) (sm_current w)\<rparr>))"
    "ch_on_complete (w_heap (w\<lparr>sm_current := filter (\<lambda>e. fst e \<noteq> p) (sm_current w)\<rparr>) ! a) = Some q"
  then have l: "a < length (w_heap w)" "ch_on_complete (w_heap w ! a) = Some q" by simp_all
  have o: "q = ch_path (w_heap w ! a) \<and>
      (0 < ch_pending (w_heap w ! a) \<longrightarrow> map_of (sm_current w) (ch_path (w_heap w ! a)) = Some a)"
    using assms(1) l unfolding alone_def by blast
  have f: "q \<noteq> p" if "0 < ch_pending (w_heap w ! a)"
    using assms(2) l that unfolding path_free_def by blast
  have "map_of (filter (\<lambda>e. fst e \<noteq> p) (sm_current w)) q = map_of (sm_current w) q" if "q \<noteq> p"
    using that by (simp only: map_of_without if_False)
  then show "q = ch_path (w_heap (w\<lparr>sm_current := filter (\<lambda>e. fst e \<noteq> p) (sm_current w)\<rparr>) ! a) \<and>
      (0 < ch_pending (w_heap (w\<lparr>sm_current := filter (\<lambda>e. fst e \<noteq> p) (sm_current w)\<rparr>) ! a) \<longrightarrow>
       map_of (sm_current (w\<lparr>sm_current := filter (\<lambda>e. fst e \<noteq> p) (sm_current w)\<rparr>))
         (ch_path (w_heap (w\<lparr>sm_current := filter (\<lambda>e. fst e \<noteq> p) (sm_current w)\<rparr>) ! a)) = Some a)"
    using o f by simp
qed

text \<open>When the last command of a change is finished, its path is free and goes to the callback.\<close>

lemma notify_alone:
  assumes w: "alone w" and n: "notify_owner ow (w_heap w) = (f, hp)"
  shows "alone (w\<lparr>w_heap := hp\<rparr>)" and "older w (w\<lparr>w_heap := hp\<rparr>)"
    and "f = Fire p deps \<Longrightarrow> path_free p (w\<lparr>w_heap := hp\<rparr>)"
proof -
  have fin: "\<exists>a c. ow = Some a \<and> a < length (w_heap w) \<and> w_heap w ! a = c \<and>
      hp = update_at a (\<lambda>_. snd (onCommandFinished c)) (w_heap w) \<and> f = fst (onCommandFinished c)"
    if "\<not> (hp = w_heap w \<and> f = NotLast)"
    using n that by (auto simp: notify_owner_def deref_def split: option.splits prod.splits if_splits)
  have face: "ch_on_complete (snd (onCommandFinished c)) = ch_on_complete c" "ch_path (snd (onCommandFinished c)) = ch_path c"
    "ch_pending (snd (onCommandFinished c)) = ch_pending c - 1" for c
    by (simp_all add: onCommandFinished_def Let_def split: option.split)
  have at: "ch_on_complete (hp ! b) = ch_on_complete (w_heap w ! b) \<and> ch_path (hp ! b) = ch_path (w_heap w ! b) \<and>
      ch_pending (hp ! b) \<le> ch_pending (w_heap w ! b) \<and> length hp = length (w_heap w)" for b
  proof (cases "hp = w_heap w")
    case False
    then obtain a c where "a < length (w_heap w)" "w_heap w ! a = c" "hp = update_at a (\<lambda>_. snd (onCommandFinished c)) (w_heap w)"
      using fin by blast
    then show ?thesis by (cases "b = a") (simp_all add: update_at_def face)
  qed simp
  show "alone (w\<lparr>w_heap := hp\<rparr>)"
    unfolding alone_def
  proof (intro allI impI)
    fix b q
    assume "b < length (w_heap (w\<lparr>w_heap := hp\<rparr>))" "ch_on_complete (w_heap (w\<lparr>w_heap := hp\<rparr>) ! b) = Some q"
    then have "b < length (w_heap w)" "ch_on_complete (w_heap w ! b) = Some q" using at [of b] by simp_all
    then have "q = ch_path (w_heap w ! b) \<and>
        (0 < ch_pending (w_heap w ! b) \<longrightarrow> map_of (sm_current w) (ch_path (w_heap w ! b)) = Some b)"
      using w unfolding alone_def by blast
    then show "q = ch_path (w_heap (w\<lparr>w_heap := hp\<rparr>) ! b) \<and>
        (0 < ch_pending (w_heap (w\<lparr>w_heap := hp\<rparr>) ! b) \<longrightarrow>
         map_of (sm_current (w\<lparr>w_heap := hp\<rparr>)) (ch_path (w_heap (w\<lparr>w_heap := hp\<rparr>) ! b)) = Some b)"
      using at [of b] by simp
  qed
  show "older w (w\<lparr>w_heap := hp\<rparr>)" using at by (simp add: older_def)
  assume f: "f = Fire p deps"
  then obtain a where a: "a < length (w_heap w)" "hp = update_at a (\<lambda>_. snd (onCommandFinished (w_heap w ! a))) (w_heap w)"
    "fst (onCommandFinished (w_heap w ! a)) = Fire p deps" using fin by auto
  then have c: "ch_pending (w_heap w ! a) = 1" "ch_on_complete (w_heap w ! a) = Some p"
    by (auto simp: onCommandFinished_def Let_def split: if_splits option.splits)
  then have "p = ch_path (w_heap w ! a) \<and> map_of (sm_current w) (ch_path (w_heap w ! a)) = Some a"
    using w a(1) unfolding alone_def by force
  then have cur: "map_of (sm_current w) p = Some a" by simp
  show "path_free p (w\<lparr>w_heap := hp\<rparr>)"
    unfolding path_free_def
  proof (intro allI impI notI)
    fix b
    assume b: "b < length (w_heap (w\<lparr>w_heap := hp\<rparr>))" "ch_on_complete (w_heap (w\<lparr>w_heap := hp\<rparr>) ! b) = Some p"
      "0 < ch_pending (w_heap (w\<lparr>w_heap := hp\<rparr>) ! b)"
    then have "b < length (w_heap w)" "ch_on_complete (w_heap w ! b) = Some p" "0 < ch_pending (w_heap w ! b)"
      using at [of b] by simp_all
    then have "p = ch_path (w_heap w ! b) \<and> map_of (sm_current w) (ch_path (w_heap w ! b)) = Some b"
      using w unfolding alone_def by blast
    then have "map_of (sm_current w) p = Some b" by simp
    then have "b = a" using cur by simp
    then show False using b(3) a(1) c(1) by (simp add: a(2) update_at_def face)
  qed
qed

lemma quiet_starts: "quiet m \<Longrightarrow> starts_none w (snd (m w))"
  by (rule faces_starts_none [OF quiet_faces])

text \<open>What the wait and \<open>createPath\<close> have to guarantee.\<close>

locale polite_env = storage_contract stores for stores :: "int \<Rightarrow> ('s ssys_scheme) storage_ops" +
  fixes wait :: "('s ssys_scheme, unit) act"
    and create_in :: "int \<Rightarrow> path \<Rightarrow> path \<Rightarrow> ('s ssys_scheme, file_record_dto list) act"
  assumes wait_polite: "starts_none w (snd (wait w))"
    and create_polite: "starts_none w (snd (create_in i p missing w))"
begin

lemma ensure_path_polite: "starts_none w (snd (ensure_path wait create_in p w))"
proof -
  have c: "starts_none w (snd (sm_createPath wait create_in p missing w))" for missing w
    unfolding sm_createPath_def Let_def
    by (intro sn.R_andThen sn.R_for_each wait_polite create_polite sn.R_basic
        quiet_starts [OF local_createPath_quiet] quiet_starts [OF quiet_syncDbWrite(3)] quiet_starts [OF quiet_link])
  show ?thesis unfolding ensure_path_def
    by (rule sn.R_andThen [OF quiet_starts [OF quiet_getMissing]]) (auto simp: c sn.R_refl)
qed

lemma handleChange_alone: "keeps_alone w (snd (handleChange stores wait create_in a w))"
proof (cases "deref (w_heap w) a")
  case None
  then show ?thesis by (simp add: handleChange_def deref_change_def andThen_def ka.R_refl)
next
  case (Some c)
  let ?p = "ch_path c"
  have a: "a < length (w_heap w)" "ch_path (w_heap w ! a) = ?p" using Some by (auto simp: deref_def split: if_splits)
  let ?new = "if ch_type c = New then ensure_path wait create_in (parent_path ?p) else ret ()"
  have new: "starts_none w (snd (?new w))" by (simp add: ensure_path_polite sn.R_refl)
  have start: "keeps_alone w (snd (andThen ?new (\<lambda>_. startChange stores ?p a) w))" if "map_of (sm_current w) ?p = None"
  proof (rule ka.R_andThen)
    show "keeps_alone w (snd (?new w))" by (rule starts_none_keeps [OF new])
    fix x w1 assume "?new w = (Inr x, w1)"
    then have "starts_none w w1" using new by simp
    then show "keeps_alone w1 (snd (startChange stores ?p a w1))"
      using a that by (intro startChange_alone) (auto simp: starts_none_def keeps_alone_def older_def)
  qed
  have "keeps_alone w (snd ((if et = Directory \<and> ch_type c = New then ensure_path wait create_in ?p
             else andThen (query (\<lambda>w. map_of (sm_current w) ?p))
               (\<lambda>cur. case cur of
                  None \<Rightarrow> andThen ?new (\<lambda>_. startChange stores ?p a)
                | Some b \<Rightarrow> modify_change b (addDependent a))) w))" for et
  proof (cases "et = Directory \<and> ch_type c = New")
    case True
    then show ?thesis by (simp add: starts_none_keeps [OF ensure_path_polite])
  next
    case False
    have "keeps_alone w (snd (modify_change b (addDependent a) w))" for b
      by (rule faces_keeps [OF modify_change_faces]) (simp add: face_def addDependent_def)
    then show ?thesis unfolding if_not_P [OF False] using start
      by (cases "map_of (sm_current w) ?p") (simp_all add: andThen_def query_def)
  qed
  moreover have "handleChange stores wait create_in a w = andThen (lift_res (change_getTargetType c))
      (\<lambda>et. if et = Directory \<and> ch_type c = New then ensure_path wait create_in ?p
             else andThen (query (\<lambda>w. map_of (sm_current w) ?p))
               (\<lambda>cur. case cur of
                  None \<Rightarrow> andThen ?new (\<lambda>_. startChange stores ?p a)
                | Some b \<Rightarrow> modify_change b (addDependent a))) w"
    using Some by (simp add: handleChange_def deref_change_def Let_def)
  ultimately show ?thesis by (cases "change_getTargetType c") (simp_all add: ka.R_refl)
qed

lemma onChangeCompleted_alone:
  assumes "alone w" and "path_free p w"
  shows "keeps_alone w (snd (onChangeCompleted stores wait create_in p deps w))"
proof -
  let ?w = "w\<lparr>sm_current := filter (\<lambda>e. fst e \<noteq> p) (sm_current w)\<rparr>"
  have "keeps_alone w ?w" using alone_remove [OF assms] by (simp add: keeps_alone_def older_def)
  moreover have "keeps_alone ?w (snd (andThen (for_each (handleChange stores wait create_in) deps) (\<lambda>_. ret ()) ?w))"
    by (intro ka.R_andThen ka.R_for_each handleChange_alone ka.R_basic)
  moreover have "onChangeCompleted stores wait create_in p deps w =
      andThen (for_each (handleChange stores wait create_in) deps) (\<lambda>_. ret ()) ?w"
    by (simp add: onChangeCompleted_def)
  ultimately show ?thesis using ka.R_trans by simp
qed

lemma process_step_alone: "keeps_alone w (snd (process_step stores wait create_in w))"
proof -
  have g: "keeps_alone w (snd (andThen (handleChange stores wait create_in a) (\<lambda>_. ret (Some True)) (w\<lparr>sm_buff := q\<rparr>)))" for a q
  proof (rule ka.R_trans [OF faces_keeps [OF untouched_faces]])
    show "keeps_alone (w\<lparr>sm_buff := q\<rparr>) (snd (andThen (handleChange stores wait create_in a) (\<lambda>_. ret (Some True)) (w\<lparr>sm_buff := q\<rparr>)))"
      by (intro ka.R_andThen handleChange_alone ka.R_basic)
  qed simp_all
  obtain r q where p: "q_pop (sm_buff w) = (r, q)" by fastforce
  then show ?thesis using g [of _ q]
    by (cases r) (simp_all add: process_step_def ka.R_refl del: andThen_basic)
qed

lemma tell_owner_alone: "keeps_alone w (snd (tell_owner (onChangeCompleted stores wait create_in) ow w))"
proof -
  obtain f hp where n: "notify_owner ow (w_heap w) = (f, hp)" by fastforce
  let ?w = "w\<lparr>w_heap := hp\<rparr>"
  have old: "older w ?w"
  proof (cases ow)
    case (Some a)
    then show ?thesis using n
      by (auto simp: notify_owner_def older_def deref_def update_at_def nth_list_update onCommandFinished_def Let_def
          split: if_splits option.splits)
  qed (use n in \<open>simp add: notify_owner_def older_def\<close>)
  have eq: "tell_owner (onChangeCompleted stores wait create_in) ow w =
      (case f of NotLast \<Rightarrow> ret () ?w | NoCallback \<Rightarrow> throw BadFunctionCall ?w
       | Fire p deps \<Rightarrow> onChangeCompleted stores wait create_in p deps ?w)"
    by (simp add: tell_owner_def n Let_def split: finished.split)
  have "alone (snd (onChangeCompleted stores wait create_in p deps ?w))" if "alone w" "f = Fire p deps" for p deps
    using onChangeCompleted_alone [OF notify_alone(1,3) [OF that(1) n]] that notify_alone(1) [OF that(1) n]
    by (auto simp: keeps_alone_def)
  moreover have "older ?w (snd (onChangeCompleted stores wait create_in p deps ?w))" for p deps
  proof -
    let ?v = "?w\<lparr>sm_current := filter (\<lambda>e. fst e \<noteq> p) (sm_current ?w)\<rparr>"
    let ?go = "andThen (for_each (handleChange stores wait create_in) deps) (\<lambda>_. ret ())"
    have e: "onChangeCompleted stores wait create_in p deps ?w = ?go ?v" by (simp add: onChangeCompleted_def)
    have "keeps_alone ?v (snd (?go ?v))" by (intro ka.R_andThen ka.R_for_each handleChange_alone ka.R_basic)
    then have "older ?v (snd (?go ?v))" unfolding keeps_alone_def by blast
    moreover have "older ?w ?v" by (simp add: older_def)
    ultimately show ?thesis unfolding e by (blast intro: older_trans)
  qed
  ultimately show ?thesis using notify_alone(1) [OF _ n] old older_trans [OF old]
    unfolding keeps_alone_def eq by (cases f; simp only: finished.case; auto)
qed

lemma cb_worker_alone: "keeps_alone w (snd (cb_worker_step stores (onChangeCompleted stores wait create_in) w))"
proof -
  let ?m = "\<lambda>c. andThen (lift_res (getTarget c))
            (\<lambda>_. andThen (completionCallback stores (onChangeCompleted stores wait create_in) c)
            (\<lambda>_. andThen (if needRepeat c then http_submit stores c else ret ())
            (\<lambda>_. andThen cb_decrement (\<lambda>_. ret (Some True)))))"
  have cc: "keeps_alone v (snd (completionCallback stores (onChangeCompleted stores wait create_in) c v))" for c v
    unfolding completionCallback_def
    by (intro ka.R_andThen tell_owner_alone faces_keeps [OF und_faces [OF continueChain_und]] faces_keeps [OF quiet_faces [OF quiet_completion]])
  have m: "keeps_alone w (snd (?m c (w\<lparr>cb_queue := q\<rparr>)))" for c q
  proof (rule ka.R_trans [OF faces_keeps [OF untouched_faces]])
    show "keeps_alone (w\<lparr>cb_queue := q\<rparr>) (snd (?m c (w\<lparr>cb_queue := q\<rparr>)))"
      unfolding needRepeat_def if_False cb_decrement_def
      by (intro ka.R_andThen cc ka.R_basic faces_keeps [OF und_faces [OF modify_und]]) simp_all
  qed simp_all
  obtain r q where p: "q_pop (cb_queue w) = (r, q)" by fastforce
  show ?thesis
  proof (cases r)
    case (Got c)
    then have "cb_worker_step stores (onChangeCompleted stores wait create_in) w = ?m c (w\<lparr>cb_queue := q\<rparr>)"
      by (simp only: cb_worker_step_def p prod.case popped.case)
    then show ?thesis using m [of c q] by (simp only:)
  qed (use p in \<open>simp_all add: cb_worker_step_def ka.R_refl\<close>)
qed

end

subsection \<open>The other threads\<close>

lemma emit_starts_none: "starts_none w (snd (emit (\<lambda>clouds. make_change (g clouds) ini ks ty tm p d src) w))"
proof -
  obtain c where c: "snd (emit (\<lambda>clouds. make_change (g clouds) ini ks ty tm p d src) w) =
      w\<lparr>w_heap := w_heap w @ [c], ls_changes := q_push (length (w_heap w)) (ls_changes w)\<rparr>" "ch_on_complete c = None"
    by (simp add: emit_def make_eq Let_def Change_def)
  have "alone (snd (emit (\<lambda>clouds. make_change (g clouds) ini ks ty tm p d src) w))" if "alone w"
    unfolding alone_def c(1)
  proof (intro allI impI)
    fix a p
    let ?w = "w\<lparr>w_heap := w_heap w @ [c], ls_changes := q_push (length (w_heap w)) (ls_changes w)\<rparr>"
    assume h: "a < length (w_heap ?w)" "ch_on_complete (w_heap ?w ! a) = Some p"
    then have l: "a < length (w_heap w)" using c(2) by (cases "a = length (w_heap w)") simp_all
    then have e: "w_heap ?w ! a = w_heap w ! a" "sm_current ?w = sm_current w" by (simp_all add: nth_append)
    show "p = ch_path (w_heap ?w ! a) \<and>
        (0 < ch_pending (w_heap ?w ! a) \<longrightarrow> map_of (sm_current ?w) (ch_path (w_heap ?w ! a)) = Some a)"
      using that l h(2) unfolding alone_def e by blast
  qed
  then show ?thesis using c by (simp add: starts_none_def keeps_alone_def older_def nth_append)
qed

interpretation snp: poll_rel "starts_none :: ('j, 's) csys_scheme \<Rightarrow> ('j, 's) csys_scheme \<Rightarrow> bool"
proof unfold_locales
  fix w :: "('j, 's) csys_scheme" and p i d ct x r m u q q2 a b
  show "starts_none w (snd (db_call (\<lambda>rc. getFileByPath rc p) w))" "starts_none w (snd (db_call (\<lambda>rc. getFileByFileId rc i) w))"
    "starts_none w (snd (syncDbWrite_updated d w))" "starts_none w (snd (expected p ct w))"
    by (auto intro: quiet_starts)
  show "starts_none w (w\<lparr>ls_events := q\<rparr>)" "starts_none w (w\<lparr>ls_changes := q2\<rparr>)"
    by (simp_all add: faces_starts_none untouched_faces)
  show "starts_none w (snd (modify_change a (addDependent b) w))"
    by (rule faces_starts_none [OF modify_change_faces]) (simp add: face_def addDependent_def)
  show "starts_none w (snd (emit (\<lambda>clouds. makeDelete clouds x) w))" "starts_none w (snd (emit (\<lambda>clouds. makeLocalNew clouds r) w))"
    "starts_none w (snd (emit (\<lambda>clouds. makeLocalMove clouds m) w))" "starts_none w (snd (emit (\<lambda>clouds. makeLocalUpdate clouds u) w))"
    "starts_none w (snd (emit (\<lambda>clouds. makeCloudNew clouds r) w))" "starts_none w (snd (emit (\<lambda>clouds. makeCloudUpdate clouds u) w))"
    "starts_none w (snd (emit (\<lambda>clouds. makeCloudMove clouds m) w))"
    unfolding make_defs by (rule emit_starts_none [where g = "\<lambda>clouds. clouds"])+
qed (rule faces_starts_none [OF und_faces [OF calm_und]])

lemma polling_starts_none:
  fixes w :: "('j, 's) csys_scheme"
  shows "starts_none w (snd (polling_step due (pg_getChanges P) (pg_hasChanges P) (pg_proccessChanges P) w))"
proof -
  have q: "quiet (pg_getChanges P i :: (('j, 's) csys_scheme, unit) act)" for i
    by (auto simp: pg_getChanges_def split: option.split cloud_provider_type.split
        intro: quiet_ret gd_getChanges_quiet dx_getChanges_quiet)
  have pc: "starts_none w (snd (pg_proccessChanges P i w))" for i and w :: "('j, 's) csys_scheme"
    by (auto simp: pg_proccessChanges_def sn.R_refl split: option.split cloud_provider_type.split
        intro: snp.gd_proccessChanges_R snp.dx_proccessChanges_R snp.local_proccessChanges_R)
  have b: "starts_none v (snd (modify (\<lambda>w. w\<lparr>sm_buff := f w\<rparr>) v))" "starts_none v (snd (modify (\<lambda>w. w\<lparr>ls_signal := False\<rparr>) v))"
    for f and v :: "('j, 's) csys_scheme"
    by (simp_all add: faces_starts_none untouched_faces)
  have c: "starts_none v (snd (collect_changes (pg_hasChanges P) (pg_proccessChanges P) v))" for v :: "('j, 's) csys_scheme"
    unfolding collect_changes_def
    by (intro sn.R_andThen sn.R_for_each sn.R_basic) (auto intro!: sn.R_andThen sn.R_basic pc b simp del: act_simps)
  have g: "starts_none v (snd (poll_clouds (pg_getChanges P) v))" for v :: "('j, 's) csys_scheme"
    unfolding poll_clouds_def by (intro sn.R_andThen sn.R_for_each sn.R_basic quiet_starts [OF q])
  show ?thesis unfolding polling_step_def
    by (intro sn.R_andThen b(2) c) (simp_all add: g sn.R_refl)
qed

lemma create_starts_none: "starts_none w (snd (pg_create P i p missing w))"
  by (rule quiet_starts) (auto simp: pg_create_def split: option.split cloud_provider_type.split
      intro!: quiet_ret gd_createPath_quiet dx_createPath_quiet)

subsection \<open>Runs in which no wait is overtaken\<close>

text \<open>
  While the process loop waits the other threads make turns that start no change; a turn that
  would is not part of these runs.
\<close>

definition new_entries :: "'s ssys_scheme \<Rightarrow> 's ssys_scheme \<Rightarrow> path list" where
  "new_entries w w1 = filter (\<lambda>p. map_of (sm_current w) p = None) (map fst (sm_current w1))"

definition polite_run :: "'j program \<Rightarrow> turn \<Rightarrow> (('j, 's) csys_scheme, unit) act" where
  "polite_run P t w =
     (case run_turn P t w of
        (Inl e, w1) \<Rightarrow> throw e w
      | (Inr u, w1) \<Rightarrow> if new_entries w w1 = [] then ret u w1 else throw Diverges w)"

definition polite_wait :: "'j program \<Rightarrow> (('j, 's) csys_scheme \<Rightarrow> turn list) \<Rightarrow> (('j, 's) csys_scheme, unit) act" where
  "polite_wait P sched w =
     andThen (for_each (polite_run P) (sched w))
       (\<lambda>_ w1. if ac_idle (cb_active w1) then ret () w1 else throw Diverges w1) w"

inductive polite_reach :: "'j program \<Rightarrow> ('j, 's) csys_scheme \<Rightarrow> ('j, 's) csys_scheme \<Rightarrow> bool" for P w where
  start: "polite_reach P w w"
| thread: "polite_reach P w w1 \<Longrightarrow> run_turn P t w1 = (Inr (), w2) \<Longrightarrow> polite_reach P w w2"
| processor: "polite_reach P w w1 \<Longrightarrow>
    process_step (pg_stores P) (polite_wait P sched) (pg_create P) w1 = (Inr r, w2) \<Longrightarrow> polite_reach P w w2"

lemma polite_run_within: "within (polite_run P t) (run_turn P t)"
  by (auto simp: within_def polite_run_def split: prod.splits sum.splits if_splits)

lemma polite_wait_within: "within (polite_wait P sched) (pg_wait P sched)"
  using wait_within [OF polite_run_within] by (simp only: polite_wait_def [abs_def])

lemma polite_is_run: "polite_reach P w w1 \<Longrightarrow> daemon_reach P w w1"
proof (induction rule: polite_reach.induct)
  case (processor w1 sched r w2)
  then have "process_step (pg_stores P) (pg_wait P sched) (pg_create P) w1 = (Inr r, w2)"
    using process_step_within [OF polite_wait_within] unfolding within_def by blast
  then show ?case using processor.IH by (blast intro: daemon_reach.step daemon_step.processor)
qed (blast intro: daemon_reach.intros daemon_step.thread)+

lemma turn_alone:
  fixes w :: "('j, 's) csys_scheme"
  shows "keeps_alone w (snd (run_turn P t w))"
proof (cases t)
  case CallbackTurn
  have "polite_env (pg_stores P :: int \<Rightarrow> (('j, 's) csys_scheme) storage_ops) worker_wait (pg_create P)"
    using prog.storage_contract_axioms
    by (simp add: polite_env_def polite_env_axioms_def worker_wait_def create_starts_none sn.R_refl)
  from polite_env.cb_worker_alone [OF this] show ?thesis
    unfolding CallbackTurn run_turn.simps pg_onComplete_def by (intro ka.R_andThen ka.R_basic)
next
  case (HttpTurn curl_ok messages now)
  show ?thesis unfolding HttpTurn run_turn.simps by (intro ka.R_andThen ka.R_basic faces_keeps [OF und_faces [OF http_worker_und]])
next
  case (PollTurn due)
  show ?thesis unfolding PollTurn run_turn.simps by (rule starts_none_keeps [OF polling_starts_none])
next
  case (WatchTurn canon evt)
  show ?thesis unfolding WatchTurn run_turn.simps by (rule starts_none_keeps [OF quiet_starts [OF onFsEvent_quiet]])
next
  case (UserTurn f)
  show ?thesis unfolding UserTurn run_turn.simps by (rule faces_keeps [OF und_faces [OF modify_und]]) simp_all
qed

lemma polite_run_none: "starts_none w (snd (polite_run P t w))"
proof (cases "run_turn P t w")
  case (Pair r w1)
  have e: "\<forall>p. map_of (sm_current w) p = None \<longrightarrow> map_of (sm_current w1) p = None" if "new_entries w w1 = []"
    using that by (auto simp: new_entries_def filter_empty_conv map_of_eq_None_iff)
  then show ?thesis using turn_alone [of w P t] Pair
    by (cases r) (auto simp: polite_run_def starts_none_def sn.R_refl ka.R_refl)
qed

lemma polite_wait_none: "starts_none w (snd (polite_wait P sched w))"
  unfolding polite_wait_def by (intro sn.R_andThen sn.R_for_each polite_run_none) (simp add: sn.R_refl)

interpretation polite: polite_env "pg_stores P" "polite_wait P sched" "pg_create P"
  by unfold_locales (rule polite_wait_none create_starts_none)+

lemma polite_alone: "polite_reach P w w1 \<Longrightarrow> alone w \<Longrightarrow> alone w1"
proof (induction rule: polite_reach.induct)
  case (thread w1 t w2)
  then show ?case using turn_alone [of w1 P t] by (simp add: keeps_alone_def)
next
  case (processor w1 sched r w2)
  then show ?case using polite.process_step_alone [of w1 P sched] by (simp add: keeps_alone_def)
qed

text \<open>
  C3. At most one change per path: in every run of the daemon in which no other thread starts a
  change while the process loop waits for missing directories, two changes of the same path
  are never under way together, whatever the threads, the servers and the user do; the one
  that is under way is the one the table of the running changes names.
\<close>

theorem one_change_per_path:
  assumes "daemon_start w0" and "polite_reach P w0 w"
    and "under_way w a" and "under_way w b" and "ch_path (w_heap w ! a) = ch_path (w_heap w ! b)"
  shows "daemon_reach P w0 w \<and> a = b \<and> map_of (sm_current w) (ch_path (w_heap w ! a)) = Some a"
proof -
  have "alone w0" using assms(1) by (simp add: alone_def daemon_start_def)
  then have w: "alone w" by (rule polite_alone [OF assms(2)])
  show ?thesis
    using polite_is_run [OF assms(2)] alone_unique [OF w assms(3-5)] alone_entry [OF w assms(3)] by blast
qed

subsection \<open>A sample run\<close>

text \<open>
  The file of the sample is reported as deleted once more while its first deletion is still
  with the callback worker: the second change waits as a dependent of the first.
\<close>

definition first_change :: change where
  "first_change = del_change\<lparr>ch_chain := [None], ch_on_complete := Some (ch_path del_change)\<rparr>"

definition again_command :: command where
  "again_command = Command LocalDelete 0
     (Some (DeletedDTO (deleted_local \<lparr>rooted = False, segs = [''a'']\<rparr> 1 (fromWatcherTime 5)))) None (Some 1) []"

definition again_change :: change where
  "again_change = (Change Delete \<lparr>rooted = False, segs = [''a'']\<rparr> (fromWatcherTime 5) 0)
     \<lparr>ch_pending := 1, ch_chain := [Some again_command]\<rparr>"

definition again_seen :: "jv csys" where
  "again_seen = del_started
     \<lparr>ls_events := \<lparr>q_items = [file_event_plain del_path (fromWatcherTime 5) Delete], q_closed = False\<rparr>, ls_signal := True\<rparr>"

definition again_polled :: "jv csys" where
  "again_polled = del_started
     \<lparr>w_heap := [first_change, again_change], w_calls := 2, sm_buff := \<lparr>q_items = [1], q_closed = False\<rparr>\<rparr>"

definition again_waiting :: "jv csys" where
  "again_waiting = del_started\<lparr>w_heap := [first_change\<lparr>ch_dependents := [1]\<rparr>, again_change], w_calls := 2\<rparr>"

lemma again_watch: "run_turn sample_program (WatchTurn (\<lambda>_. None) del_event) del_started = (Inr (), again_seen)"
  using del_path_facts
  by (simp add: again_seen_def del_started_def sample_daemon_def onFsEvent_def del_event_def Let_def push_event_def
      onChange_def q_push_def q_new_def)

lemma again_poll: "run_turn sample_program (PollTurn False) again_seen = (Inr (), again_polled)"
proof -
  obtain f where "getFileByPath rc_ok \<lparr>rooted = False, segs = [''a'']\<rparr> sample_conn = (Inr (Some f), sample_conn)"
    "fr_global_id f = 1" by (rule del_row)
  then show ?thesis using del_path_facts
    by (simp add: again_seen_def del_started_def sample_daemon_def q_push_def q_new_def polling_step_def collect_changes_def
        pg_hasChanges_def local_hasChanges_def pg_proccessChanges_def local_proccessChanges_def handle_event_def
        file_event_plain_def handleDeleted_def expected_miss andThen_def q_empty_def emit_def Let_def makeDelete_def make_eq
        db_call_def again_polled_def deleted_local_def stage_ids_def numeral_2_eq_2 again_change_def again_command_def
        head_command_def new_command_def first_change_def)
qed

lemma again_process:
  "process_step (pg_stores sample_program) wait (pg_create sample_program) again_polled = (Inr (Some True), again_waiting)"
  by (simp add: again_waiting_def process_step_def again_polled_def del_started_def sample_daemon_def q_pop_def
      handleChange_def deref_change_def deref_def again_change_def first_change_def del_change_def Change_def andThen_def
      query_def modify_change_def update_at_def addDependent_def change_getTargetType_def again_command_def
      deleted_local_def q_new_def Let_def)

theorem one_change_per_path_witness:
  "\<exists>w. polite_reach sample_program (sample_daemon [] [] [] 0) w \<and> under_way w 0 \<and> \<not> under_way w 1 \<and>
     ch_path (w_heap w ! 1) = ch_path (w_heap w ! 0) \<and> ch_dependents (w_heap w ! 0) = [1] \<and>
     map_of (sm_current w) (ch_path (w_heap w ! 0)) = Some 0"
proof -
  let ?s = "sample_daemon [] [] [] 0"
  note turn = polite_reach.thread [where P = sample_program and w = ?s]
  note go = polite_reach.processor [where P = sample_program and w = ?s]
  have "polite_reach sample_program ?s del_polled"
    by (rule turn [OF turn [OF polite_reach.start del_watch] del_poll])
  then have "polite_reach sample_program ?s del_started" by (rule go [OF _ del_process [of "polite_wait sample_program (\<lambda>_. [])"]])
  then have "polite_reach sample_program ?s again_polled" by (rule turn [OF turn [OF _ again_watch] again_poll])
  then have r: "polite_reach sample_program ?s again_waiting"
    by (rule go [OF _ again_process [of "polite_wait sample_program (\<lambda>_. [])"]])
  have s: "daemon_start ?s" using sample_db_ok by (simp add: daemon_start_def sample_daemon_def q_new_def)
  have u: "under_way again_waiting 0"
    by (simp add: under_way_def again_waiting_def first_change_def del_change_def Change_def)
  have d: "\<not> under_way again_waiting 1" "ch_path (w_heap again_waiting ! 1) = ch_path (w_heap again_waiting ! 0)"
    "ch_dependents (w_heap again_waiting ! 0) = [1]"
    by (simp_all add: under_way_def again_waiting_def first_change_def again_change_def del_change_def Change_def)
  show ?thesis using one_change_per_path [OF s r u u refl] r u d by blast
qed

end
