(* ===== verification/Waiting.thy ===== *)
theory Waiting
  imports OnePerPath
begin

text \<open>
  What becomes of a change once it is in the queue of the process loop. It is started, or it
  waits as a dependent of a change under way, which hands its dependents over when it is
  completed, or it is a new directory, which is made everywhere at once without being started.
  Nothing that is queued is ever lost from this.
\<close>

subsection \<open>Where a change is kept\<close>

definition started :: "'s lsys_scheme \<Rightarrow> nat \<Rightarrow> bool" where
  "started w a \<longleftrightarrow> a < length (w_heap w) \<and> ch_on_complete (w_heap w ! a) \<noteq> None"

definition made_at_once :: "'s lsys_scheme \<Rightarrow> nat \<Rightarrow> bool" where
  "made_at_once w a \<longleftrightarrow>
     a < length (w_heap w) \<and> ch_type (w_heap w ! a) = New \<and> change_getTargetType (w_heap w ! a) = Inr Directory"

definition waits_for :: "'s lsys_scheme \<Rightarrow> nat \<Rightarrow> nat \<Rightarrow> bool" where
  "waits_for w a b \<longleftrightarrow> b < length (w_heap w) \<and> a \<in> set (ch_dependents (w_heap w ! b))"

text \<open>\<open>K\<close>: the changes a thread holds while it works.\<close>

inductive kept :: "nat set \<Rightarrow> 's ssys_scheme \<Rightarrow> nat \<Rightarrow> bool" for K w where
  hand: "a \<in> K \<Longrightarrow> kept K w a"
| started: "started w a \<Longrightarrow> kept K w a"
| at_once: "made_at_once w a \<Longrightarrow> kept K w a"
| queued: "a \<in> set (q_items (sm_buff w)) \<Longrightarrow> kept K w a"
| running: "waits_for w a b \<Longrightarrow> started w b \<Longrightarrow> 0 < ch_pending (w_heap w ! b) \<Longrightarrow> kept K w a"
| behind: "waits_for w a b \<Longrightarrow> \<not> started w b \<Longrightarrow> \<not> made_at_once w b \<Longrightarrow> kept K w b \<Longrightarrow> kept K w a"

lemma kept_cut:
  assumes "kept (A \<union> K) w a" and "\<And>b. b \<in> A \<Longrightarrow> kept K w b"
  shows "kept K w a"
  using assms(1)
proof induction
  case (hand a)
  then show ?case using assms(2) kept.hand by fast
qed (blast intro: kept.intros)+

text \<open>The table leads to changes under way, a change is not exhausted before it is started.\<close>

definition entry_ok :: "'s ssys_scheme \<Rightarrow> path \<Rightarrow> nat \<Rightarrow> bool" where
  "entry_ok w p b \<longleftrightarrow>
     b < length (w_heap w) \<and> ch_on_complete (w_heap w ! b) = Some p \<and> 0 < ch_pending (w_heap w ! b)"

definition stage_ok :: "change \<Rightarrow> bool" where
  "stage_ok c \<longleftrightarrow>
     (case ch_on_complete c of None \<Rightarrow> 0 < ch_pending c | Some p \<Rightarrow> p = ch_path c \<and> chain_commands c = [])"

definition table_ok :: "'s ssys_scheme \<Rightarrow> bool" where
  "table_ok w \<longleftrightarrow>
     (\<forall>p b. map_of (sm_current w) p = Some b \<longrightarrow> entry_ok w p b) \<and>
     (\<forall>a < length (w_heap w). stage_ok (w_heap w ! a))"

lemma table_okD:
  "table_ok w \<Longrightarrow> map_of (sm_current w) p = Some b \<Longrightarrow> entry_ok w p b"
  "table_ok w \<Longrightarrow> a < length (w_heap w) \<Longrightarrow> stage_ok (w_heap w ! a)"
  by (simp_all add: table_ok_def)

lemma table_okI:
  assumes "\<And>p b. map_of (sm_current w) p = Some b \<Longrightarrow> entry_ok w p b"
    and "\<And>a. a < length (w_heap w) \<Longrightarrow> stage_ok (w_heap w ! a)"
  shows "table_ok w"
  using assms by (simp add: table_ok_def)

text \<open>The thread that held \<open>A\<close> holds \<open>B\<close> afterwards.\<close>

definition hands_over :: "nat set \<Rightarrow> nat set \<Rightarrow> 's ssys_scheme \<Rightarrow> 's ssys_scheme \<Rightarrow> bool" where
  "hands_over A B w w1 \<longleftrightarrow>
     older w w1 \<and> (table_ok w \<longrightarrow> table_ok w1 \<and> (\<forall>K a. kept (A \<union> K) w a \<longrightarrow> kept (B \<union> K) w1 a))"

lemma hands_overI:
  assumes "older w w1" and "table_ok w \<Longrightarrow> table_ok w1"
    and "\<And>K a. table_ok w \<Longrightarrow> table_ok w1 \<Longrightarrow> kept (A \<union> K) w a \<Longrightarrow> kept (B \<union> K) w1 a"
  shows "hands_over A B w w1"
  using assms unfolding hands_over_def by blast

lemma hands_over_keeps:
  "hands_over A B w w1 \<Longrightarrow> table_ok w \<Longrightarrow> table_ok w1"
  "hands_over A B w w1 \<Longrightarrow> table_ok w \<Longrightarrow> kept (A \<union> K) w a \<Longrightarrow> kept (B \<union> K) w1 a"
  by (simp_all add: hands_over_def)

lemma hands_over_trans: "hands_over A B w w1 \<Longrightarrow> hands_over B C w1 w2 \<Longrightarrow> hands_over A C w w2"
  unfolding hands_over_def by (blast intro: older_trans)

lemma hands_over_frame: "hands_over A B w w1 \<Longrightarrow> hands_over (A \<union> C) (B \<union> C) w w1"
  unfolding hands_over_def by (simp add: Un_assoc)

abbreviation keeps_all :: "'s ssys_scheme \<Rightarrow> 's ssys_scheme \<Rightarrow> bool" where
  "keeps_all \<equiv> hands_over {} {}"

lemma keeps_all_refl [simp]: "hands_over A A w w"
  by (simp add: hands_over_def older_def)

lemma keeps_all_frame: "keeps_all w w1 \<Longrightarrow> hands_over A A w w1"
  using hands_over_frame [of "{}" "{}" w w1 A] by simp

subsection \<open>Steps that start and complete nothing\<close>

text \<open>Changes may be added and dependents too; all else about a change stays.\<close>

definition core :: "change \<Rightarrow> path option \<times> int \<times> path \<times> change_type \<times> command option list" where
  "core c = (ch_on_complete c, ch_pending c, ch_path c, ch_type c, ch_chain c)"

lemma stage_core: "core c1 = core c \<Longrightarrow> stage_ok c1 = stage_ok c"
  by (simp add: core_def stage_ok_def chain_commands_def split: option.split)

definition grown :: "'s ssys_scheme \<Rightarrow> 's ssys_scheme \<Rightarrow> bool" where
  "grown w w1 \<longleftrightarrow>
     length (w_heap w) \<le> length (w_heap w1) \<and>
     (\<forall>a < length (w_heap w). core (w_heap w1 ! a) = core (w_heap w ! a) \<and>
        set (ch_dependents (w_heap w ! a)) \<subseteq> set (ch_dependents (w_heap w1 ! a))) \<and>
     (\<forall>a < length (w_heap w1). length (w_heap w) \<le> a \<longrightarrow>
        ch_on_complete (w_heap w1 ! a) = None \<and> 0 < ch_pending (w_heap w1 ! a)) \<and>
     sm_current w1 = sm_current w \<and> set (q_items (sm_buff w)) \<subseteq> set (q_items (sm_buff w1))"

interpretation gr: step_rel grown
proof
  show "grown w w" for w :: "'a ssys_scheme" by (simp add: grown_def)
  fix w w1 w2 :: "'a ssys_scheme"
  assume a: "grown w w1" "grown w1 w2"
  have "core (w_heap w2 ! a) = core (w_heap w1 ! a)" if "a < length (w_heap w1)" for a
    using a(2) that by (simp add: grown_def)
  then have "ch_on_complete (w_heap w2 ! a) = None \<and> 0 < ch_pending (w_heap w2 ! a)"
    if "length (w_heap w) \<le> a" "a < length (w_heap w2)" for a
    using a that by (cases "a < length (w_heap w1)") (auto simp: grown_def core_def)
  moreover have "core (w_heap w2 ! a) = core (w_heap w ! a) \<and>
        set (ch_dependents (w_heap w ! a)) \<subseteq> set (ch_dependents (w_heap w2 ! a))" if "a < length (w_heap w)" for a
  proof -
    have "a < length (w_heap w1)" using a(1) that by (simp add: grown_def)
    then show ?thesis using a that unfolding grown_def by (metis subset_trans)
  qed
  ultimately show "grown w w2" using a by (auto simp: grown_def)
qed

lemma grownD:
  assumes "grown w w1" and "a < length (w_heap w)"
  shows "a < length (w_heap w1)" "ch_on_complete (w_heap w1 ! a) = ch_on_complete (w_heap w ! a)"
    "ch_pending (w_heap w1 ! a) = ch_pending (w_heap w ! a)" "ch_path (w_heap w1 ! a) = ch_path (w_heap w ! a)"
    "ch_type (w_heap w1 ! a) = ch_type (w_heap w ! a)" "ch_chain (w_heap w1 ! a) = ch_chain (w_heap w ! a)"
    "waits_for w x a \<Longrightarrow> waits_for w1 x a"
  using assms by (auto simp: grown_def core_def waits_for_def)

lemma grown_marks:
  assumes "grown w w1" and "a < length (w_heap w)"
  shows "started w1 a \<longleftrightarrow> started w a" "made_at_once w1 a \<longleftrightarrow> made_at_once w a"
  using grownD [OF assms] assms(2) by (simp_all add: started_def made_at_once_def change_getTargetType_def)

lemma grown_kept:
  assumes g: "grown w w1" and "kept K w a"
  shows "kept K w1 a"
  using assms(2)
proof induction
  case (started a)
  then show ?case using grown_marks(1) [OF g] by (blast intro: kept.started dest: started_def [THEN iffD1])
next
  case (at_once a)
  then show ?case using grown_marks(2) [OF g] by (blast intro: kept.at_once dest: made_at_once_def [THEN iffD1])
next
  case (queued a)
  then show ?case using g by (auto simp: grown_def intro: kept.queued)
next
  case (running a b)
  then have b: "b < length (w_heap w)" by (simp add: waits_for_def)
  show ?case
    by (rule kept.running [of _ _ b]) (use running b in \<open>simp_all add: grownD [OF g] grown_marks [OF g]\<close>)
next
  case (behind a b)
  then have b: "b < length (w_heap w)" by (simp add: waits_for_def)
  show ?case
    by (rule kept.behind [of _ _ b]) (use behind b in \<open>simp_all add: grownD [OF g] grown_marks [OF g]\<close>)
qed (rule kept.hand)

lemma grown_keeps: "grown w w1 \<Longrightarrow> keeps_all w w1"
proof (rule hands_overI)
  assume g: "grown w w1"
  show "older w w1" using grownD(4) [OF g] g by (simp add: older_def grown_def)
  show "table_ok w1" if t: "table_ok w"
  proof (rule table_okI)
    fix p b assume "map_of (sm_current w1) p = Some b"
    then have "entry_ok w p b" using table_okD(1) [OF t] g by (simp add: grown_def)
    then show "entry_ok w1 p b" using grownD [OF g, of b] by (simp add: entry_ok_def)
  next
    fix a assume a: "a < length (w_heap w1)"
    show "stage_ok (w_heap w1 ! a)"
    proof (cases "a < length (w_heap w)")
      case True
      then have "core (w_heap w1 ! a) = core (w_heap w ! a)" using g by (simp add: grown_def)
      then show ?thesis using table_okD(2) [OF t True] stage_core by blast
    next
      case False
      then show ?thesis using g a by (simp add: grown_def stage_ok_def)
    qed
  qed
qed (simp add: grown_kept)

lemma und_grown: "undisturbed w w1 \<Longrightarrow> grown w w1"
  by (simp add: undisturbed_def grown_def)

lemma und_keeps: "undisturbed w w1 \<Longrightarrow> keeps_all w w1"
  by (rule grown_keeps [OF und_grown])

subsection \<open>Starting a change\<close>

lemma emptied_chain: "chain_commands (c\<lparr>ch_chain := map (\<lambda>_. None) xs\<rparr>) = []"
  by (simp add: chain_commands_def)

lemma dispatch_full: "dispatch c = (Inr r, c1) \<Longrightarrow> chain_commands c \<noteq> [] \<and> c1 = c\<lparr>ch_chain := map (\<lambda>_. None) (ch_chain c)\<rparr>"
proof -
  assume d: "dispatch c = (Inr r, c1)"
  then obtain x xs where "all_some (ch_chain c) = Inr (x # xs)" "c1 = c\<lparr>ch_chain := map (\<lambda>_. None) (ch_chain c)\<rparr>"
    by (auto simp: dispatch_def Let_def split: sum.splits list.splits)
  then show ?thesis using chain_commands_some [of "ch_chain c" "x # xs"]
    by (simp add: chain_commands_def del: concat_eq_Nil_conv)
qed

context storage_contract
begin

lemma dispatch_change_ok:
  assumes "dispatch_change stores a w = (Inr u, w1)"
  shows "a < length (w_heap w)" and "chain_commands (w_heap w ! a) \<noteq> []"
    and "undisturbed (w\<lparr>w_heap := (w_heap w)[a := (w_heap w ! a)\<lparr>ch_chain := map (\<lambda>_. None) (ch_chain (w_heap w ! a))\<rparr>]\<rparr>) w1"
proof -
  obtain c where c: "deref (w_heap w) a = Some c"
    using assms by (cases "deref (w_heap w) a") (auto simp: dispatch_change_def deref_change_def andThen_def)
  obtain r c1 where d: "dispatch c = (r, c1)" by fastforce
  let ?w = "w\<lparr>w_heap := update_at a (\<lambda>_. c1) (w_heap w)\<rparr>"
  have e: "andThen (lift_res r) (\<lambda>to. andThen (case to of Inl cmds \<Rightarrow> for_each cb_submit cmds | Inr cmds \<Rightarrow> for_each (http_submit stores) cmds)
        (\<lambda>_. ret ())) ?w = (Inr u, w1)"
    using assms c d by (simp add: dispatch_change_def deref_change_def modify_change_def)
  then obtain to where r: "r = Inr to" by (cases r) auto
  have "undisturbed ?w (snd (andThen (lift_res r) (\<lambda>to. andThen (case to of Inl cmds \<Rightarrow> for_each cb_submit cmds | Inr cmds \<Rightarrow> for_each (http_submit stores) cmds)
        (\<lambda>_. ret ())) ?w))"
    by (intro ud.R_andThen ud.R_basic) (auto intro: submit_all_und split: sum.split)
  then have u: "undisturbed ?w w1" using e by simp
  show a: "a < length (w_heap w)" using c by (simp add: deref_def split: if_splits)
  then have h: "c = w_heap w ! a" using c by (simp add: deref_def)
  show "chain_commands (w_heap w ! a) \<noteq> []" using dispatch_full d r h by blast
  show "undisturbed (w\<lparr>w_heap := (w_heap w)[a := (w_heap w ! a)\<lparr>ch_chain := map (\<lambda>_. None) (ch_chain (w_heap w ! a))\<rparr>]\<rparr>) w1"
    using u dispatch_full d r h a by (simp add: update_at_def)
qed

definition as_started :: "path \<Rightarrow> nat \<Rightarrow> 's ssys_scheme \<Rightarrow> 's ssys_scheme" where
  "as_started p a w =
     w\<lparr>w_heap := (w_heap w)[a := (w_heap w ! a)\<lparr>ch_on_complete := Some p, ch_chain := map (\<lambda>_. None) (ch_chain (w_heap w ! a))\<rparr>],
       sm_current := set_current p a (sm_current w)\<rparr>"

lemma startChange_ok:
  fixes w :: "'s ssys_scheme"
  assumes "startChange stores p a w = (Inr u, w1)"
  shows "a < length (w_heap w)" and "chain_commands (w_heap w ! a) \<noteq> []" and "undisturbed (as_started p a w) w1"
proof -
  let ?w = "w\<lparr>w_heap := update_at a (setOnComplete p) (w_heap w), sm_current := set_current p a (sm_current w)\<rparr>"
  have d: "dispatch_change stores a ?w = (Inr u, w1)" using assms by (simp add: startChange_def modify_change_def)
  show a: "a < length (w_heap w)" using dispatch_change_ok(1) [OF d] by simp
  show "chain_commands (w_heap w ! a) \<noteq> []"
    using dispatch_change_ok(2) [OF d] a by (simp add: update_at_def setOnComplete_def chain_commands_def)
  show "undisturbed (as_started p a w) w1"
    using dispatch_change_ok(3) [OF d] a by (simp add: undisturbed_def as_started_def update_at_def setOnComplete_def)
qed

lemma as_started_keeps:
  fixes w :: "'s ssys_scheme"
  assumes a: "a < length (w_heap w)" "ch_path (w_heap w ! a) = p" "chain_commands (w_heap w ! a) \<noteq> []"
  shows "hands_over {a} {} w (as_started p a w)" (is "hands_over _ _ w ?v")
proof (rule hands_overI)
  have h: "w_heap ?v ! b = (if b = a then (w_heap w ! a)\<lparr>ch_on_complete := Some p, ch_chain := map (\<lambda>_. None) (ch_chain (w_heap w ! a))\<rparr>
      else w_heap w ! b)" "length (w_heap ?v) = length (w_heap w)" for b
    using a(1) by (auto simp: as_started_def)
  show "older w ?v" by (simp add: older_def h)
  have un: "ch_on_complete (w_heap w ! a) = None \<and> 0 < ch_pending (w_heap w ! a)" if "table_ok w"
    using table_okD(2) [OF that a(1)] a(3) by (auto simp: stage_ok_def split: option.splits)
  show t: "table_ok ?v" if "table_ok w"
  proof (rule table_okI)
    fix q b assume "map_of (sm_current ?v) q = Some b"
    then have "q = p \<and> b = a \<or> map_of (sm_current w) q = Some b"
      by (auto simp: as_started_def set_current_def map_of_without split: if_splits)
    then show "entry_ok ?v q b" using table_okD(1) [OF that, of q b] un [OF that] a(1) by (auto simp: entry_ok_def h)
  next
    fix b assume "b < length (w_heap ?v)"
    then show "stage_ok (w_heap ?v ! b)"
      using table_okD(2) [OF that, of b] a(2) by (auto simp: h stage_ok_def chain_commands_def)
  qed
  fix K x assume tw: "table_ok w" and "kept ({a} \<union> K) w x"
  have s: "started ?v a" "0 < ch_pending (w_heap ?v ! a)" using un [OF tw] a(1) by (simp_all add: started_def h)
  have other: "started ?v b \<longleftrightarrow> started w b" "made_at_once ?v b \<longleftrightarrow> made_at_once w b"
    "ch_pending (w_heap ?v ! b) = ch_pending (w_heap w ! b)" if "b \<noteq> a" for b
    using that by (simp_all add: started_def made_at_once_def h)
  have w: "waits_for ?v y b \<longleftrightarrow> waits_for w y b" for y b by (simp add: waits_for_def h)
  from \<open>kept ({a} \<union> K) w x\<close> show "kept ({} \<union> K) ?v x"
  proof induction
    case (hand x)
    then show ?case using s(1) by (auto intro: kept.hand kept.started)
  next
    case (started x)
    then show ?case using s(1) other(1) by (cases "x = a") (auto intro: kept.started)
  next
    case (at_once x)
    then show ?case using s(1) other(2) by (cases "x = a") (auto intro: kept.started kept.at_once)
  next
    case (queued x)
    then show ?case by (intro kept.queued) (simp add: as_started_def)
  next
    case (running x b)
    then have "started ?v b" "0 < ch_pending (w_heap ?v ! b)" using s other by (cases "b = a"; simp)+
    then show ?case using running(1) by (intro kept.running [of _ _ b]) (simp_all add: w)
  next
    case (behind x b)
    show ?case
    proof (cases "b = a")
      case True
      then show ?thesis using s behind(1) by (intro kept.running [of _ _ b]) (simp_all add: w)
    next
      case False
      show ?thesis
        by (rule kept.behind [of _ _ b]) (use behind other [OF False] in \<open>simp_all add: w\<close>)
    qed
  qed
qed

lemma startChange_keeps:
  fixes w :: "'s ssys_scheme"
  assumes "startChange stores p a w = (Inr u, w1)" and "ch_path (w_heap w ! a) = p"
  shows "hands_over {a} {} w w1"
  using hands_over_trans [OF as_started_keeps [OF startChange_ok(1) [OF assms(1)] assms(2) startChange_ok(2) [OF assms(1)]]
    und_keeps [OF startChange_ok(3) [OF assms(1)]]] .

end

subsection \<open>Waiting for another change\<close>

lemma addDependent_grown: "grown w (snd (modify_change b (addDependent a) w))"
  by (auto simp: modify_change_def grown_def update_at_def nth_list_update core_def addDependent_def)

lemma addDependent_keeps:
  assumes "map_of (sm_current w) p = Some b"
  shows "hands_over {a} {} w (snd (modify_change b (addDependent a) w))" (is "hands_over _ _ w ?v")
proof (rule hands_overI)
  note g = addDependent_grown [of w b a]
  have k: "keeps_all w ?v" by (rule grown_keeps [OF g])
  then show "older w ?v" by (simp add: hands_over_def)
  show "table_ok w \<Longrightarrow> table_ok ?v" by (rule hands_over_keeps(1) [OF k])
  fix K x assume t: "table_ok w" and x: "kept ({a} \<union> K) w x"
  have b: "b < length (w_heap w)" "started w b" "0 < ch_pending (w_heap w ! b)"
    using table_okD(1) [OF t assms] by (auto simp: entry_ok_def started_def)
  have "waits_for ?v a b" using b(1) by (simp add: waits_for_def modify_change_def update_at_def addDependent_def)
  then have "kept K ?v a" using b grownD(3) [OF g b(1)] grown_marks(1) [OF g b(1)] by (auto intro: kept.running)
  then show "kept ({} \<union> K) ?v x" using kept_cut [OF grown_kept [OF g x]] by auto
qed

subsection \<open>Actions that return\<close>

definition on_success :: "('w \<Rightarrow> 'w \<Rightarrow> bool) \<Rightarrow> ('w, 'a) act \<Rightarrow> bool" where
  "on_success R m \<longleftrightarrow> (\<forall>w x w1. m w = (Inr x, w1) \<longrightarrow> R w w1)"

lemma on_successD: "on_success R m \<Longrightarrow> m w = (Inr x, w1) \<Longrightarrow> R w w1"
  by (simp add: on_success_def)

lemma on_successI: "(\<And>w. R w (snd (m w))) \<Longrightarrow> on_success R m"
  unfolding on_success_def by (metis snd_conv)

context step_rel
begin

lemma success_basic: "on_success R (ret x)" "on_success R (throw e)" "on_success R (query q)" "on_success R (lift_res r)"
  by (intro on_successI R_basic)+

lemma success_andThen: "on_success R m \<Longrightarrow> (\<And>x. on_success R (f x)) \<Longrightarrow> on_success R (andThen m f)"
  unfolding on_success_def andThen_ok by (blast intro: R_trans)

lemma success_for_each: "(\<And>x. on_success R (f x)) \<Longrightarrow> on_success R (for_each f xs)"
  by (induction xs) (simp_all add: success_basic success_andThen del: act_simps)

end

interpretation kp: step_rel keeps_all
  by unfold_locales (simp, rule hands_over_trans)

lemma und_success: "(\<And>w. undisturbed w (snd (m w))) \<Longrightarrow> on_success keeps_all m"
  by (intro on_successI und_keeps)

lemma quiet_success: "quiet m \<Longrightarrow> on_success keeps_all m"
  by (rule und_success [OF quiet_und])

subsection \<open>Finishing a command\<close>

lemma kept_finished:
  assumes m: "\<And>b. started v b \<longleftrightarrow> started w b" "\<And>b. made_at_once v b \<longleftrightarrow> made_at_once w b" "sm_buff v = sm_buff w"
    and r: "\<And>x b. waits_for w x b \<Longrightarrow> started w b \<Longrightarrow> 0 < ch_pending (w_heap w ! b) \<Longrightarrow>
      x \<in> D \<or> waits_for v x b \<and> 0 < ch_pending (w_heap v ! b)"
    and u: "\<And>x b. waits_for w x b \<Longrightarrow> \<not> started w b \<Longrightarrow> waits_for v x b"
    and k: "kept K w x"
  shows "kept (D \<union> K) v x"
  using k
proof induction
  case (running x b)
  from r [OF running] show ?case
  proof
    assume "waits_for v x b \<and> 0 < ch_pending (w_heap v ! b)"
    then show ?thesis by (intro kept.running [of _ _ b]) (simp_all add: m(1) running(2))
  qed (simp add: kept.hand)
next
  case (behind x b)
  show ?case by (rule kept.behind [OF u [OF behind(1,2)]]) (simp_all add: m behind)
next
  case (hand x)
  then show ?case by (simp add: kept.hand)
next
  case (started x)
  then show ?case by (intro kept.started) (simp add: m(1))
next
  case (at_once x)
  then show ?case by (intro kept.at_once) (simp add: m(2))
next
  case (queued x)
  then show ?case by (intro kept.queued) (simp add: m(3))
qed

lemma finished_parts:
  "ch_on_complete (snd (onCommandFinished c)) = ch_on_complete c" "ch_path (snd (onCommandFinished c)) = ch_path c"
  "ch_type (snd (onCommandFinished c)) = ch_type c" "ch_chain (snd (onCommandFinished c)) = ch_chain c"
  "ch_pending (snd (onCommandFinished c)) = ch_pending c - 1"
  by (simp_all add: onCommandFinished_def Let_def split: option.split)

lemma notify_cases:
  assumes "notify_owner ow hp = (f, hp1)"
  obtains (nothing) "f = NotLast" "hp1 = hp"
  | (one) a where "a < length hp" "hp1 = hp[a := snd (onCommandFinished (hp ! a))]" "f = fst (onCommandFinished (hp ! a))"
proof (cases "\<exists>a. ow = Some a \<and> a < length hp")
  case True
  then obtain a where a: "ow = Some a" "a < length hp" by blast
  then have "(f, hp1) = (fst (onCommandFinished (hp ! a)), hp[a := snd (onCommandFinished (hp ! a))])"
    using assms by (simp add: notify_owner_def deref_def update_at_def split: prod.splits)
  then show ?thesis using one [OF a(2)] by simp
next
  case False
  then have "f = NotLast" "hp1 = hp" using assms by (auto simp: notify_owner_def deref_def split: option.splits)
  then show ?thesis by (rule nothing)
qed

lemma finished_state:
  fixes w :: "'s ssys_scheme"
  assumes a: "a < length (w_heap w)" and v: "w_heap v = (w_heap w)[a := snd (onCommandFinished (w_heap w ! a))]"
  shows "older w v" and "started v b \<longleftrightarrow> started w b" and "made_at_once v b \<longleftrightarrow> made_at_once w b"
    and "b < length (w_heap w) \<Longrightarrow> ch_on_complete (w_heap v ! b) = ch_on_complete (w_heap w ! b)"
    and "ch_pending (w_heap v ! b) = (if b = a then ch_pending (w_heap w ! b) - 1 else ch_pending (w_heap w ! b))"
    and "b \<noteq> a \<Longrightarrow> waits_for v x b \<longleftrightarrow> waits_for w x b"
    and "b \<noteq> a \<Longrightarrow> w_heap v ! b = w_heap w ! b"
    and "chain_commands (w_heap v ! b) = chain_commands (w_heap w ! b)" "ch_path (w_heap v ! b) = ch_path (w_heap w ! b)"
    and "length (w_heap v) = length (w_heap w)"
  using a by (auto simp: v older_def started_def made_at_once_def waits_for_def nth_list_update finished_parts
      change_getTargetType_def chain_commands_def)

lemma not_last_keeps:
  assumes a: "a < length (w_heap w)" and f: "fst (onCommandFinished (w_heap w ! a)) = NotLast"
  shows "keeps_all w (w\<lparr>w_heap := (w_heap w)[a := snd (onCommandFinished (w_heap w ! a))]\<rparr>)" (is "keeps_all w ?v")
proof (rule hands_overI)
  have v: "w_heap ?v = (w_heap w)[a := snd (onCommandFinished (w_heap w ! a))]" by simp
  note st = finished_state [OF a v]
  have n: "ch_pending (w_heap w ! a) \<noteq> 1" "set (ch_dependents (w_heap ?v ! a)) = set (ch_dependents (w_heap w ! a))"
    using f a by (auto simp: onCommandFinished_def Let_def split: if_splits option.splits)
  have w: "waits_for ?v x b \<longleftrightarrow> waits_for w x b" for x b
    using st(6,10) n(2) by (cases "b = a") (simp_all add: waits_for_def)
  show "older w ?v" by (rule st(1))
  show "table_ok ?v" if t: "table_ok w"
  proof (rule table_okI)
    fix p b assume "map_of (sm_current ?v) p = Some b"
    then have "entry_ok w p b" using table_okD(1) [OF t] by simp
    then show "entry_ok ?v p b" using st(4,5,10) n(1) by (auto simp: entry_ok_def simp del: nth_list_update_eq)
  next
    fix b assume b: "b < length (w_heap ?v)"
    then have o: "ch_on_complete (w_heap ?v ! b) = ch_on_complete (w_heap w ! b)" using st(4,10) by simp
    have "stage_ok (w_heap w ! b)" using table_okD(2) [OF t] b by simp
    then show "stage_ok (w_heap ?v ! b)"
      unfolding stage_ok_def o st(5,8,9) using n(1) by (auto split: option.splits if_splits)
  qed
  have r: "x \<in> {} \<or> waits_for ?v x b \<and> 0 < ch_pending (w_heap ?v ! b)"
    if "waits_for w x b" "started w b" "0 < ch_pending (w_heap w ! b)" for x b
    using that n(1) unfolding w st(5) by auto
  have u: "waits_for ?v x b" if "waits_for w x b" "\<not> started w b" for x b using that(1) unfolding w .
  fix K x assume "kept ({} \<union> K) w x"
  then have k: "kept K w x" by simp
  show "kept ({} \<union> K) ?v x" by (rule kept_finished [OF st(2,3) _ r u k]) simp_all
qed

lemma last_hands_over:
  assumes a: "a < length (w_heap w)" and f: "fst (onCommandFinished (w_heap w ! a)) = Fire p deps"
  shows "hands_over {} (set deps) w
    (w\<lparr>w_heap := (w_heap w)[a := snd (onCommandFinished (w_heap w ! a))],
       sm_current := filter (\<lambda>e. fst e \<noteq> p) (sm_current w)\<rparr>)" (is "hands_over _ _ w ?v")
proof (rule hands_overI)
  have v: "w_heap ?v = (w_heap w)[a := snd (onCommandFinished (w_heap w ! a))]" by simp
  note st = finished_state [OF a v]
  have c: "ch_on_complete (w_heap w ! a) = Some p" "deps = ch_dependents (w_heap w ! a)"
    using f by (auto simp: onCommandFinished_def Let_def split: if_splits option.splits)
  show "older w ?v" by (rule st(1))
  show "table_ok ?v" if t: "table_ok w"
  proof (rule table_okI)
    fix q b assume "map_of (sm_current ?v) q = Some b"
    then have q: "q \<noteq> p" "entry_ok w q b" using table_okD(1) [OF t] by (auto simp: map_of_without split: if_splits)
    then have "b \<noteq> a" using c(1) by (auto simp: entry_ok_def)
    then show "entry_ok ?v q b" using q(2) st(7,10) by (simp add: entry_ok_def)
  next
    fix b assume b: "b < length (w_heap ?v)"
    then have o: "ch_on_complete (w_heap ?v ! b) = ch_on_complete (w_heap w ! b)" using st(4,10) by simp
    have "stage_ok (w_heap w ! b)" using table_okD(2) [OF t] b by simp
    then show "stage_ok (w_heap ?v ! b)"
      unfolding stage_ok_def o st(5,8,9) using c(1) by (auto split: option.splits if_splits)
  qed
  have r: "x \<in> set deps \<or> waits_for ?v x b \<and> 0 < ch_pending (w_heap ?v ! b)"
    if b: "waits_for w x b" "started w b" "0 < ch_pending (w_heap w ! b)" for x b
  proof (cases "b = a")
    case True
    then show ?thesis using b(1) c(2) by (simp add: waits_for_def)
  next
    case False
    then show ?thesis using b st(6,7) [OF False] by simp
  qed
  have u: "waits_for ?v x b" if "waits_for w x b" "\<not> started w b" for x b
  proof -
    have "b \<noteq> a" using that(2) a c(1) by (auto simp: started_def)
    then show ?thesis using st(6) that(1) by blast
  qed
  fix K x assume "kept ({} \<union> K) w x"
  then have k: "kept K w x" by simp
  show "kept (set deps \<union> K) ?v x" by (rule kept_finished [OF st(2,3) _ r u k]) simp_all
qed

subsection \<open>\<open>handleChange\<close> and \<open>onChangeCompleted\<close>\<close>

locale keeping_env = storage_contract stores for stores :: "int \<Rightarrow> ('s ssys_scheme) storage_ops" +
  fixes wait :: "('s ssys_scheme, unit) act"
    and create_in :: "int \<Rightarrow> path \<Rightarrow> path \<Rightarrow> ('s ssys_scheme, file_record_dto list) act"
  assumes wait_keeps: "on_success keeps_all wait"
    and create_quiet: "quiet (create_in i p missing)"
begin

lemma ensure_path_keeps_all: "on_success keeps_all (ensure_path wait create_in p)"
proof -
  have "on_success keeps_all (sm_createPath wait create_in p missing)" for missing
    unfolding sm_createPath_def Let_def
    by (intro kp.success_andThen kp.success_for_each kp.success_basic wait_keeps quiet_success [OF create_quiet]
        quiet_success [OF local_createPath_quiet] quiet_success [OF quiet_syncDbWrite(3)] quiet_success [OF quiet_link])
  then show ?thesis unfolding ensure_path_def
    by (intro kp.success_andThen quiet_success [OF quiet_getMissing]) (simp add: kp.success_basic del: act_simps)
qed

lemma handleChange_hands_over:
  assumes "handleChange stores wait create_in a w = (Inr u, w1)"
  shows "hands_over {a} {} w w1"
proof -
  obtain c where c: "deref (w_heap w) a = Some c"
    using assms by (cases "deref (w_heap w) a") (auto simp: handleChange_def deref_change_def andThen_def)
  then have a: "a < length (w_heap w)" "w_heap w ! a = c" by (auto simp: deref_def split: if_splits)
  let ?p = "ch_path c"
  let ?new = "if ch_type c = New then ensure_path wait create_in (parent_path ?p) else ret ()"
  obtain et where et: "change_getTargetType c = Inr et"
    and m: "(if et = Directory \<and> ch_type c = New then ensure_path wait create_in ?p
             else andThen (query (\<lambda>w. map_of (sm_current w) ?p))
               (\<lambda>cur. case cur of
                  None \<Rightarrow> andThen ?new (\<lambda>_. startChange stores ?p a)
                | Some b \<Rightarrow> modify_change b (addDependent a))) w = (Inr u, w1)"
    using assms c by (cases "change_getTargetType c") (auto simp: handleChange_def deref_change_def Let_def)
  show ?thesis
  proof (cases "et = Directory \<and> ch_type c = New")
    case True
    have k: "keeps_all w w1" by (rule on_successD [OF ensure_path_keeps_all m [unfolded if_P [OF True]]])
    have "made_at_once w a" using True et a by (simp add: made_at_once_def)
    then have h: "kept K w a" for K by (rule kept.at_once)
    have "kept K w x" if "kept ({a} \<union> K) w x" for K x by (rule kept_cut [OF that]) (simp add: h)
    then show ?thesis using k unfolding hands_over_def by simp
  next
    case False
    note go = m [unfolded if_not_P [OF False]]
    show ?thesis
    proof (cases "map_of (sm_current w) ?p")
      case (Some b)
      then have "w1 = snd (modify_change b (addDependent a) w)" using go by (simp add: andThen_def query_def)
      then show ?thesis using addDependent_keeps [OF Some] by simp
    next
      case None
      then obtain w2 where n: "?new w = (Inr (), w2)" and s: "startChange stores ?p a w2 = (Inr u, w1)"
        using go by (auto simp: andThen_ok)
      have "on_success keeps_all ?new" by (simp add: ensure_path_keeps_all kp.success_basic del: act_simps)
      then have k: "keeps_all w w2" using n by (rule on_successD)
      then have "ch_path (w_heap w2 ! a) = ?p" using a by (simp add: hands_over_def older_def)
      then show ?thesis using hands_over_trans [OF keeps_all_frame [OF k] startChange_keeps [OF s]] by simp
    qed
  qed
qed

lemma handle_all_hands_over:
  "for_each (handleChange stores wait create_in) as w = (Inr us, w1) \<Longrightarrow> hands_over (set as) {} w w1"
proof (induction as arbitrary: w us)
  case (Cons a as)
  then obtain u w2 vs where h: "handleChange stores wait create_in a w = (Inr u, w2)"
    and r: "for_each (handleChange stores wait create_in) as w2 = (Inr vs, w1)"
    by (auto simp: andThen_ok)
  have "hands_over ({a} \<union> set as) (set as) w w2"
    using hands_over_frame [OF handleChange_hands_over [OF h], of "set as"] by simp
  from hands_over_trans [OF this Cons.IH [OF r]] show ?case by simp
qed simp

lemma tell_owner_keeps: "on_success keeps_all (tell_owner (onChangeCompleted stores wait create_in) ow)"
  unfolding on_success_def
proof (intro allI impI)
  fix w :: "'s ssys_scheme" and u w1
  assume t: "tell_owner (onChangeCompleted stores wait create_in) ow w = (Inr u, w1)"
  obtain f hp where n: "notify_owner ow (w_heap w) = (f, hp)" by fastforce
  let ?w = "w\<lparr>w_heap := hp\<rparr>"
  have eq: "tell_owner (onChangeCompleted stores wait create_in) ow w =
      (case f of NotLast \<Rightarrow> ret () ?w | NoCallback \<Rightarrow> throw BadFunctionCall ?w
       | Fire p deps \<Rightarrow> onChangeCompleted stores wait create_in p deps ?w)"
    by (simp add: tell_owner_def n Let_def split: finished.split)
  from n show "keeps_all w w1"
  proof (cases rule: notify_cases)
    case nothing
    then show ?thesis using t eq by simp
  next
    case (one a)
    show ?thesis
    proof (cases f)
      case NotLast
      then show ?thesis using t eq not_last_keeps [OF one(1)] one(2,3) by simp
    next
      case NoCallback
      then show ?thesis using t eq by simp
    next
      case (Fire p deps)
      let ?v = "?w\<lparr>sm_current := filter (\<lambda>e. fst e \<noteq> p) (sm_current w)\<rparr>"
      obtain us where h: "for_each (handleChange stores wait create_in) deps ?v = (Inr us, w1)"
        using t eq Fire by (auto simp: onChangeCompleted_def andThen_ok)
      have "hands_over {} (set deps) w ?v"
        using last_hands_over [OF one(1)] one(2,3) Fire by simp
      from hands_over_trans [OF this handle_all_hands_over [OF h]] show ?thesis .
    qed
  qed
qed

lemma cb_worker_keeps: "on_success keeps_all (cb_worker_step stores (onChangeCompleted stores wait create_in))"
  unfolding on_success_def
proof (intro allI impI)
  fix w :: "'s ssys_scheme" and x w1
  assume t: "cb_worker_step stores (onChangeCompleted stores wait create_in) w = (Inr x, w1)"
  have cc: "on_success keeps_all (completionCallback stores (onChangeCompleted stores wait create_in) c)" for c
    unfolding completionCallback_def
    by (intro kp.success_andThen tell_owner_keeps quiet_success [OF quiet_completion] und_success continueChain_und)
  have d: "on_success keeps_all cb_decrement" unfolding cb_decrement_def by (intro und_success modify_und) simp_all
  let ?m = "\<lambda>c. andThen (lift_res (getTarget c))
            (\<lambda>_. andThen (completionCallback stores (onChangeCompleted stores wait create_in) c)
            (\<lambda>_. andThen (if needRepeat c then http_submit stores c else ret ())
            (\<lambda>_. andThen cb_decrement (\<lambda>_. ret (Some True)))))"
  have m: "on_success keeps_all (?m c)" for c
    unfolding needRepeat_def if_False by (intro kp.success_andThen kp.success_basic cc d)
  obtain r q where p: "q_pop (cb_queue w) = (r, q)" by fastforce
  show "keeps_all w w1"
  proof (cases r)
    case (Got c)
    then have "?m c (w\<lparr>cb_queue := q\<rparr>) = (Inr x, w1)"
      using t by (simp only: cb_worker_step_def p prod.case popped.case)
    from on_successD [OF m this] have "keeps_all (w\<lparr>cb_queue := q\<rparr>) w1" .
    moreover have "keeps_all w (w\<lparr>cb_queue := q\<rparr>)" by (rule und_keeps) (simp add: undisturbed_def)
    ultimately show ?thesis by (rule kp.R_trans [rotated])
  qed (use t p in \<open>simp_all add: cb_worker_step_def\<close>)
qed

lemma process_step_keeps_all: "on_success keeps_all (process_step stores wait create_in)"
  unfolding on_success_def
proof (intro allI impI)
  fix w :: "'s ssys_scheme" and x w1
  assume t: "process_step stores wait create_in w = (Inr x, w1)"
  obtain r q where p: "q_pop (sm_buff w) = (r, q)" by fastforce
  show "keeps_all w w1"
  proof (cases r)
    case (Got a)
    let ?v = "w\<lparr>sm_buff := q\<rparr>"
    obtain u where h: "handleChange stores wait create_in a ?v = (Inr u, w1)"
      using t Got p by (auto simp: process_step_def andThen_ok)
    have q: "q_items (sm_buff w) = a # q_items q" using p Got by (auto simp: q_pop_def split: if_splits list.splits)
    have m: "started ?v b \<longleftrightarrow> started w b" "made_at_once ?v b \<longleftrightarrow> made_at_once w b" "waits_for ?v y b \<longleftrightarrow> waits_for w y b"
      "w_heap ?v = w_heap w" for y b
      by (simp_all add: started_def made_at_once_def waits_for_def)
    have "hands_over {} {a} w ?v"
    proof (rule hands_overI)
      show "table_ok w \<Longrightarrow> table_ok ?v" by (simp add: table_ok_def entry_ok_def)
      fix K x assume "kept ({} \<union> K) w x"
      then have "kept K w x" by simp
      then show "kept ({a} \<union> K) ?v x"
      proof induction
        case (queued x)
        then show ?case using q by (auto intro: kept.hand kept.queued)
      next
        case (running x b)
        then show ?case by (intro kept.running [of _ _ b]) (simp_all only: m)
      next
        case (behind x b)
        show ?case by (rule kept.behind [of _ _ b]) (simp_all only: m behind not_False_eq_True)
      next
        case (started x)
        then show ?case by (intro kept.started) (simp only: m)
      next
        case (at_once x)
        then show ?case by (intro kept.at_once) (simp only: m)
      qed (simp add: kept.hand)
    qed (simp add: older_def)
    from hands_over_trans [OF this handleChange_hands_over [OF h]] show ?thesis .
  qed (use t p in \<open>auto simp: process_step_def\<close>)
qed

end

subsection \<open>The threads\<close>

lemma emit_grown: "grown w (snd (emit (\<lambda>clouds. make_change (g clouds) ini ks ty tm p d src) w))"
proof -
  obtain c where c: "snd (emit (\<lambda>clouds. make_change (g clouds) ini ks ty tm p d src) w) =
      w\<lparr>w_heap := w_heap w @ [c], ls_changes := q_push (length (w_heap w)) (ls_changes w)\<rparr>" "ch_on_complete c = None"
    "0 < ch_pending c"
  proof -
    fix thesis assume t: "\<And>c. snd (emit (\<lambda>clouds. make_change (g clouds) ini ks ty tm p d src) w) =
      w\<lparr>w_heap := w_heap w @ [c], ls_changes := q_push (length (w_heap w)) (ls_changes w)\<rparr> \<Longrightarrow> ch_on_complete c = None \<Longrightarrow>
      0 < ch_pending c \<Longrightarrow> thesis"
    let ?cmd = "head_command ini d (length (w_heap w)) src (stage_tree (g (factory_clouds w)) (length (w_heap w)) src ks)"
    show thesis
      by (rule t [of "(Change ty p tm src)\<lparr>ch_pending := int (size_chain ?cmd), ch_chain := [Some ?cmd]\<rparr>"])
         (cases ?cmd; simp add: emit_def make_eq Let_def Change_def)+
  qed
  then show ?thesis by (simp add: grown_def nth_append)
qed

interpretation gp: poll_rel "grown :: ('j, 's) csys_scheme \<Rightarrow> ('j, 's) csys_scheme \<Rightarrow> bool"
proof unfold_locales
  fix w :: "('j, 's) csys_scheme" and p i d ct x r m u q q2 a b
  show "grown w (snd (db_call (\<lambda>rc. getFileByPath rc p) w))" "grown w (snd (db_call (\<lambda>rc. getFileByFileId rc i) w))"
    "grown w (snd (syncDbWrite_updated d w))" "grown w (snd (expected p ct w))"
    by (auto intro: und_grown quiet_und)
  show "grown w (w\<lparr>ls_events := q\<rparr>)" "grown w (w\<lparr>ls_changes := q2\<rparr>)"
    by (simp_all add: und_grown undisturbed_def)
  show "grown w (snd (modify_change a (addDependent b) w))" by (rule addDependent_grown)
  show "grown w (snd (emit (\<lambda>clouds. makeDelete clouds x) w))" "grown w (snd (emit (\<lambda>clouds. makeLocalNew clouds r) w))"
    "grown w (snd (emit (\<lambda>clouds. makeLocalMove clouds m) w))" "grown w (snd (emit (\<lambda>clouds. makeLocalUpdate clouds u) w))"
    "grown w (snd (emit (\<lambda>clouds. makeCloudNew clouds r) w))" "grown w (snd (emit (\<lambda>clouds. makeCloudUpdate clouds u) w))"
    "grown w (snd (emit (\<lambda>clouds. makeCloudMove clouds m) w))"
    unfolding make_defs by (rule emit_grown [where g = "\<lambda>clouds. clouds"])+
qed (rule und_grown [OF calm_und])

lemma polling_grown:
  fixes w :: "('j, 's) csys_scheme"
  shows "grown w (snd (polling_step due (pg_getChanges P) (pg_hasChanges P) (pg_proccessChanges P) w))"
proof -
  have q: "quiet (pg_getChanges P i :: (('j, 's) csys_scheme, unit) act)" for i
    by (auto simp: pg_getChanges_def split: option.split cloud_provider_type.split
        intro: quiet_ret gd_getChanges_quiet dx_getChanges_quiet)
  have pc: "grown w (snd (pg_proccessChanges P i w))" for i and w :: "('j, 's) csys_scheme"
    by (auto simp: pg_proccessChanges_def gr.R_refl split: option.split cloud_provider_type.split
        intro: gp.gd_proccessChanges_R gp.dx_proccessChanges_R gp.local_proccessChanges_R)
  have b: "grown v (snd (modify (\<lambda>w. w\<lparr>sm_buff := q_push_all as (sm_buff w)\<rparr>) v))" "grown v (snd (modify (\<lambda>w. w\<lparr>ls_signal := False\<rparr>) v))"
    for as and v :: "('j, 's) csys_scheme"
    by (simp_all add: grown_def q_push_all_items)
  have c: "grown v (snd (collect_changes (pg_hasChanges P) (pg_proccessChanges P) v))" for v :: "('j, 's) csys_scheme"
    unfolding collect_changes_def
    by (intro gr.R_andThen gr.R_for_each gr.R_basic) (auto intro!: gr.R_andThen gr.R_basic pc b simp del: act_simps)
  have g: "grown v (snd (poll_clouds (pg_getChanges P) v))" for v :: "('j, 's) csys_scheme"
    unfolding poll_clouds_def by (intro gr.R_andThen gr.R_for_each gr.R_basic und_grown [OF quiet_und [OF q]])
  show ?thesis unfolding polling_step_def
    by (intro gr.R_andThen b(2) c) (simp_all add: g gr.R_refl)
qed

lemma create_in_quiet: "quiet (pg_create P i p missing)"
  by (auto simp: pg_create_def split: option.split cloud_provider_type.split intro!: quiet_ret gd_createPath_quiet dx_createPath_quiet)

lemma run_turn_keeps_all: "on_success keeps_all (run_turn P t :: (('j, 's) csys_scheme, unit) act)"
proof (cases t)
  case CallbackTurn
  have "keeping_env (pg_stores P :: int \<Rightarrow> (('j, 's) csys_scheme) storage_ops) worker_wait (pg_create P)"
    using prog.storage_contract_axioms
    by (simp add: keeping_env_def keeping_env_axioms_def worker_wait_def kp.success_basic create_in_quiet)
  from keeping_env.cb_worker_keeps [OF this] show ?thesis
    unfolding CallbackTurn run_turn.simps pg_onComplete_def by (intro kp.success_andThen kp.success_basic)
next
  case (HttpTurn curl_ok messages now)
  show ?thesis unfolding HttpTurn run_turn.simps
    by (intro kp.success_andThen kp.success_basic und_success http_worker_und)
next
  case (PollTurn due)
  show ?thesis unfolding PollTurn run_turn.simps by (intro on_successI grown_keeps polling_grown)
next
  case (WatchTurn canon evt)
  show ?thesis unfolding WatchTurn run_turn.simps by (rule quiet_success [OF onFsEvent_quiet])
next
  case (UserTurn f)
  show ?thesis unfolding UserTurn run_turn.simps by (intro und_success modify_und) simp_all
qed

lemma pg_wait_keeps_all: "on_success keeps_all (pg_wait P sched :: (('j, 's) csys_scheme, unit) act)"
proof -
  have "on_success keeps_all (andThen (for_each (run_turn P) ts)
       (\<lambda>_ w1. if ac_idle (cb_active w1) then ret () w1 else throw Diverges w1) :: (('j, 's) csys_scheme, unit) act)" for ts
    by (intro kp.success_andThen kp.success_for_each run_turn_keeps_all) (simp add: on_success_def)
  then show ?thesis unfolding pg_wait_def on_success_def by blast
qed

interpretation keeping: keeping_env "pg_stores P" "pg_wait P sched" "pg_create P"
  by unfold_locales (rule pg_wait_keeps_all create_in_quiet)+

lemma daemon_keeps_all: "daemon_reach P w w1 \<Longrightarrow> keeps_all w w1"
proof (induction rule: daemon_reach.induct)
  case (step w1 w2)
  from step.hyps(2) have "keeps_all w1 w2"
    by cases (blast intro: on_successD [OF run_turn_keeps_all] on_successD [OF keeping.process_step_keeps_all])+
  with step.IH show ?case by (rule kp.R_trans)
qed simp

subsection \<open>Nothing that is queued is forgotten\<close>

lemma rest_settled:
  assumes "accounts_ok w" and "all_paid [] w" and "at_rest w" and "table_ok w" and "q_items (sm_buff w) = []"
    and "kept {} w a"
  shows "a < length (w_heap w) \<and> (ch_status (w_heap w ! a) = CompletedS \<or> made_at_once w a)"
proof -
  have fin: "ch_status (w_heap w ! b) = CompletedS" "ch_pending (w_heap w ! b) = 0" if "started w b" for b
  proof -
    have b: "b < length (w_heap w)" "chain_commands (w_heap w ! b) = []"
      using that table_okD(2) [OF assms(4), of b] by (auto simp: started_def stage_ok_def)
    show "ch_status (w_heap w ! b) = CompletedS" by (rule rest_completed [OF assms(1-3) b])
    then show "ch_pending (w_heap w ! b) = 0" using assms(1) b(1) by (auto simp: work_ok_def change_ok_def)
  qed
  have "started w a \<or> made_at_once w a"
    using assms(6)
  proof induction
    case (running a b)
    then show ?case using fin(2) by force
  qed (use assms(5) in auto)
  then show ?thesis using fin(1) by (auto simp: started_def made_at_once_def)
qed


text \<open>
  The sample: the second deletion of the file, which waits behind the first (\<open>OnePerPath\<close>), is
  handed over when the first is completed, and completed by the next callback.
\<close>

definition again_ends :: bool where
  "again_ends \<longleftrightarrow>
     (case run_turn sample_program CallbackTurn again_waiting of
        (Inr u, w1) \<Rightarrow>
          (case run_turn sample_program CallbackTurn w1 of
             (Inr u, w2) \<Rightarrow>
               length (q_items (cb_queue w2)) + length (q_items (http_queue w2)) + length (http_inflight w2) +
               length (http_delayed w2) + length (q_items (sm_buff w2)) = 0 \<and> ch_type (w_heap w2 ! 1) = Delete
           | (Inl e, w2) \<Rightarrow> False)
      | (Inl e, w1) \<Rightarrow> False)"

lemma again_ends: again_ends
  by code_simp


end
