(* ===== verification/Transfers.thy ===== *)
theory Transfers
  imports Daemon DatabaseProps
begin

text \<open>
  What a chain of commands leaves in the database: the file a user made gets a row, the
  commands behind carry its id, and a finished upload links it with the id the cloud gave it.
\<close>

subsection \<open>Rows and links\<close>

lemma file_added:
  assumes "db_ok d" and "t_seq_files (db_tables d) < 2 ^ 31 - 1" and "plain_path (fr_rel_path r)"
    and "CHR 0x00 \<notin> set (path_string (fr_rel_path r))" and "add_file rc r d = (Inr g, d1)"
  shows "g \<notin> set (file_ids (db_tables d)) \<and> db_ok d1 \<and> t_links (db_tables d1) = t_links (db_tables d) \<and>
    (\<forall>c. (g, c) \<notin> set (link_keys (db_tables d1))) \<and>
    getFileByGlobalId rc_ok g d1 = (Inr (Some (record_local_info g (fr_type r) (fr_rel_path r) (fr_size r)
      (hash_num (fr_hash r)) (fr_mtime r) (fr_file_id r))), d1)"
proof -
  have d: "db_snapshot d = None" "tables_ok (db_tables d)" using assms(1) by (simp_all add: db_ok_def)
  obtain t where t: "stmt_add_file r (db_tables d) = Some (t, g)" and d1: "d1 = d\<lparr>db_tables := t\<rparr>"
    using af.success_effect [OF d(1), of rc r g] assms(5) by auto
  have l: "t_links t = t_links (db_tables d)" using stmt_add_file_files(2) [OF t] .
  have g: "g \<notin> set (file_ids (db_tables d))" using add_file_lookup [OF d assms(2-5)] by blast
  then have "(g, c) \<notin> set (link_keys (db_tables d))" for c using d(2) by (auto simp: tables_ok_def)
  moreover have "link_keys (db_tables d1) = link_keys (db_tables d)" using l d1 by (simp add: key_defs)
  moreover have "db_ok d1" using writes_db_ok(1) [OF assms(1), of rc r] assms(5) by simp
  ultimately show ?thesis using add_file_lookup [OF d assms(2-5)] g l d1 by simp
qed

lemma link_added:
  assumes "db_snapshot d = None" and "(fr_global_id r, fr_cloud_id r) \<notin> set (link_keys (db_tables d))"
    and "add_file_link rc r d = (Inr (), d1)" and "CHR 0x00 \<notin> set (fr_cloud_file_id r)"
  shows "\<exists>l. getFileByCloudIdAndGlobalId rc_ok (fr_cloud_id r) (fr_global_id r) d1 = (Inr (Some l), d1) \<and>
      fr_cloud_file_id l = fr_cloud_file_id r \<and> fr_global_id l = fr_global_id r \<and> fr_cloud_id l = fr_cloud_id r"
    and "t_files (db_tables d1) = t_files (db_tables d)"
proof -
  obtain t where t: "stmt_add_file_link r (db_tables d) = Some (t, ())" and d1: "d1 = d\<lparr>db_tables := t\<rparr>"
    using afl.success_effect [OF assms(1), of rc r "()"] assms(3) by auto
  note l = stmt_add_file_link_new [OF t assms(2)]
  show "\<exists>l. getFileByCloudIdAndGlobalId rc_ok (fr_cloud_id r) (fr_global_id r) d1 = (Inr (Some l), d1) \<and>
      fr_cloud_file_id l = fr_cloud_file_id r \<and> fr_global_id l = fr_global_id r \<and> fr_cloud_id l = fr_cloud_id r"
    using find_no_link [OF assms(2)] assms(4)
    by (simp add: d1 lookup_defs sh_simps find_link_key l(1) find_append link_key_def link_dto_def record_link_info_def)
  show "t_files (db_tables d1) = t_files (db_tables d)" using l(2) d1 by simp
qed

subsection \<open>The data handed on\<close>

text \<open>What a command behind an upload is given: the same file, its own cloud, and the folder there.\<close>

definition handed :: "file_record_dto \<Rightarrow> conn \<Rightarrow> command \<Rightarrow> command \<Rightarrow> bool" where
  "handed r d n n2 \<longleftrightarrow>
     (\<exists>r2 rc1 rc2. n2 = setDTO (RecordDTO r2) n \<and> fr_global_id r2 = fr_global_id r \<and> fr_type r2 = fr_type r \<and>
        fr_rel_path r2 = fr_rel_path r \<and> fr_cloud_id r2 = cmd_id n \<and>
        fst (getCloudFileIdByPath rc1 rc2 (parent_path (fr_rel_path r)) (cmd_id n) d) = Inr (fr_cloud_parent_id r2))"

lemma upload_next_handed:
  "upload_next ns r w = (Inr (r2, ns2), w1) \<Longrightarrow> w_db w1 = w_db w \<and> w_fs w1 = w_fs w \<and> list_all2 (handed r (w_db w)) ns ns2"
proof (induction ns r arbitrary: w r2 ns2 w1 rule: upload_next.induct)
  case (2 n ns r)
  obtain pid wa where a: "db_call2 (\<lambda>rc1 rc2. getCloudFileIdByPath rc1 rc2 (parent_path (fr_rel_path r)) (cmd_id n)) w
      = (Inr pid, wa)"
    using "2.prems" by (auto simp: andThen_ok)
  let ?r1 = "r\<lparr>fr_cloud_parent_id := pid, fr_cloud_id := cmd_id n\<rparr>"
  obtain r3 ns3 where b: "upload_next ns ?r1 wa = (Inr (r3, ns3), w1)" and n: "ns2 = setDTO (RecordDTO ?r1) n # ns3"
    using "2.prems" a by (auto simp: andThen_ok Let_def)
  obtain d2 where q: "getCloudFileIdByPath (w_rc w (w_calls w)) (w_rc w (Suc (w_calls w))) (parent_path (fr_rel_path r))
      (cmd_id n) (w_db w) = (Inr pid, d2)" and d: "w_db wa = d2" and fsa: "w_fs wa = w_fs w"
    using a by (auto simp: db_call2_def split: prod.splits)
  have d: "w_db wa = w_db w"
    using d q getCloudFileIdByPath_frame [of "w_rc w (w_calls w)" "w_rc w (Suc (w_calls w))" _ "cmd_id n" "w_db w"]
    by (metis snd_conv)
  have p: "\<exists>rc1 rc2. fst (getCloudFileIdByPath rc1 rc2 (parent_path (fr_rel_path r)) (cmd_id n) (w_db w)) = Inr pid"
    using q by (metis fst_conv)
  have "w_db w1 = w_db wa \<and> w_fs w1 = w_fs wa \<and> list_all2 (handed ?r1 (w_db wa)) ns ns3" by (rule "2.IH" [OF refl b])
  moreover have "handed ?r1 dd = handed r dd" for dd by (intro ext) (simp add: handed_def)
  moreover have "handed r (w_db w) n (setDTO (RecordDTO ?r1) n)"
    unfolding handed_def using p by (intro exI [of _ ?r1]) simp
  ultimately show ?case using n d fsa by simp
qed simp

text \<open>The first command of a file the user made.\<close>

lemma local_upload_recorded:
  assumes d: "db_ok (w_db w)" "t_seq_files (db_tables (w_db w)) < 2 ^ 31 - 1"
    and p: "plain_path (fr_rel_path r)" "CHR 0x00 \<notin> set (path_string (fr_rel_path r))" and "fr_cloud_id r = 0"
    and c: "completion (local_ops xxh64) (Command LocalUpload 0 (Some (RecordDTO r)) h ow ns) w = (Inr c1, w1)"
  shows "\<exists>r1. fr_global_id r1 \<notin> set (file_ids (db_tables (w_db w))) \<and> db_ok (w_db w1) \<and>
      (\<forall>c. (fr_global_id r1, c) \<notin> set (link_keys (db_tables (w_db w1)))) \<and>
      fr_rel_path r1 = fr_rel_path r \<and> fr_type r1 = fr_type r \<and>
      getFileByGlobalId rc_ok (fr_global_id r1) (w_db w1) = (Inr (Some (record_local_info (fr_global_id r1) (fr_type r)
        (fr_rel_path r) (fr_size r) (hash_num (fr_hash r1)) (fr_mtime r1) (fr_file_id r1))), w_db w1) \<and>
      list_all2 (handed r1 (w_db w1)) ns (cmd_next c1)"
proof -
  obtain r1 wa where u: "local_proccesUpload xxh64 r [] w = (Inr r1, wa)"
    using c by (auto simp: complete_LocalUpload_def local_ops_def andThen_ok)
  obtain r2 where n: "upload_next ns r1 wa = (Inr (r2, cmd_next c1), w1)"
    using c u by (auto simp: complete_LocalUpload_def local_ops_def andThen_ok)
  let ?full = "full_path w (fr_rel_path r)"
  obtain mt gid where m: "convertSystemTime (w_fs w) ?full = Inr mt"
    and a: "db_call (\<lambda>rc. add_file rc (r\<lparr>fr_file_id := getFileId (w_fs w) ?full,
        fr_hash := HashNum (computeFileHash xxh64 (w_fs w) ?full), fr_mtime := mt\<rparr>)) w = (Inr gid, wa)"
    and r1: "r1 = r\<lparr>fr_file_id := getFileId (w_fs w) ?full,
        fr_hash := HashNum (computeFileHash xxh64 (w_fs w) ?full), fr_mtime := mt, fr_global_id := gid\<rparr>"
    using u \<open>fr_cloud_id r = 0\<close> by (auto simp: local_proccesUpload_def Let_def andThen_ok fs_query_def)
  let ?d1 = "r\<lparr>fr_file_id := getFileId (w_fs w) ?full, fr_hash := HashNum (computeFileHash xxh64 (w_fs w) ?full), fr_mtime := mt\<rparr>"
  have f: "add_file (w_rc w (w_calls w)) ?d1 (w_db w) = (Inr gid, w_db wa)"
    using a by (auto simp: db_call_def split: prod.splits)
  have "plain_path (fr_rel_path ?d1)" "CHR 0x00 \<notin> set (path_string (fr_rel_path ?d1))" using p by simp_all
  note added = file_added [OF d this f]
  note passed = upload_next_handed [OF n]
  show ?thesis
    by (rule exI [of _ r1]) (use added passed in \<open>simp add: r1 handed_def\<close>)
qed

lemma upload_answered:
  assumes "ops = google_ops J i \<and> gd_id (w_google w i) = fr_cloud_id r \<or> ops = dropbox_ops J i \<and> fr_type r = File"
    and "so_proccesUpload ops r s w = (Inr r1, w1)"
    and "js_parse J s = Inr j" and "js_text_at J j ''id'' = Inr cid"
  shows "w1 = w \<and> fr_global_id r1 = fr_global_id r \<and> fr_cloud_id r1 = fr_cloud_id r \<and> fr_cloud_file_id r1 = cid"
  using assms
  by (auto simp: google_ops_def dropbox_ops_def gd_proccesUpload_def dx_proccesUpload_def andThen_ok Let_def split: if_splits)

lemma cloud_upload_recorded:
  assumes "db_ok (w_db w)" and "(fr_global_id r, fr_cloud_id r) \<notin> set (link_keys (db_tables (w_db w)))"
    and ops: "ops = google_ops J i \<and> gd_id (w_google w i) = fr_cloud_id r \<or> ops = dropbox_ops J i \<and> fr_type r = File"
    and c: "completion ops (Command CloudUpload i0 (Some (RecordDTO r)) (Some h) ow ns) w = (Inr c1, w1)"
    and j: "js_parse J (h_response h) = Inr j" "js_text_at J j ''id'' = Inr cid" "CHR 0x00 \<notin> set cid"
  shows "(\<exists>l. getFileByCloudIdAndGlobalId rc_ok (fr_cloud_id r) (fr_global_id r) (w_db w1) = (Inr (Some l), w_db w1) \<and>
      fr_cloud_file_id l = cid \<and> fr_global_id l = fr_global_id r \<and> fr_cloud_id l = fr_cloud_id r) \<and>
    t_files (db_tables (w_db w1)) = t_files (db_tables (w_db w))"
proof -
  obtain r1 wa where u: "so_proccesUpload ops r (h_response h) w = (Inr r1, wa)"
    using c by (auto simp: complete_CloudUpload_def andThen_ok)
  note a = upload_answered [OF ops u j(1,2)]
  have l: "add_file_link (w_rc w (w_calls w)) r1 (w_db w) = (Inr (), w_db w1)"
    using c u a by (auto simp: complete_CloudUpload_def andThen_ok db_call_def split: prod.splits)
  have s: "db_snapshot (w_db w) = None" using assms(1) by (simp add: db_ok_def)
  have k: "(fr_global_id r1, fr_cloud_id r1) \<notin> set (link_keys (db_tables (w_db w)))" using assms(2) a by simp
  from link_added [OF s k l] a j(3) show ?thesis by simp
qed

lemma file_lookup_files:
  assumes "t_files (db_tables d1) = t_files (db_tables d)" and "getFileByGlobalId rc_ok g d = (Inr (Some f), d)"
  shows "getFileByGlobalId rc_ok g d1 = (Inr (Some f), d1)"
  using assms by (auto simp: lookup_defs sh_simps split: option.splits)

lemma handed_upload:
  assumes "handed r d n0 n" and "cmd_kind n = CloudUpload"
  shows "\<exists>r2 h ow ns. n = Command CloudUpload (cmd_id n) (Some (RecordDTO r2)) h ow ns \<and> fr_cloud_id r2 = cmd_id n \<and>
    fr_global_id r2 = fr_global_id r \<and> fr_type r2 = fr_type r \<and> fr_rel_path r2 = fr_rel_path r"
proof -
  obtain r2 where r2: "n = setDTO (RecordDTO r2) n0" "fr_global_id r2 = fr_global_id r" "fr_type r2 = fr_type r"
    "fr_rel_path r2 = fr_rel_path r" "fr_cloud_id r2 = cmd_id n0"
    using assms(1) by (auto simp: handed_def)
  then show ?thesis using assms(2) by (cases n0) (auto split: if_splits)
qed

text \<open>
  C24. A file the user made is recorded once in every cloud it reached: the local step gives it a
  fresh id and a row with its path and type; every upload behind that step is handed this id
  and its own cloud; and when the answer of that cloud (Google Drive or Dropbox) to the upload
  is processed, the database links the id in this cloud with the id the answer names, the
  row of the file being still there.
\<close>

theorem new_file_recorded:
  assumes "db_ok (w_db w)" and "t_seq_files (db_tables (w_db w)) < 2 ^ 31 - 1"
    and "plain_path (fr_rel_path r)" and "CHR 0x00 \<notin> set (path_string (fr_rel_path r))" and "fr_cloud_id r = 0"
    and first: "completion (local_ops xxh64) (Command LocalUpload 0 (Some (RecordDTO r)) h ow ns) w = (Inr c1, w1)"
    and n: "n \<in> set (cmd_next c1)" "cmd_kind n = CloudUpload"
    and same: "w_db w2 = w_db w1"
    and ops: "ops = google_ops J i \<and> gd_id (w_google w2 i) = cmd_id n \<or> ops = dropbox_ops J i \<and> fr_type r = File"
    and second: "completion ops (with_handle answered n) w2 = (Inr c2, w3)"
    and answer: "js_parse J (h_response answered) = Inr j" "js_text_at J j ''id'' = Inr cid" "CHR 0x00 \<notin> set cid"
  shows "\<exists>g f l. g \<notin> set (file_ids (db_tables (w_db w))) \<and>
    getFileByGlobalId rc_ok g (w_db w3) = (Inr (Some f), w_db w3) \<and>
    fr_rel_path f = fr_rel_path r \<and> fr_type f = fr_type r \<and>
    getFileByCloudIdAndGlobalId rc_ok (cmd_id n) g (w_db w3) = (Inr (Some l), w_db w3) \<and>
    fr_cloud_file_id l = cid \<and> fr_global_id l = g \<and> fr_cloud_id l = cmd_id n"
proof -
  obtain r1 where r1: "fr_global_id r1 \<notin> set (file_ids (db_tables (w_db w)))" "db_ok (w_db w1)"
    "\<And>c. (fr_global_id r1, c) \<notin> set (link_keys (db_tables (w_db w1)))" "fr_type r1 = fr_type r"
    "getFileByGlobalId rc_ok (fr_global_id r1) (w_db w1) = (Inr (Some (record_local_info (fr_global_id r1) (fr_type r)
        (fr_rel_path r) (fr_size r) (hash_num (fr_hash r1)) (fr_mtime r1) (fr_file_id r1))), w_db w1)"
    "list_all2 (handed r1 (w_db w1)) ns (cmd_next c1)"
    using local_upload_recorded [OF assms(1-5) first] by blast
  obtain n0 where "handed r1 (w_db w1) n0 n"
    using r1(6) n(1) by (auto simp: list_all2_conv_all_nth in_set_conv_nth)
  then obtain r2 hn on nn where r2: "n = Command CloudUpload (cmd_id n) (Some (RecordDTO r2)) hn on nn"
    "fr_cloud_id r2 = cmd_id n" "fr_global_id r2 = fr_global_id r1" "fr_type r2 = fr_type r1"
    using handed_upload [OF _ n(2)] by blast
  have c: "completion ops (Command CloudUpload (cmd_id n) (Some (RecordDTO r2)) (Some answered) on nn) w2 = (Inr c2, w3)"
    using second arg_cong [OF r2(1), of "with_handle answered"] by (simp only: with_handle.simps)
  have "db_ok (w_db w2)" "(fr_global_id r2, fr_cloud_id r2) \<notin> set (link_keys (db_tables (w_db w2)))"
    using r1(2,3) same r2(3) by simp_all
  from cloud_upload_recorded [OF this _ c answer] ops r2 r1(4)
  obtain l where l: "getFileByCloudIdAndGlobalId rc_ok (cmd_id n) (fr_global_id r1) (w_db w3) = (Inr (Some l), w_db w3)"
    "fr_cloud_file_id l = cid" "fr_global_id l = fr_global_id r1" "fr_cloud_id l = cmd_id n"
    "t_files (db_tables (w_db w3)) = t_files (db_tables (w_db w2))"
    by auto
  have "getFileByGlobalId rc_ok (fr_global_id r1) (w_db w3) = (Inr (Some (record_local_info (fr_global_id r1) (fr_type r)
        (fr_rel_path r) (fr_size r) (hash_num (fr_hash r1)) (fr_mtime r1) (fr_file_id r1))), w_db w3)"
    by (rule file_lookup_files [OF _ r1(5)]) (simp add: l(5) same)
  then show ?thesis using r1(1) l
    by (intro exI [of _ "fr_global_id r1"]) (auto simp: record_local_info_def)
qed

text \<open>The sample: a file below a directory that the cloud \<open>1\<close> has under the id \<open>x\<close>.\<close>

definition up_path :: path where
  "up_path = \<lparr>rooted = False, segs = [''a'', ''f'']\<rparr>"

definition up_world :: "jv csys" where
  "up_world = (sample_daemon [] [] [] 0)
     \<lparr>w_fs := sample_fs\<lparr>fs_nodes := fs_nodes sample_fs @
        [([''h'', ''a''], \<lparr>n_dir = True, n_data = [], n_mtime = 0, n_ino = 5\<rparr>),
         ([''h'', ''a'', ''f''], \<lparr>n_dir = False, n_data = ''hi'', n_mtime = 7000000000, n_ino = 6\<rparr>)]\<rparr>\<rparr>"

definition up_record :: file_record_dto where
  "up_record = record_local_new File up_path 2 7 0 6"

definition up_command :: command where
  "up_command = Command LocalUpload 0 (Some (RecordDTO up_record)) None (Some 0)
     [Command CloudUpload 1 None None (Some 0) []]"

definition up_lib :: "jv lib" where
  "up_lib = table_lib [(''answer'', JObj [(''id'', JText ''new''), (''modifiedTime'', JText ''2025-05-09T08:07:06Z''),
     (''parents'', JList [JText ''x''])])]"

definition up_handle :: handle where
  "up_handle = (RequestHandle True [])\<lparr>h_response := ''answer''\<rparr>"

definition up_works :: bool where
  "up_works \<longleftrightarrow>
     (case completion (local_ops (\<lambda>_. 1)) up_command up_world of
        (Inr c1, w1) \<Rightarrow>
          (case cmd_next c1 of
             [n] \<Rightarrow> cmd_kind n = CloudUpload \<and> cmd_id n = 1 \<and> gd_id (w_google w1 1) = 1 \<and>
               (case completion (google_ops up_lib 1) (with_handle up_handle n) w1 of (Inr c2, w3) \<Rightarrow> True | _ \<Rightarrow> False)
           | _ \<Rightarrow> False)
      | _ \<Rightarrow> False)"

lemma up_runs: up_works
  by code_simp

theorem new_file_recorded_witness:
  "\<exists>c1 w1 w3 g f l. completion (local_ops (\<lambda>_. 1)) up_command up_world = (Inr c1, w1) \<and>
     map_prod is_ok (\<lambda>w. w_db w) (completion (google_ops up_lib 1) (with_handle up_handle (hd (cmd_next c1))) w1) = (True, w_db w3) \<and>
     g \<noteq> 1 \<and> getFileByGlobalId rc_ok g (w_db w3) = (Inr (Some f), w_db (w3 :: jv csys)) \<and> fr_rel_path f = up_path \<and>
     getFileByCloudIdAndGlobalId rc_ok 1 g (w_db w3) = (Inr (Some l), w_db w3) \<and> fr_cloud_file_id l = ''new''"
proof -
  obtain c1 w1 n c2 w3 where r: "completion (local_ops (\<lambda>_. 1)) up_command up_world = (Inr c1, w1)" "cmd_next c1 = [n]"
    "cmd_kind n = CloudUpload" "cmd_id n = 1" "gd_id (w_google w1 1) = 1"
    "completion (google_ops up_lib 1) (with_handle up_handle n) w1 = (Inr c2, w3)"
    using up_runs by (auto simp: up_works_def split: prod.splits sum.splits list.splits)
  have s: "db_ok (w_db up_world)" "t_seq_files (db_tables (w_db up_world)) = 1" "file_ids (db_tables (w_db up_world)) = [1]"
    by (simp_all add: up_world_def sample_daemon_def db_ok_def)
  have p: "plain_path (fr_rel_path up_record)" "CHR 0x00 \<notin> set (path_string (fr_rel_path up_record))"
    "fr_cloud_id up_record = 0" "fr_rel_path up_record = up_path"
    by code_simp+
  have j: "js_parse up_lib (h_response up_handle) = Inr (JObj [(''id'', JText ''new''), (''modifiedTime'', JText ''2025-05-09T08:07:06Z''),
     (''parents'', JList [JText ''x''])])" "js_text_at up_lib (JObj [(''id'', JText ''new''), (''modifiedTime'', JText ''2025-05-09T08:07:06Z''),
     (''parents'', JList [JText ''x''])]) ''id'' = Inr ''new''"
    by (simp_all add: up_lib_def up_handle_def table_lib_def js_text_at_def)
  have "\<exists>g f l. g \<notin> set (file_ids (db_tables (w_db up_world))) \<and>
    getFileByGlobalId rc_ok g (w_db w3) = (Inr (Some f), w_db w3) \<and> fr_rel_path f = fr_rel_path up_record \<and>
    fr_type f = fr_type up_record \<and> getFileByCloudIdAndGlobalId rc_ok (cmd_id n) g (w_db w3) = (Inr (Some l), w_db w3) \<and>
    fr_cloud_file_id l = ''new'' \<and> fr_global_id l = g \<and> fr_cloud_id l = cmd_id n"
    by (rule new_file_recorded [where i = 1, OF s(1) _ p(1-3) r(1) [unfolded up_command_def] _ r(3) refl _ r(6) j])
       (use r s(2) in simp_all)
  then show ?thesis using r s(3) p(4) by auto
qed

subsection \<open>A downloaded file\<close>

lemma rename_file:
  assumes r: "fs_rename p q f = (Inr (), f1)" and n: "fs_node f p = Some nd"
    and leaf: "\<forall>e \<in> set (fs_nodes f). \<not> below (fs_key f p) (fst e)" and ne: "fs_key f p \<noteq> fs_key f q"
  shows "\<forall>k. map_of (fs_nodes f1) k =
      (if k = fs_key f q then Some nd else if k = fs_key f p then None else map_of (fs_nodes f) k)"
    and "fs_key f1 = fs_key f"
proof -
  let ?a = "fs_key f p" and ?b = "fs_key f q"
  have a: "map_of (fs_nodes f) ?a = Some nd" using n by (simp add: fs_node_def)
  let ?move = "map (\<lambda>e. (rekey ?a ?b (fst e), snd e))"
  have rk: "rekey ?a ?b (fst e) = (if fst e = ?a then ?b else fst e)" if "e \<in> set (fs_nodes f)" for e
    using leaf that by (auto simp: rekey_def)
  have moved: "map_of (?move xs) k = (if k = ?b then map_of xs ?a else if k = ?a then None else map_of xs k)"
    if "set xs \<subseteq> set (fs_nodes f)" "?b \<notin> fst ` set xs" for xs k
    using that by (induction xs) (auto simp: rk ne)
  have nb: "?b \<notin> fst ` set (filter (\<lambda>e. fst e \<noteq> ?b) (fs_nodes f))" by auto
  let ?ns = "filter (\<lambda>e. fst e \<noteq> ?b) (fs_nodes f)"
  have f1: "f1 = f\<lparr>fs_nodes := ?move ?ns\<rparr>"
  proof (cases "map_of (fs_nodes f) ?b")
    case None
    then have "?ns = fs_nodes f" by (force simp: map_of_eq_None_iff filter_id_conv)
    then show ?thesis using r a ne None by (auto simp: fs_rename_def Let_def split: if_splits option.splits)
  next
    case (Some t)
    then show ?thesis using r a ne by (auto simp: fs_rename_def Let_def split: if_splits option.splits)
  qed
  show "fs_key f1 = fs_key f" by (intro ext) (simp add: f1)
  show "\<forall>k. map_of (fs_nodes f1) k = (if k = ?b then Some nd else if k = ?a then None else map_of (fs_nodes f) k)"
  proof
    fix k
    have "map_of (fs_nodes f1) k = (if k = ?b then map_of ?ns ?a else if k = ?a then None else map_of ?ns k)"
      using moved [OF _ nb, of k] unfolding f1 by (simp del: map_of_filter_key)
    then show "map_of (fs_nodes f1) k = (if k = ?b then Some nd else if k = ?a then None else map_of (fs_nodes f) k)"
      using a ne by (simp add: map_of_filter_key)
  qed
qed

text \<open>
  C25. A downloaded file is installed whole: when the local step behind a download returns, the
  file is under its own name with the bytes that were under the temporary one, which is
  gone, no other entry has changed, the database has a fresh row for it with the size of
  these bytes and a link to the file of the cloud it came from, and every further upload is
  handed the new id.
\<close>

theorem download_installed:
  assumes d: "db_ok (w_db w)" "t_seq_files (db_tables (w_db w)) < 2 ^ 31 - 1"
    and p: "plain_path (fr_rel_path r)" "CHR 0x00 \<notin> set (path_string (fr_rel_path r))"
    and src: "fr_cloud_id r \<noteq> 0" "CHR 0x00 \<notin> set (fr_cloud_file_id r)"
    and t: "tmp = upload_tmp (ls_home w) (fr_rel_path r)" "fs_node (w_fs w) tmp = Some nd"
      "\<forall>e \<in> set (fs_nodes (w_fs w)). \<not> below (fs_key (w_fs w) tmp) (fst e)"
      "fs_key (w_fs w) tmp \<noteq> fs_key (w_fs w) (full_path w (fr_rel_path r))"
    and c: "completion (local_ops xxh64) (Command LocalUpload 0 (Some (RecordDTO r)) h ow ns) w = (Inr c1, w1)"
  shows "(\<forall>k. map_of (fs_nodes (w_fs w1)) k =
      (if k = fs_key (w_fs w) (full_path w (fr_rel_path r)) then Some nd
       else if k = fs_key (w_fs w) tmp then None else map_of (fs_nodes (w_fs w)) k)) \<and>
    (\<exists>r1 l. fr_global_id r1 \<notin> set (file_ids (db_tables (w_db w))) \<and>
      getFileByGlobalId rc_ok (fr_global_id r1) (w_db w1) = (Inr (Some (record_local_info (fr_global_id r1) (fr_type r)
        (fr_rel_path r) (of_nat (length (n_data nd))) (hash_num (fr_hash r1)) (fr_mtime r1) (fr_file_id r1))), w_db w1) \<and>
      getFileByCloudIdAndGlobalId rc_ok (fr_cloud_id r) (fr_global_id r1) (w_db w1) = (Inr (Some l), w_db w1) \<and>
      fr_cloud_file_id l = fr_cloud_file_id r \<and> list_all2 (handed r1 (w_db w1)) ns (cmd_next c1))"
proof -
  let ?full = "full_path w (fr_rel_path r)"
  obtain r1 wa where u: "local_proccesUpload xxh64 r [] w = (Inr r1, wa)"
    using c by (auto simp: complete_LocalUpload_def local_ops_def andThen_ok)
  obtain r2 where n: "upload_next ns r1 wa = (Inr (r2, cmd_next c1), w1)"
    using c u by (auto simp: complete_LocalUpload_def local_ops_def andThen_ok)
  note passed = upload_next_handed [OF n]
  let ?w = "\<lambda>f. w\<lparr>w_fs := f\<rparr>"
  obtain f1 mt gid wb where ren: "fs_rename tmp ?full (w_fs w) = (Inr (), f1)"
    and sz: "fs_file_size f1 ?full = Inr (fr_size r1)"
    and a: "db_call (\<lambda>rc. add_file rc (r\<lparr>fr_file_id := getFileId f1 ?full, fr_size := fr_size r1,
        fr_hash := HashNum (computeFileHash xxh64 f1 ?full), fr_mtime := mt, fr_cloud_id := ls_id w\<rparr>)) (?w f1) = (Inr gid, wb)"
    and b: "db_call (\<lambda>rc. add_file_link rc (r\<lparr>fr_global_id := gid\<rparr>)) wb = (Inr (), wa)"
    and r1: "r1 = r\<lparr>fr_file_id := getFileId f1 ?full, fr_size := fr_size r1,
        fr_hash := HashNum (computeFileHash xxh64 f1 ?full), fr_mtime := mt, fr_cloud_id := ls_id w, fr_global_id := gid\<rparr>"
    using u src(1) t(1)
    by (auto simp: local_proccesUpload_def Let_def andThen_ok fs_call_def fs_query_def split: prod.splits)
  let ?d1 = "r\<lparr>fr_file_id := getFileId f1 ?full, fr_size := fr_size r1,
        fr_hash := HashNum (computeFileHash xxh64 f1 ?full), fr_mtime := mt, fr_cloud_id := ls_id w\<rparr>"
  have fs: "w_fs wb = f1" "w_fs wa = f1" using a b by (auto simp: db_call_def split: prod.splits)
  have f: "add_file (w_rc w (w_calls w)) ?d1 (w_db w) = (Inr gid, w_db wb)"
    using a by (auto simp: db_call_def split: prod.splits)
  have l: "add_file_link (w_rc wb (w_calls wb)) (r\<lparr>fr_global_id := gid\<rparr>) (w_db wb) = (Inr (), w_db wa)"
    using b by (auto simp: db_call_def split: prod.splits)
  have "plain_path (fr_rel_path ?d1)" "CHR 0x00 \<notin> set (path_string (fr_rel_path ?d1))" using p by simp_all
  note added = file_added [OF d this f]
  have k: "(fr_global_id (r\<lparr>fr_global_id := gid\<rparr>), fr_cloud_id (r\<lparr>fr_global_id := gid\<rparr>)) \<notin> set (link_keys (db_tables (w_db wb)))"
    "db_snapshot (w_db wb) = None" "CHR 0x00 \<notin> set (fr_cloud_file_id (r\<lparr>fr_global_id := gid\<rparr>))"
    using added src(2) by (simp_all add: db_ok_def)
  note linked = link_added [OF k(2,1) l k(3)]
  note moved = rename_file [OF ren t(2-4)]
  have "fs_node f1 ?full = Some nd" using moved by (simp add: fs_node_def)
  then have size: "fr_size r1 = of_nat (length (n_data nd))" using sz by (auto simp: fs_file_size_def split: if_splits)
  have "getFileByGlobalId rc_ok gid (w_db wa) = (Inr (Some (record_local_info gid (fr_type ?d1) (fr_rel_path ?d1) (fr_size ?d1)
      (hash_num (fr_hash ?d1)) (fr_mtime ?d1) (fr_file_id ?d1))), w_db wa)"
    by (rule file_lookup_files [OF linked(2)]) (use added in blast)
  moreover have "fr_global_id r1 = gid" "hash_num (fr_hash r1) = hash_num (fr_hash ?d1)" "fr_mtime r1 = mt"
    "fr_file_id r1 = getFileId f1 ?full" by (subst r1, simp)+
  ultimately show ?thesis using moved(1) passed fs size added linked(1) by auto
qed

definition down_path :: path where
  "down_path = \<lparr>rooted = False, segs = [''n'']\<rparr>"

definition down_record :: file_record_dto where
  "down_record = (record_local_new File down_path 3 7 0 0)
     \<lparr>fr_cloud_id := 1, fr_cloud_file_id := ''cf'', fr_cloud_parent_id := ''x'', fr_hash := HashStr ''h''\<rparr>"

lemma down_runs:
  "is_ok (fst (completion (local_ops (\<lambda>_. 1)) (Command LocalUpload 0 (Some (RecordDTO down_record)) None (Some 0) [])
     (sample_daemon [] [] [] 0)))"
  by code_simp

theorem download_installed_witness:
  "\<exists>c1 w1 g f l. completion (local_ops (\<lambda>_. 1)) (Command LocalUpload 0 (Some (RecordDTO down_record)) None (Some 0) [])
       (sample_daemon [] [] [] 0) = (Inr c1, w1) \<and>
     map_of (fs_nodes (w_fs w1)) [''h'', ''n''] = Some \<lparr>n_dir = False, n_data = ''abc'', n_mtime = 8000000000, n_ino = 4\<rparr> \<and>
     map_of (fs_nodes (w_fs w1)) [''h'', ''.-tmp-SyncHarbor-n''] = None \<and> g \<noteq> 1 \<and>
     getFileByGlobalId rc_ok g (w_db w1) = (Inr (Some f), w_db w1) \<and> fr_rel_path f = down_path \<and> fr_size f = 3 \<and>
     getFileByCloudIdAndGlobalId rc_ok 1 g (w_db w1) = (Inr (Some l), w_db w1) \<and> fr_cloud_file_id l = ''cf''"
proof -
  let ?w = "sample_daemon [] [] [] 0" and ?nd = "\<lparr>n_dir = False, n_data = ''abc'', n_mtime = 8000000000, n_ino = 4\<rparr> :: node"
  obtain c1 w1 where c: "completion (local_ops (\<lambda>_. 1)) (Command LocalUpload 0 (Some (RecordDTO down_record)) None (Some 0) []) ?w
      = (Inr c1, w1)"
    using down_runs by (cases "completion (local_ops (\<lambda>_. 1)) (Command LocalUpload 0 (Some (RecordDTO down_record)) None (Some 0) []) ?w";
        cases "fst (completion (local_ops (\<lambda>_. 1)) (Command LocalUpload 0 (Some (RecordDTO down_record)) None (Some 0) []) ?w)") auto
  have s: "db_ok (w_db ?w)" "t_seq_files (db_tables (w_db ?w)) = 1" "file_ids (db_tables (w_db ?w)) = [1]"
    by (simp_all add: sample_daemon_def db_ok_def)
  let ?tmp = "upload_tmp (ls_home ?w) (fr_rel_path down_record)"
  have p: "plain_path (fr_rel_path down_record)" "CHR 0x00 \<notin> set (path_string (fr_rel_path down_record))"
    "fr_cloud_id down_record \<noteq> 0" "CHR 0x00 \<notin> set (fr_cloud_file_id down_record)"
    by code_simp+
  have k: "fs_key (w_fs ?w) ?tmp = [''h'', ''.-tmp-SyncHarbor-n'']"
    "fs_key (w_fs ?w) (full_path ?w (fr_rel_path down_record)) = [''h'', ''n'']"
    "\<forall>e \<in> set (fs_nodes (w_fs ?w)). \<not> below [''h'', ''.-tmp-SyncHarbor-n''] (fst e)"
    "map_of (fs_nodes (w_fs ?w)) [''h'', ''.-tmp-SyncHarbor-n''] = Some ?nd"
    by code_simp+
  have f: "fs_node (w_fs ?w) ?tmp = Some ?nd" using k(1,4) by (simp add: fs_node_def)
  have e: "\<forall>e \<in> set (fs_nodes (w_fs ?w)). \<not> below (fs_key (w_fs ?w) ?tmp) (fst e)"
    "fs_key (w_fs ?w) ?tmp \<noteq> fs_key (w_fs ?w) (full_path ?w (fr_rel_path down_record))"
    using k(1-3) by simp_all
  have seq: "t_seq_files (db_tables (w_db ?w)) < 2 ^ 31 - 1" using s(2) by simp
  note installed = download_installed [OF s(1) seq p refl f e c]
  show ?thesis
    using installed c s(3) k(1,2)
    by (auto simp: record_local_info_def down_record_def record_local_new_def)
qed

end
