(* ===== verification/Logger.thy ===== *)
theory Logger
  imports Format CloudTime
begin

text \<open>
  \<open>src/logger.cpp\<close> and \<open>include/logger.h\<close>: the logger with its destinations, the names of
  threads and of clouds. Each operation holds the mutex of its object and is one step. The
  files are kept as texts by name, \<open>lg_openable\<close> tells which names can be opened; opening
  truncates, and each destination writes at a position of its own. \<open>lt\<close> stands for
  \<open>std::localtime\<close>: seconds since 1970 to the broken-down local time; the time of a message is in
  milliseconds.
\<close>

subsection \<open>Levels\<close>

datatype log_level = LogDBG | LogINF | LogWRN | LogERR

fun level_num :: "log_level \<Rightarrow> nat" where
  "level_num LogDBG = 0"
| "level_num LogINF = 1"
| "level_num LogWRN = 2"
| "level_num LogERR = 3"

lemma level_num_inj: "level_num k = level_num l \<Longrightarrow> k = l"
  by (cases k; cases l) simp_all

instantiation log_level :: linorder
begin

definition less_eq_log_level :: "log_level \<Rightarrow> log_level \<Rightarrow> bool" where
  "less_eq_log_level k l \<longleftrightarrow> level_num k \<le> level_num l"

definition less_log_level :: "log_level \<Rightarrow> log_level \<Rightarrow> bool" where
  "less_log_level k l \<longleftrightarrow> level_num k < level_num l"

instance
  by standard (auto simp: less_eq_log_level_def less_log_level_def intro: level_num_inj)

end

fun levelToString :: "log_level \<Rightarrow> string" where
  "levelToString LogDBG = ''DEBUG''"
| "levelToString LogINF = ''INFO''"
| "levelToString LogWRN = ''WARNING''"
| "levelToString LogERR = ''ERROR''"

subsection \<open>State\<close>

record log_dest =
  ld_file :: string
  ld_open :: bool
  ld_pos :: nat
  ld_level :: log_level

record logger =
  lg_dests :: "(string \<times> log_dest) list"
  lg_console :: bool
  lg_level :: log_level
  lg_screen :: string
  lg_disk :: "string \<Rightarrow> string"
  lg_openable :: "string \<Rightarrow> bool"
  lg_threads :: "nat \<Rightarrow> string option"
  lg_clouds :: "int \<Rightarrow> string option"

definition logger_new :: "(string \<Rightarrow> string) \<Rightarrow> (string \<Rightarrow> bool) \<Rightarrow> logger" where
  "logger_new disk openable =
     \<lparr>lg_dests = [], lg_console = False, lg_level = LogDBG, lg_screen = [], lg_disk = disk,
      lg_openable = openable, lg_threads = (\<lambda>_. None), lg_clouds = (\<lambda>_. None)\<rparr>"

subsection \<open>Names\<close>

definition setThreadName :: "nat \<Rightarrow> string \<Rightarrow> logger \<Rightarrow> logger" where
  "setThreadName t name lg = lg\<lparr>lg_threads := (lg_threads lg)(t := Some name)\<rparr>"

definition getThreadName :: "nat \<Rightarrow> logger \<Rightarrow> string" where
  "getThreadName t lg = (case lg_threads lg t of Some n \<Rightarrow> n | None \<Rightarrow> ''unknown'')"

definition registerCloud_name :: "int \<Rightarrow> string \<Rightarrow> logger \<Rightarrow> logger" where
  "registerCloud_name i name lg = lg\<lparr>lg_clouds := (lg_clouds lg)(i := Some name)\<rparr>"

definition getName :: "int \<Rightarrow> logger \<Rightarrow> string" where
  "getName i lg = (case lg_clouds lg i of Some n \<Rightarrow> n | None \<Rightarrow> ''unknown_cloud'')"

subsection \<open>Destinations\<close>

text \<open>The map is kept in the order of its keys, in which the destinations are written.\<close>

fun name_less :: "string \<Rightarrow> string \<Rightarrow> bool" where
  "name_less [] t \<longleftrightarrow> t \<noteq> []"
| "name_less (a # s) [] \<longleftrightarrow> False"
| "name_less (a # s) (b # t) \<longleftrightarrow> (of_char a :: nat) < of_char b \<or> (a = b \<and> name_less s t)"

definition dest_put :: "string \<Rightarrow> log_dest \<Rightarrow> (string \<times> log_dest) list \<Rightarrow> (string \<times> log_dest) list" where
  "dest_put n d ds =
     (let r = filter (\<lambda>e. fst e \<noteq> n) ds
      in takeWhile (\<lambda>e. name_less (fst e) n) r @ (n, d) # dropWhile (\<lambda>e. name_less (fst e) n) r)"

definition addLogFile :: "string \<Rightarrow> string \<Rightarrow> logger \<Rightarrow> logger" where
  "addLogFile name fname lg =
     (let opens = lg_openable lg fname;
          d = \<lparr>ld_file = fname, ld_open = opens, ld_pos = 0, ld_level = lg_level lg\<rparr>
      in lg\<lparr>lg_dests := dest_put name d (lg_dests lg),
            lg_disk := (if opens then (lg_disk lg)(fname := []) else lg_disk lg)\<rparr>)"

definition setConsoleLogging :: "bool \<Rightarrow> logger \<Rightarrow> logger" where
  "setConsoleLogging enable lg = lg\<lparr>lg_console := enable\<rparr>"

definition setGlobalLogLevel :: "log_level \<Rightarrow> logger \<Rightarrow> logger" where
  "setGlobalLogLevel l lg = lg\<lparr>lg_level := l\<rparr>"

definition setLogLevelFor :: "string \<Rightarrow> log_level \<Rightarrow> logger \<Rightarrow> logger" where
  "setLogLevelFor name l lg =
     lg\<lparr>lg_dests := map (\<lambda>(n, d). (n, if n = name then d\<lparr>ld_level := l\<rparr> else d)) (lg_dests lg)\<rparr>"

subsection \<open>A message\<close>

text \<open>\<open>getTimestamp\<close>: the date and time to the millisecond.\<close>

definition getTimestamp :: "(int \<Rightarrow> tm) \<Rightarrow> int \<Rightarrow> string" where
  "getTimestamp lt ms =
     (let t = lt (ms div 1000)
      in pad 4 (tm_year t) @ ''-'' @ pad 2 (tm_mon t + 1) @ ''-'' @ pad 2 (tm_mday t) @ '' '' @
         pad 2 (tm_hour t) @ '':'' @ pad 2 (tm_min t) @ '':'' @ pad 2 (tm_sec t) @ ''.'' @ pad 3 (ms mod 1000))"

definition formatMessage :: "(int \<Rightarrow> tm) \<Rightarrow> int \<Rightarrow> string \<Rightarrow> log_level \<Rightarrow> string \<Rightarrow> string \<Rightarrow> string" where
  "formatMessage lt ms thread_name level component message =
     getTimestamp lt ms @ '' ['' @ levelToString level @ '']'' @ '' [Thread:'' @ thread_name @ '']'' @
     '' ['' @ component @ ''] '' @ message"

definition write_at :: "nat \<Rightarrow> string \<Rightarrow> string \<Rightarrow> string" where
  "write_at pos s old = take pos old @ s @ drop (pos + length s) old"

definition takes :: "log_level \<Rightarrow> log_dest \<Rightarrow> bool" where
  "takes level d \<longleftrightarrow> ld_level d \<le> level \<and> ld_open d"

fun output_to :: "string \<Rightarrow> log_level \<Rightarrow> (string \<times> log_dest) list \<Rightarrow> (string \<Rightarrow> string) \<Rightarrow>
    (string \<times> log_dest) list \<times> (string \<Rightarrow> string)" where
  "output_to ln level [] disk = ([], disk)"
| "output_to ln level ((n, d) # r) disk =
     (let d1 = (if takes level d then d\<lparr>ld_pos := ld_pos d + length ln\<rparr> else d);
          disk1 = (if takes level d then disk(ld_file d := write_at (ld_pos d) ln (disk (ld_file d))) else disk);
          (r1, disk2) = output_to ln level r disk1
      in ((n, d1) # r1, disk2))"

definition output_line :: "string \<Rightarrow> log_level \<Rightarrow> logger \<Rightarrow> logger" where
  "output_line formatted level lg =
     (let ln = formatted @ [CHR 0x0A]; (ds, disk) = output_to ln level (lg_dests lg) (lg_disk lg)
      in lg\<lparr>lg_dests := ds, lg_disk := disk,
            lg_screen := (if lg_console lg then lg_screen lg @ ln else lg_screen lg)\<rparr>)"

text \<open>\<open>log\<close> with a finished message, and with a format and arguments.\<close>

definition log_message ::
  "(int \<Rightarrow> tm) \<Rightarrow> int \<Rightarrow> nat \<Rightarrow> log_level \<Rightarrow> string \<Rightarrow> string \<Rightarrow> (logger, unit) act" where
  "log_message lt ms thread level component message lg =
     (if level < lg_level lg then ret () lg
      else ret () (output_line (formatMessage lt ms (getThreadName thread lg) level component message) level lg))"

definition log_args ::
  "(int \<Rightarrow> tm) \<Rightarrow> int \<Rightarrow> nat \<Rightarrow> log_level \<Rightarrow> string \<Rightarrow> string \<Rightarrow> log_arg list \<Rightarrow> (logger, unit) act" where
  "log_args lt ms thread level component format as lg =
     (if level < lg_level lg then ret () lg
      else (case log_text format as of
              None \<Rightarrow> throw UndefinedFormat lg
            | Some message \<Rightarrow>
                ret () (output_line (formatMessage lt ms (getThreadName thread lg) level component message) level lg)))"

subsection \<open>Runs\<close>

datatype log_op =
    AddLogFile string string
  | SetConsole bool
  | SetGlobalLevel log_level
  | SetLevelFor string log_level
  | NameThread nat string
  | NameCloud int string
  | LogMessage int nat log_level string string
  | LogArgs int nat log_level string string "log_arg list"

fun log_step :: "(int \<Rightarrow> tm) \<Rightarrow> log_op \<Rightarrow> (logger, unit) act" where
  "log_step lt (AddLogFile n f) = modify (addLogFile n f)"
| "log_step lt (SetConsole b) = modify (setConsoleLogging b)"
| "log_step lt (SetGlobalLevel l) = modify (setGlobalLogLevel l)"
| "log_step lt (SetLevelFor n l) = modify (setLogLevelFor n l)"
| "log_step lt (NameThread t n) = modify (setThreadName t n)"
| "log_step lt (NameCloud i n) = modify (registerCloud_name i n)"
| "log_step lt (LogMessage ms t l c m) = log_message lt ms t l c m"
| "log_step lt (LogArgs ms t l c f as) = log_args lt ms t l c f as"

subsection \<open>What a file holds\<close>

text \<open>
  The reference: the lines a destination gets, from the global level, its own level and the
  names of the threads at the start, read off the sequence of calls alone.
\<close>

fun kept_lines ::
  "(int \<Rightarrow> tm) \<Rightarrow> string \<Rightarrow> log_level \<Rightarrow> log_level \<Rightarrow> (nat \<Rightarrow> string option) \<Rightarrow> log_op list \<Rightarrow> string list" where
  "kept_lines lt n g l ths [] = []"
| "kept_lines lt n g l ths (SetGlobalLevel k # ops) = kept_lines lt n k l ths ops"
| "kept_lines lt n g l ths (SetLevelFor m k # ops) = kept_lines lt n g (if m = n then k else l) ths ops"
| "kept_lines lt n g l ths (NameThread t name # ops) = kept_lines lt n g l (ths(t := Some name)) ops"
| "kept_lines lt n g l ths (LogMessage ms t k c m # ops) =
     (if max g l \<le> k then [formatMessage lt ms (case ths t of Some x \<Rightarrow> x | None \<Rightarrow> ''unknown'') k c m] else []) @
     kept_lines lt n g l ths ops"
| "kept_lines lt n g l ths (LogArgs ms t k c f as # ops) =
     (if max g l \<le> k
      then [formatMessage lt ms (case ths t of Some x \<Rightarrow> x | None \<Rightarrow> ''unknown'') k c (the (log_text f as))] else []) @
     kept_lines lt n g l ths ops"
| "kept_lines lt n g l ths (_ # ops) = kept_lines lt n g l ths ops"

definition file_text :: "string list \<Rightarrow> string" where
  "file_text ls = concat (map (\<lambda>x. x @ [CHR 0x0A]) ls)"

text \<open>One destination writes to the file, at its end, and its level is the given one.\<close>

definition writes_file_of :: "string \<Rightarrow> string \<Rightarrow> log_level \<Rightarrow> logger \<Rightarrow> bool" where
  "writes_file_of n f l lg \<longleftrightarrow>
     distinct (map fst (lg_dests lg)) \<and>
     map_of (lg_dests lg) n = Some \<lparr>ld_file = f, ld_open = True, ld_pos = length (lg_disk lg f), ld_level = l\<rparr> \<and>
     (\<forall>(m, e) \<in> set (lg_dests lg). m \<noteq> n \<longrightarrow> ld_file e \<noteq> f)"

text \<open>The calls open no other stream on the file, nor another file under the name.\<close>

fun leaves_alone :: "string \<Rightarrow> string \<Rightarrow> log_op \<Rightarrow> bool" where
  "leaves_alone n f (AddLogFile m g) \<longleftrightarrow> m \<noteq> n \<and> g \<noteq> f"
| "leaves_alone n f _ \<longleftrightarrow> True"

lemma dest_put_split:
  obtains f b where "dest_put n d ds = f @ (n, d) # b" and "f @ b = filter (\<lambda>e. fst e \<noteq> n) ds"
  by (rule that [OF dest_put_def [unfolded Let_def] takeWhile_dropWhile_id])

lemma dest_put_perm: "set (dest_put n d ds) = insert (n, d) {e \<in> set ds. fst e \<noteq> n}"
proof -
  obtain f b where p: "dest_put n d ds = f @ (n, d) # b" and r: "f @ b = filter (\<lambda>e. fst e \<noteq> n) ds"
    by (rule dest_put_split)
  have "set f \<union> set b = {e \<in> set ds. fst e \<noteq> n}" using arg_cong [OF r, of set] by auto
  then show ?thesis using p by auto
qed

lemma dest_put_distinct:
  assumes "distinct (map fst ds)"
  shows "distinct (map fst (dest_put n d ds))"
proof -
  obtain f b where p: "dest_put n d ds = f @ (n, d) # b" and r: "f @ b = filter (\<lambda>e. fst e \<noteq> n) ds"
    by (rule dest_put_split)
  have "distinct (map fst (f @ b))" "n \<notin> fst ` set (f @ b)"
    unfolding r using assms by (auto intro: distinct_map_filter)
  then show ?thesis by (auto simp: p)
qed

lemma dest_put_map:
  assumes "distinct (map fst ds)"
  shows "map_of (dest_put n d ds) m = (if m = n then Some d else map_of ds m)"
proof (cases "m = n")
  case True
  then show ?thesis by (simp add: dest_put_distinct [OF assms] dest_put_perm)
next
  case False
  show ?thesis
  proof (cases "map_of ds m")
    case None
    then have "m \<notin> fst ` set (dest_put n d ds)"
      using False by (auto simp: dest_put_perm map_of_eq_None_iff image_iff)
    then show ?thesis using False None by (metis map_of_eq_None_iff)
  next
    case (Some e)
    then show ?thesis using False map_of_SomeD [OF Some]
      by (simp add: dest_put_distinct [OF assms] dest_put_perm)
  qed
qed

lemma write_at_end [simp]: "write_at (length s) x s = s @ x"
  by (simp add: write_at_def)

lemma output_to_shape:
  "output_to ln k ds disk = (ds1, disk1) \<Longrightarrow>
     map (\<lambda>(n, d). (n, ld_file d)) ds1 = map (\<lambda>(n, d). (n, ld_file d)) ds"
  by (induction ds arbitrary: disk ds1) (auto simp: Let_def split: prod.splits)

lemma output_to_other:
  "output_to ln k ds disk = (ds1, disk1) \<Longrightarrow> \<forall>(m, e) \<in> set ds. ld_file e \<noteq> f \<Longrightarrow> disk1 f = disk f"
proof (induction ds arbitrary: disk ds1)
  case (Cons p r)
  obtain n d where p: "p = (n, d)" by (cases p)
  let ?disk = "if takes k d then disk(ld_file d := write_at (ld_pos d) ln (disk (ld_file d))) else disk"
  obtain r1 where r1: "output_to ln k r ?disk = (r1, disk1)"
    using Cons.prems(1) p by (auto simp: Let_def split: prod.splits)
  have "disk1 f = ?disk f" by (rule Cons.IH [OF r1]) (use Cons.prems(2) in simp)
  then show ?case using Cons.prems(2) p by auto
qed simp

lemma output_to_dest:
  "output_to ln k ds disk = (ds1, disk1) \<Longrightarrow> map_of ds n = Some d \<Longrightarrow>
   map_of ds1 n = Some (if takes k d then d\<lparr>ld_pos := ld_pos d + length ln\<rparr> else d)"
  by (induction ds arbitrary: disk ds1) (auto simp: Let_def split: prod.splits if_splits)

lemma output_to_file:
  "output_to ln k ds disk = (ds1, disk1) \<Longrightarrow> distinct (map fst ds) \<Longrightarrow> map_of ds n = Some d \<Longrightarrow>
   ld_pos d = length (disk (ld_file d)) \<Longrightarrow> \<forall>(m, e) \<in> set ds. m \<noteq> n \<longrightarrow> ld_file e \<noteq> ld_file d \<Longrightarrow>
   disk1 (ld_file d) = disk (ld_file d) @ (if takes k d then ln else [])"
proof (induction ds arbitrary: disk ds1)
  case (Cons p r)
  obtain m e where p: "p = (m, e)" by (cases p)
  let ?disk = "if takes k e then disk(ld_file e := write_at (ld_pos e) ln (disk (ld_file e))) else disk"
  obtain r1 where r1: "output_to ln k r ?disk = (r1, disk1)"
    using Cons.prems(1) p by (auto simp: Let_def split: prod.splits)
  show ?case
  proof (cases "m = n")
    case True
    then have "disk1 (ld_file d) = ?disk (ld_file d)"
      using Cons.prems(2,5) p by (intro output_to_other [OF r1]) (force simp: image_iff)
    then show ?thesis using Cons.prems(3,4) True p by simp
  next
    case False
    then have o: "ld_file e \<noteq> ld_file d" using Cons.prems(5) p by auto
    have "disk1 (ld_file d) = ?disk (ld_file d) @ (if takes k d then ln else [])"
      by (rule Cons.IH [OF r1]) (use Cons.prems(2-5) False p o in auto)
    then show ?thesis using o by simp
  qed
qed simp

lemma output_line_kept:
  assumes "writes_file_of n f l lg"
  shows "writes_file_of n f l (output_line s k lg) \<and>
    lg_disk (output_line s k lg) f = lg_disk lg f @ (if l \<le> k then s @ [CHR 0x0A] else [])"
proof -
  let ?ln = "s @ [CHR 0x0A]" and ?d = "\<lparr>ld_file = f, ld_open = True, ld_pos = length (lg_disk lg f), ld_level = l\<rparr>"
  obtain ds disk where o: "output_to ?ln k (lg_dests lg) (lg_disk lg) = (ds, disk)" by fastforce
  have w: "distinct (map fst (lg_dests lg))" "map_of (lg_dests lg) n = Some ?d"
    "\<forall>(m, e) \<in> set (lg_dests lg). m \<noteq> n \<longrightarrow> ld_file e \<noteq> f"
    using assms by (simp_all add: writes_file_of_def)
  have disk: "disk f = lg_disk lg f @ (if l \<le> k then ?ln else [])"
    using output_to_file [OF o w(1,2)] w(3) by (simp add: takes_def)
  have dest: "map_of ds n = Some (?d\<lparr>ld_pos := length (disk f)\<rparr>)"
    using output_to_dest [OF o w(2)] disk by (simp add: takes_def)
  have shape: "map (\<lambda>(n, d). (n, ld_file d)) ds = map (\<lambda>(n, d). (n, ld_file d)) (lg_dests lg)"
    by (rule output_to_shape [OF o])
  have "map fst ds = map fst (lg_dests lg)"
    using arg_cong [OF shape, of "map fst"] by (simp add: case_prod_beta comp_def)
  moreover have "\<forall>(m, e) \<in> set ds. m \<noteq> n \<longrightarrow> ld_file e \<noteq> f"
  proof -
    have "(m, ld_file e) \<in> set (map (\<lambda>(n, d). (n, ld_file d)) (lg_dests lg))" if "(m, e) \<in> set ds" for m e
      using that unfolding shape [symmetric] by force
    then show ?thesis using w(3) by fastforce
  qed
  ultimately show ?thesis using o w(1) dest disk by (simp add: output_line_def writes_file_of_def)
qed

lemma output_line_fields [simp]:
  "lg_level (output_line s k lg) = lg_level lg" "lg_threads (output_line s k lg) = lg_threads lg"
  by (simp_all add: output_line_def Let_def split: prod.splits)

lemma writes_file_of_upd [simp]:
  "writes_file_of n f l (lg\<lparr>lg_console := b\<rparr>) = writes_file_of n f l lg"
  "writes_file_of n f l (lg\<lparr>lg_level := g\<rparr>) = writes_file_of n f l lg"
  "writes_file_of n f l (lg\<lparr>lg_threads := th\<rparr>) = writes_file_of n f l lg"
  "writes_file_of n f l (lg\<lparr>lg_clouds := cl\<rparr>) = writes_file_of n f l lg"
  by (simp_all add: writes_file_of_def)

lemma set_level_kept:
  assumes "writes_file_of n f l lg"
  shows "writes_file_of n f (if m = n then k else l) (setLogLevelFor m k lg)"
proof -
  let ?g = "\<lambda>(x, d). (x, if x = m then d\<lparr>ld_level := k\<rparr> else d)"
  let ?ds = "map ?g (lg_dests lg)"
  have ds: "lg_dests (setLogLevelFor m k lg) = ?ds" "lg_disk (setLogLevelFor m k lg) = lg_disk lg"
    by (simp_all add: setLogLevelFor_def)
  have names: "map fst ?ds = map fst (lg_dests lg)" by (simp add: comp_def case_prod_beta)
  have "map_of (map ?g es) n = map_option (\<lambda>d. if n = m then d\<lparr>ld_level := k\<rparr> else d) (map_of es n)" for es
    by (induction es) auto
  from this [of "lg_dests lg"] have dest: "map_of ?ds n = Some
      \<lparr>ld_file = f, ld_open = True, ld_pos = length (lg_disk lg f), ld_level = (if m = n then k else l)\<rparr>"
    using assms by (simp add: writes_file_of_def)
  have other: "\<forall>(x, e) \<in> set ?ds. x \<noteq> n \<longrightarrow> ld_file e \<noteq> f"
    using assms by (auto simp: writes_file_of_def split: if_splits)
  show ?thesis unfolding writes_file_of_def ds names
    using assms dest other by (simp add: writes_file_of_def)
qed

lemma add_file_kept:
  assumes "writes_file_of n f l lg" and "m \<noteq> n" and "g \<noteq> f"
  shows "writes_file_of n f l (addLogFile m g lg)"
  using assms by (auto simp: writes_file_of_def addLogFile_def Let_def dest_put_map dest_put_distinct dest_put_perm)

lemma kept_run:
  "writes_file_of n f l lg \<Longrightarrow> list_all (leaves_alone n f) ops \<Longrightarrow> for_each (log_step lt) ops lg = (Inr us, lg1) \<Longrightarrow>
   lg_disk lg1 f = lg_disk lg f @ file_text (kept_lines lt n (lg_level lg) l (lg_threads lg) ops)"
proof (induction ops arbitrary: l lg us)
  case Nil
  then show ?case by (simp add: file_text_def)
next
  case (Cons op ops)
  obtain lg2 us2 where s: "log_step lt op lg = (Inr (), lg2)" and r: "for_each (log_step lt) ops lg2 = (Inr us2, lg1)"
    using Cons.prems(3) by (auto simp: andThen_ok)
  have a: "list_all (leaves_alone n f) ops" "leaves_alone n f op" using Cons.prems(2) by simp_all
  note ih = Cons.IH [OF _ a(1) r]
  have line: "lg_disk lg1 f = lg_disk lg f @ (if lg_level lg \<le> k \<and> l \<le> k then m @ [CHR 0x0A] else []) @
      file_text (kept_lines lt n (lg_level lg) l (lg_threads lg) ops)"
    if "lg2 = (if k < lg_level lg then lg else output_line m k lg)" for k m
    using that ih [of l] Cons.prems(1) output_line_kept [OF Cons.prems(1), of m k] by (auto split: if_splits)
  show ?case
  proof (cases op)
    case (AddLogFile m g)
    then have lg2: "lg2 = addLogFile m g lg" using s by simp
    have "writes_file_of n f l lg2" unfolding lg2 by (rule add_file_kept [OF Cons.prems(1)]) (use AddLogFile a(2) in simp_all)
    then show ?thesis using AddLogFile a(2) ih [of l] by (auto simp: lg2 addLogFile_def Let_def)
  next
    case (SetLevelFor m k)
    then have lg2: "lg2 = setLogLevelFor m k lg" using s by simp
    show ?thesis using SetLevelFor ih [unfolded lg2, OF set_level_kept [OF Cons.prems(1)]]
      by (simp add: setLogLevelFor_def)
  next
    case (LogMessage ms t k c m)
    then show ?thesis using s line [of k "formatMessage lt ms (getThreadName t lg) k c m"]
      by (auto simp: log_message_def getThreadName_def file_text_def split: if_splits)
  next
    case (LogArgs ms t k c fm as)
    then show ?thesis using s line [of k "formatMessage lt ms (getThreadName t lg) k c (the (log_text fm as))"]
      by (auto simp: log_args_def getThreadName_def file_text_def split: if_splits option.splits)
  next
    case (NameThread t name)
    then show ?thesis using s ih [of l] Cons.prems(1) by (auto simp: setThreadName_def fun_upd_def)
  qed (use s ih [of l] Cons.prems(1) in \<open>auto simp: setConsoleLogging_def setGlobalLogLevel_def registerCloud_name_def\<close>)
qed

text \<open>A run goes through when every format fits its arguments.\<close>

fun format_fits :: "log_op \<Rightarrow> bool" where
  "format_fits (LogArgs ms t k c fm as) \<longleftrightarrow> log_text fm as \<noteq> None"
| "format_fits _ \<longleftrightarrow> True"

lemma log_run_ok:
  assumes "list_all format_fits ops"
  obtains us lg1 where "for_each (log_step lt) ops lg = (Inr us, lg1)"
proof -
  have "\<exists>lg1. log_step lt op lg = (Inr (), lg1)" if "format_fits op" for op and lg :: logger
    using that by (cases op) (auto simp: log_message_def log_args_def)
  then have "\<exists>us lg1. for_each (log_step lt) ops lg = (Inr us, lg1)"
    using assms by (induction ops arbitrary: lg) (fastforce simp: andThen_ok)+
  then show ?thesis using that by blast
qed

text \<open>
  C29. The file of a destination holds exactly the lines the reference reads off the sequence of
  calls: from the moment it is opened, whatever the threads log, name and set in between and
  whatever other destinations there are, the text of the file is one line for each message at
  or above both the global level and the level of the destination at that moment, in order,
  with the name its thread had then; the text the file had before is gone.
\<close>

theorem log_file_reference:
  assumes "lg_openable lg f" and "distinct (map fst (lg_dests lg))"
    and "\<forall>(m, e) \<in> set (lg_dests lg). m \<noteq> n \<longrightarrow> ld_file e \<noteq> f"
    and "list_all (leaves_alone n f) ops"
    and "for_each (log_step lt) (AddLogFile n f # ops) lg = (Inr us, lg1)"
  shows "lg_disk lg1 f = file_text (kept_lines lt n (lg_level lg) (lg_level lg) (lg_threads lg) ops)"
proof -
  let ?lg = "addLogFile n f lg"
  obtain us2 where r: "for_each (log_step lt) ops ?lg = (Inr us2, lg1)"
    using assms(5) by (auto simp: andThen_ok)
  have "writes_file_of n f (lg_level lg) ?lg" "lg_disk ?lg f = []"
    using assms(1-3)
    by (auto simp: writes_file_of_def addLogFile_def Let_def dest_put_map dest_put_distinct dest_put_perm)
  then show ?thesis using kept_run [OF _ assms(4) r] by (simp add: addLogFile_def Let_def)
qed

definition sample_tm :: tm where
  "sample_tm = \<lparr>tm_year = 2025, tm_mon = 4, tm_mday = 9, tm_hour = 8, tm_min = 7, tm_sec = 6\<rparr>"

definition sample_calls :: "log_op list" where
  "sample_calls =
     [NameThread 0 ''main'', LogMessage 45 0 LogINF ''Main'' ''up'',
      SetLevelFor ''general'' LogWRN, LogArgs 46 0 LogINF ''Main'' ''%s'' [ArgText ''quiet''],
      LogArgs 47 1 LogERR ''Http'' ''code %i for %s'' [ArgInt 404, ArgText ''x'']]"

theorem log_file_reference_witness:
  "lg_disk (snd (for_each (log_step (\<lambda>_. sample_tm)) (AddLogFile ''general'' ''log'' # sample_calls)
      (logger_new (\<lambda>_. ''old'') (\<lambda>_. True)))) ''log'' =
   file_text [''2025-05-09 08:07:06.045 [INFO] [Thread:main] [Main] up'',
              ''2025-05-09 08:07:06.047 [ERROR] [Thread:unknown] [Http] code 404 for x'']"
proof -
  let ?lg = "logger_new (\<lambda>_. ''old'') (\<lambda>_. True)"
  have texts: "log_text ''%s'' [ArgText ''quiet''] = Some ''quiet''"
    "log_text ''code %i for %s'' [ArgInt 404, ArgText ''x''] = Some ''code 404 for x''"
    by code_simp+
  have lines: "kept_lines (\<lambda>_. sample_tm) ''general'' LogDBG LogDBG (\<lambda>_. None) sample_calls =
      [''2025-05-09 08:07:06.045 [INFO] [Thread:main] [Main] up'',
       ''2025-05-09 08:07:06.047 [ERROR] [Thread:unknown] [Http] code 404 for x'']"
    by code_simp
  obtain us lg1 where r: "for_each (log_step (\<lambda>_. sample_tm)) (AddLogFile ''general'' ''log'' # sample_calls) ?lg = (Inr us, lg1)"
    by (rule log_run_ok [of "AddLogFile ''general'' ''log'' # sample_calls" "\<lambda>_. sample_tm" ?lg])
       (use texts in \<open>simp_all add: sample_calls_def\<close>)
  have "lg_disk lg1 ''log'' = file_text (kept_lines (\<lambda>_. sample_tm) ''general'' LogDBG LogDBG (\<lambda>_. None) sample_calls)"
    using log_file_reference [OF _ _ _ _ r] by (simp add: logger_new_def sample_calls_def)
  then show ?thesis using r lines by simp
qed

end
