(* ===== verification/LogProps.thy ===== *)
theory LogProps
  imports Logger Daemon
begin

text \<open>
  The names of entries as format strings: what a build with logging does with a name that has
  conversions in it.
\<close>

lemma printf_text: "printf (CHR ''%'' # CHR ''s'' # r) (ArgText t # as) = map_option ((@) (c_str t)) (printf r as)"
  by (simp add: printf.simps(2) pad_text_def)

lemma printf_no_argument: "printf (CHR ''%'' # CHR ''s'' # r) [] = None"
  by (simp add: printf.simps(2))

lemma two_conversions:
  assumes "s = a @ ''%s'' @ b @ ''%s'' @ c" and "CHR ''%'' \<notin> set (a @ b)" and "CHR 0x00 \<notin> set s"
  shows "log_text s [ArgText t] = None"
proof -
  have "CHR ''%'' \<notin> set a" "CHR ''%'' \<notin> set b" using assms(2) by simp_all
  moreover have "c_str s = a @ ''%s'' @ b @ ''%s'' @ c" using assms(1,3) by simp
  ultimately show ?thesis by (simp add: log_text_def printf_append printf_text printf_no_argument)
qed

text \<open>
  C30. The name of a file is taken for a format: when a local file whose path has two text
  conversions in it is updated, the first log call of the command reads an argument that was
  never passed, which is undefined behaviour; nothing of the update is done before, so no
  cloud hears of it.
\<close>

theorem name_read_as_format:
  assumes "q_pop (cb_queue w) = (Got c, q)" and "cmd_kind c = LocalUpdate" and "cmd_dto c = Some (UpdatedDTO u)"
    and "path_string (fu_rel_path u) = s1 @ ''%s'' @ s2 @ ''%s'' @ s3"
    and "CHR ''%'' \<notin> set (s1 @ s2)" and "CHR 0x00 \<notin> set (path_string (fu_rel_path u))"
  shows "run_turn P CallbackTurn w = (Inl UndefinedFormat, w\<lparr>cb_queue := q\<rparr>)"
proof -
  obtain i h ow ns where c: "c = Command LocalUpdate i (Some (UpdatedDTO u)) h ow ns"
    using assms(2,3) by (cases c) auto
  have "log_text (path_string (fu_rel_path u)) [ArgText ''started''] = None"
    by (rule two_conversions [OF assms(4-6)])
  then have "completion ops c v = (Inl UndefinedFormat, v)" for ops and v :: "('a, 'b) csys_scheme"
    by (simp add: c complete_LocalUpdate_def log_format_def)
  then show ?thesis using assms(1) c by (simp add: cb_worker_step_def completionCallback_def)
qed

text \<open>A name without a percent sign is safe; \<open>started\<close> is not part of the message then.\<close>

lemma plain_name_logged: "CHR ''%'' \<notin> set (path_string p) \<Longrightarrow> log_text (path_string p) as = Some (c_str (path_string p))"
  by (rule log_text_plain)

definition percent_update :: file_updated_dto where
  "percent_update = updated_local File 1 7 3 \<lparr>rooted = False, segs = [''%s-%s'']\<rparr> 9 12"

definition percent_daemon :: "jv csys" where
  "percent_daemon = (sample_daemon [] [] [] 0)
     \<lparr>cb_queue := \<lparr>q_items = [Command LocalUpdate 0 (Some (UpdatedDTO percent_update)) None None []], q_closed = False\<rparr>\<rparr>"

theorem name_read_as_format_witness:
  "run_turn sample_program CallbackTurn percent_daemon = (Inl UndefinedFormat, sample_daemon [] [] [] 0)"
  using name_read_as_format [of percent_daemon _ _ percent_update "[]" "''-''" "[]" sample_program]
  by (simp add: percent_daemon_def q_pop_def percent_update_def updated_local_def path_string_def sample_daemon_def q_new_def)

end
