(* ===== verification/Spec2Isabelle.thy ===== *)
theory Spec2Isabelle
  imports CommandClasses LocalProps WizardProps Draining Waiting Transfers LogProps
begin

text \<open>
  SyncHarbor keeps a local directory and a folder in each of several clouds (Google Drive,
  Dropbox) the same. It is configured in a dialogue and synchronised once in full
  (\<open>--config\<close>), and then runs as a daemon (\<open>--run-daemon\<close>). This development models the
  program in \<open>src/src\<close> and \<open>src/include\<close>, and states what it guarantees and where it fails.

  \<^bold>\<open>The parts of the program.\<close> \<open>LocalStorage\<close> receives the reports of a file watcher and turns
  them into changes; \<open>GoogleDrive\<close> and \<open>Dropbox\<close> poll their servers and do the same. A
  \<open>Change\<close>, made by \<open>ChangeFactory\<close>, is a chain of commands (\<open>ICommand\<close>): a head, and the
  commands that follow when it is done. \<open>SyncManager\<close> takes the changes one by one, at most one
  running for a path, the others waiting as its dependents. Commands for the local directory go
  to the thread of \<open>CallbackDispatcher\<close>; commands for a cloud go to the thread of \<open>HttpClient\<close>,
  which runs them through libcurl, repeats them, and hands those that succeeded to the
  dispatcher. That writes the result to the database (\<open>Database\<close>, SQLite), tells the change
  that a command is finished, and submits the commands that follow. When the last command of a
  change is finished its dependents are taken up.

  \<^bold>\<open>The theories.\<close> \<open>Prelude\<close>: exceptions as values, strings, integers of fixed width.
  \<open>Paths\<close>, \<open>FileSystem\<close>: the parts of \<open>std::filesystem\<close> and of the helper functions of
  \<open>utils.cpp\<close> that are used, over a tree of directories and files. \<open>DTOs\<close>, \<open>CloudTime\<close>:
  \<open>utils.h\<close> and the conversions of \<open>utils.cpp\<close>. \<open>Sqlite\<close>, \<open>Database\<close>, \<open>DatabaseProps\<close>: the
  tables, every operation of \<open>database.cpp\<close> with the return codes of SQLite as an argument, and
  their properties. \<open>Effects\<close>: actions that return a value or throw, which keep the effects made
  before. \<open>Format\<close>: the text a log call makes of its format and arguments. \<open>EventRegistry\<close>, \<open>SafeQueue\<close>, \<open>ActiveCount\<close>: the two registries of expected events,
  the queue between threads and the counter that waiting threads watch, with the protocols of
  their condition variables as step relations. \<open>Handles\<close>: \<open>request-handle.cpp\<close>. \<open>Commands\<close>,
  \<open>Changes\<close>: \<open>commands.cpp\<close>, \<open>BaseStorage.h\<close> as a record of operations, \<open>change.cpp\<close> and
  \<open>change-factory.h\<close>; shared changes lie on a heap, their addresses are the pointers.
  \<open>LocalStorage\<close>, \<open>LocalProps\<close>: \<open>LocalStorage.cpp\<close>. \<open>Networking\<close>: one turn of each of the two
  workers (\<open>CallbackDispatcher.cpp\<close>, \<open>Networking.cpp\<close>). \<open>CommandClasses\<close>: the classes of
  \<open>commands.h\<close> as records of methods, and where a virtual call goes. \<open>SyncManager\<close>: the daemon part of
  \<open>sync-manager.cpp\<close>. \<open>CloudSys\<close>, \<open>GoogleDrive\<close>, \<open>GoogleChanges\<close>, \<open>Dropbox\<close>,
  \<open>DropboxChanges\<close>, \<open>Clouds\<close>, \<open>CloudProps\<close>: the two clouds and synchronous requests. \<open>Work\<close>,
  \<open>Accounts\<close>, \<open>Daemon\<close>: the threads as one step relation and the accounting of commands.
  \<open>Completion\<close>: the runs in which nothing is lost.  \<open>Draining\<close>: the work that is left.
  \<open>Undisturbed\<close>: what leaves the changes alone. \<open>OnePerPath\<close>:
  the table of running changes. \<open>Waiting\<close>: the changes that wait. \<open>Transfers\<close>: what uploads and downloads leave
  in the files and the database. \<open>Logger\<close>, \<open>LogProps\<close>: \<open>logger.cpp\<close>.
  \<open>Configuration\<close>, \<open>ConfigProps\<close>: configuring, registering, starting and stopping, with
  \<open>http-server.cpp\<close> and \<open>cloud-factory.h\<close>. \<open>FirstSync\<close>, \<open>FirstSyncProps\<close>: \<open>initialSync\<close>.
  \<open>Wizard\<close>, \<open>WizardProps\<close>: \<open>main.cpp\<close>. \<open>SampleJson\<close>: a small JSON library for the samples.

  \<^bold>\<open>The state\<close> grows along the theories as a chain of extended records: \<open>sys\<close> (files, database,
  return codes still to come), \<open>lsys\<close> (local storage, heap of changes), \<open>dsys\<close> (the two workers),
  \<open>ssys\<close> (\<open>SyncManager\<close>), \<open>csys\<close> (the clouds, the answers of the servers), \<open>msys\<close>
  (configuration). An operation works on the smallest of these it needs, whatever is added.

  \<^bold>\<open>Concurrency.\<close> A mutex makes a critical section one step. A turn of a thread (one command, one
  round of curl, one poll, one report of the watcher) is one step of \<open>daemon_step\<close>, and the turns
  of the threads follow each other in any order. Where the program waits for another thread, the
  turns made meanwhile are chosen by a scheduler, which the theorems quantify over. A turn that
  throws ends the program.

  \<^bold>\<open>Interfaces.\<close> \<open>fifo\<close> (queue), \<open>expectations\<close> (registries), \<open>transactional\<close> (writing operations of the
  database), \<open>step_rel\<close>, \<open>handler_rel\<close>, \<open>local_poll\<close> and \<open>poll_rel\<close> (relations that sequences of
  actions, handlers and whole polls respect), \<open>storage_contract\<close> (what the workers rely on in a
  storage), \<open>daemon_env\<close>, \<open>thrifty_env\<close>, \<open>polite_env\<close> and \<open>keeping_env\<close> (what the process loop relies on) are locales; each is
  interpreted on the definitions of the model, \<open>storage_contract\<close> on the local storage and on both
  clouds together.

  \<^bold>\<open>What the lemmas show.\<close> The accounts: in every run the count of a change is at least the number
  of its commands that are anywhere, so no change completes early; a lost command blocks its
  change for ever, and the two places that lose commands are named. A second ledger, kept in
  step with the first, counts the other way: in a run that passes neither of these two places
  the count is also at most the number of commands, so that a system at rest has completed
  everything it handed out, and with it everything that was ever queued for the process loop,
  also what waited behind something else. A potential (\<open>work_left\<close>) pays for every answer and every callback,
  so the daemon comes to rest between two polls. Two changes of one path never run together,
  unless one is started while the process loop waits to start the other. Transfers: a new file
  is recorded once and linked in every cloud it reached, a download is installed whole. The logger: the file of a destination against a reference that
  reads the calls. Formats: names of files that are taken for one. The factory: the shape,
  owners and targets of all chains. The local storage: nothing lost, nothing doubled, changes the
  program makes itself not reported back. The clouds: what is done about a report, which requests
  are recognised, listings over pages, and bounds on repetitions. The database: keys, references
  and transactions under every return code, and what is read after a write. The initial
  synchronisation: no path lost, only newer versions taken over, every cloud served. The
  configuration: storages from rows, the local directory, the permission check. The command
  line: the pid file and the dialogue. The C++ exceptions and undefined behaviour reached in these are
  values: \<open>NullPointer\<close> stands for every access through a null or invalid pointer or iterator.

  \<^bold>\<open>Bounds.\<close> Loops over the pages of a cloud have the number of turns \<open>pg_turns\<close>; without an end
  within it the result is \<open>Diverges\<close>, and the theorems about listings hold for every number not
  smaller than the number of pages. The loop of a synchronous request ends after at most seven
  answers. The loops over queues have as many turns as there are elements, the loops of the
  dialogue end because every turn but the last takes a character from the input. Waiting for a
  thread that has not come to rest when the scheduler is done is \<open>Diverges\<close>.

  \<^bold>\<open>Left open.\<close> Iteration orders of unordered containers (\<open>orders\<close>, the order of \<open>sm_clouds\<close>), the
  return code of every SQLite call, the answers of the servers, the answers to \<open>kill\<close>, and the
  functions of third parties: \<open>nlohmann::json\<close> and URL escaping (\<open>lib\<close>), XXH64.

  \<^bold>\<open>The build.\<close> \<open>main\<close> is modelled for each of the three build types, with the developer modes
  they have. The components are modelled as built with logging (Debug and RelWithDebInfo): what
  the arguments of a log call do to the program (a null pointer, an undefined format) is part
  of the operations; a Release build leaves these calls out. Lines that only print plain text
  are left out, so the log is not part of the state of the daemon.

  \<^bold>\<open>Not modelled.\<close> Conversions of \<open>snprintf\<close> beyond text and integers, and \<open>put_time\<close> beyond
  the one format that is used; the prompts; libcurl below the options that are set and the answers that arrive; the file watcher
  below its reports; the socket of the authorisation server below the codes it receives; signal
  handlers; the Windows and macOS branches. The tree of files has no symbolic links and no
  permissions of its own (the permission check gets them as an argument), and a path with \<open>..\<close> is
  looked up as written.
\<close>

end
